(* ===== verification/Prelude.thy ===== *)
theory Prelude
  imports
    Main
    "HOL-Library.Word"
    "HOL-Library.Multiset"
    "HOL-Library.Char_ord"
    "HOL-Library.List_Lexorder"
begin

text \<open>
  Shared vocabulary of the development: the pieces of Go's language and standard library the
  modelled code uses (\<open>strings\<close>, \<open>strconv.Atoi\<close>, \<open>sort.SliceStable\<close>, 32-bit conversions), and
  the list facts the components share.

  A Go string is a byte sequence, and a HOL \<open>char\<close> is a byte, so Go strings are \<open>string\<close>s and
  \<open><\<close> on them (HOL-Library.List_Lexorder over HOL-Library.Char_ord) is Go's byte-wise order.
  White space is Go's \<open>unicode.IsSpace\<close> on UTF-8, multi-byte encodings included.  Case mapping
  (\<open>to_lower\<close>, \<open>to_upper\<close>, \<open>equal_fold\<close>) is the ASCII mapping: bytes above 127 are left alone,
  where Go also maps non-ASCII letters.
\<close>

named_theorems go_strings \<open>facts on the model of package strings\<close>

section \<open>White space\<close>

definition byte_is :: "char \<Rightarrow> nat \<Rightarrow> bool" where
  "byte_is c n \<longleftrightarrow> (of_char c :: nat) = n"

definition ascii_space :: "char \<Rightarrow> bool" where
  "ascii_space c \<longleftrightarrow> (let n = (of_char c :: nat) in n = 32 \<or> 9 \<le> n \<and> n \<le> 13)"

text \<open>Length of the white-space encoding a string starts with, 0 when it starts with none.\<close>

fun space_len :: "string \<Rightarrow> nat" where
  "space_len [] = 0"
| "space_len [c] = (if ascii_space c then 1 else 0)"
| "space_len [c, d] =
     (if ascii_space c then 1
      else if byte_is c 194 \<and> (byte_is d 133 \<or> byte_is d 160) then 2 else 0)"
| "space_len (c # d # e # cs) =
     (if ascii_space c then 1
      else if byte_is c 194 \<and> (byte_is d 133 \<or> byte_is d 160) then 2
      else if byte_is c 225 \<and> byte_is d 154 \<and> byte_is e 128 then 3
      else if byte_is c 226 \<and> byte_is d 128
           \<and> (128 \<le> (of_char e :: nat) \<and> (of_char e :: nat) \<le> 138
              \<or> byte_is e 168 \<or> byte_is e 169 \<or> byte_is e 175) then 3
      else if byte_is c 226 \<and> byte_is d 129 \<and> byte_is e 159 then 3
      else if byte_is c 227 \<and> byte_is d 128 \<and> byte_is e 128 then 3
      else 0)"

lemma space_len_le [simp]: "space_len s \<le> length s"
  by (induction s rule: space_len.induct) auto

lemma space_len_pos_nonempty: "0 < space_len s \<Longrightarrow> s \<noteq> []"
  by auto

function all_space :: "string \<Rightarrow> bool" where
  "all_space s =
     (if s = [] then True
      else if 0 < space_len s then all_space (drop (space_len s) s)
      else False)"
  by pat_completeness auto
termination
  by (relation "measure length") (use space_len_pos_nonempty in \<open>auto intro!: diff_less\<close>)

declare all_space.simps [simp del]

function trim_left :: "string \<Rightarrow> string" where
  "trim_left s = (if 0 < space_len s then trim_left (drop (space_len s) s) else s)"
  by pat_completeness auto
termination
  by (relation "measure length") (use space_len_pos_nonempty in \<open>auto intro!: diff_less\<close>)

declare trim_left.simps [simp del]

fun trim_right :: "string \<Rightarrow> string" where
  "trim_right [] = []"
| "trim_right (c # cs) = (if all_space (c # cs) then [] else c # trim_right cs)"

definition trim_space :: "string \<Rightarrow> string" where
  "trim_space s = trim_right (trim_left s)"

lemma space_len_trim_left: "space_len (trim_left s) = 0"
proof (induction s rule: trim_left.induct)
  case (1 s)
  then show ?case by (cases "0 < space_len s") (simp_all add: trim_left.simps [of s])
qed

lemma trim_left_empty_iff: "trim_left s = [] \<longleftrightarrow> all_space s"
proof (induction s rule: trim_left.induct)
  case (1 s)
  show ?case
    by (cases "0 < space_len s")
      (use 1 in \<open>auto simp: trim_left.simps [of s] all_space.simps [of s]\<close>)
qed

lemma trim_right_empty_iff: "trim_right s = [] \<longleftrightarrow> all_space s"
  by (cases s) (auto simp: all_space.simps [of "[]"])

lemma trim_space_empty_iff [go_strings]: "trim_space s = [] \<longleftrightarrow> all_space s"
proof -
  have "all_space (trim_left s) \<longleftrightarrow> trim_left s = []"
    by (simp add: all_space.simps [of "trim_left s"] space_len_trim_left)
  then show ?thesis
    by (simp add: trim_space_def trim_right_empty_iff trim_left_empty_iff)
qed

text \<open>\<open>strings.TrimSpace\<close> leaves a trimmed string alone.\<close>

lemma space_len_append: "0 < space_len s \<Longrightarrow> space_len (s @ r) = space_len s"
proof (induction s rule: space_len.induct)
  case (2 c)
  then show ?case by (cases r rule: space_len.cases) (auto split: if_splits)
next
  case (3 c d)
  then show ?case by (cases r) (auto split: if_splits)
qed simp_all

lemma all_space_append: "all_space s \<Longrightarrow> all_space r \<Longrightarrow> all_space (s @ r)"
proof (induction s rule: all_space.induct)
  case (1 s)
  show ?case
  proof (cases "s = []")
    case False
    then have n: "0 < space_len s" "all_space (drop (space_len s) s)"
      using 1(2) by (simp_all add: all_space.simps [of s] split: if_splits)
    then have "all_space (drop (space_len s) s @ r)" using 1(1,3) False by blast
    then show ?thesis using n space_len_append [OF n(1), of r] by (simp add: all_space.simps [of "s @ r"])
  qed (use 1(3) in simp)
qed

lemma trim_right_prefix: "\<exists>w. s = trim_right s @ w \<and> all_space w"
proof (induction s)
  case (Cons c cs)
  then obtain w where "cs = trim_right cs @ w" "all_space w" by blast
  then show ?case by (cases "all_space (c # cs)") (auto intro: exI [of _ w])
qed (simp add: all_space.simps)

lemma trim_right_idem: "trim_right (trim_right s) = trim_right s"
proof (induction s)
  case (Cons c cs)
  obtain w where w: "cs = trim_right cs @ w" "all_space w" using trim_right_prefix by blast
  have "\<not> all_space (c # trim_right cs)" if no: "\<not> all_space (c # cs)"
  proof
    assume "all_space (c # trim_right cs)"
    then have "all_space ((c # trim_right cs) @ w)" using w(2) by (rule all_space_append)
    then show False using no w(1) by (metis append_Cons)
  qed
  then show ?case using Cons by simp
qed simp

lemma trim_left_fix: "space_len s = 0 \<Longrightarrow> trim_left s = s"
  by (simp add: trim_left.simps [of s])

lemma trim_space_idem [simp]: "trim_space (trim_space s) = trim_space s"
proof -
  obtain w where "trim_left s = trim_right (trim_left s) @ w" using trim_right_prefix by blast
  then have "space_len (trim_right (trim_left s)) = 0"
    using space_len_append [of "trim_right (trim_left s)" w] space_len_trim_left [of s] by (metis gr0I)
  then show ?thesis by (simp add: trim_space_def trim_left_fix trim_right_idem)
qed

text \<open>\<open>strings.Fields\<close>: the maximal runs between white space.\<close>

function str_fields_from :: "string \<Rightarrow> string \<Rightarrow> string list" where
  "str_fields_from acc [] = (if acc = [] then [] else [rev acc])"
| "str_fields_from acc (c # cs) =
     (if 0 < space_len (c # cs)
      then (if acc = [] then [] else [rev acc])
           @ str_fields_from [] (drop (space_len (c # cs)) (c # cs))
      else str_fields_from (c # acc) cs)"
  by pat_completeness auto
termination
  by (relation "measure (\<lambda>(acc, s). length s)") auto

declare str_fields_from.simps(2) [simp del]

definition str_fields :: "string \<Rightarrow> string list" where
  "str_fields s = str_fields_from [] s"

lemma str_fields_from_acc: "acc \<noteq> [] \<Longrightarrow> str_fields_from acc s \<noteq> []"
proof (induction acc s rule: str_fields_from.induct)
  case (2 acc c cs)
  then show ?case by (cases "0 < space_len (c # cs)") (simp_all add: str_fields_from.simps(2))
qed simp

lemma str_fields_from_nil_empty_iff: "str_fields_from [] s = [] \<longleftrightarrow> all_space s"
proof (induction s rule: length_induct)
  case (1 s)
  show ?case
  proof (cases s)
    case Nil
    then show ?thesis by (simp add: all_space.simps [of "[]"])
  next
    case (Cons c cs)
    show ?thesis
    proof (cases "0 < space_len s")
      case True
      then have "length (drop (space_len s) s) < length s" using Cons by simp
      with 1 True Cons show ?thesis
        by (simp add: str_fields_from.simps(2) all_space.simps [of "c # cs"])
    next
      case False
      then show ?thesis using Cons
        by (simp add: str_fields_from.simps(2) all_space.simps [of "c # cs"] str_fields_from_acc)
    qed
  qed
qed

lemma str_fields_empty_iff [go_strings]: "str_fields s = [] \<longleftrightarrow> trim_space s = []"
  by (simp add: str_fields_def str_fields_from_nil_empty_iff trim_space_empty_iff)

lemma str_fields_from_nonempty:
  "f \<in> set (str_fields_from acc s) \<Longrightarrow> f \<noteq> []"
proof (induction acc s arbitrary: f rule: str_fields_from.induct)
  case (2 acc c cs)
  then show ?case
    by (cases "0 < space_len (c # cs)") (auto simp: str_fields_from.simps(2) split: if_splits)
qed (simp split: if_splits)

lemma str_fields_nonempty [go_strings]: "f \<in> set (str_fields s) \<Longrightarrow> f \<noteq> []"
  unfolding str_fields_def by (rule str_fields_from_nonempty)

section \<open>Case, search and splitting\<close>

definition lower_char :: "char \<Rightarrow> char" where
  "lower_char c = (let n = (of_char c :: nat) in if 65 \<le> n \<and> n \<le> 90 then char_of (n + 32) else c)"

definition upper_char :: "char \<Rightarrow> char" where
  "upper_char c = (let n = (of_char c :: nat) in if 97 \<le> n \<and> n \<le> 122 then char_of (n - 32) else c)"

definition to_lower :: "string \<Rightarrow> string" where
  "to_lower s = map lower_char s"

definition to_upper :: "string \<Rightarrow> string" where
  "to_upper s = map upper_char s"

definition equal_fold :: "string \<Rightarrow> string \<Rightarrow> bool" where
  "equal_fold a b \<longleftrightarrow> to_lower a = to_lower b"

lemma lower_char_idem [simp]: "lower_char (lower_char c) = lower_char c"
  by (auto simp: lower_char_def Let_def)

lemma to_lower_idem [simp]: "to_lower (to_lower s) = to_lower s"
  by (simp add: to_lower_def)

lemma to_lower_Nil_iff [simp]: "to_lower s = [] \<longleftrightarrow> s = []"
  by (simp add: to_lower_def)

definition has_prefix :: "string \<Rightarrow> string \<Rightarrow> bool" where
  "has_prefix s p \<longleftrightarrow> take (length p) s = p"

definition has_suffix :: "string \<Rightarrow> string \<Rightarrow> bool" where
  "has_suffix s p \<longleftrightarrow> has_prefix (rev s) (rev p)"

definition trim_prefix :: "string \<Rightarrow> string \<Rightarrow> string" where
  "trim_prefix s p = (if has_prefix s p then drop (length p) s else s)"

fun str_contains :: "string \<Rightarrow> string \<Rightarrow> bool" where
  "str_contains [] p \<longleftrightarrow> p = []"
| "str_contains (c # cs) p \<longleftrightarrow> has_prefix (c # cs) p \<or> str_contains cs p"

text \<open>\<open>strings.Split\<close> on a one-byte separator: always at least one part.\<close>

fun split_on :: "char \<Rightarrow> string \<Rightarrow> string list" where
  "split_on c [] = [[]]"
| "split_on c (d # ds) =
     (if d = c then [] # split_on c ds
      else (case split_on c ds of [] \<Rightarrow> [[d]] | p # ps \<Rightarrow> (d # p) # ps))"

lemma split_on_nonempty [simp]: "split_on c s \<noteq> []"
  by (cases s) (auto split: list.splits)

text \<open>\<open>strings.SplitN(s, c, 2)[0]\<close>: what comes before the first separator.\<close>

definition before_char :: "char \<Rightarrow> string \<Rightarrow> string" where
  "before_char c s = takeWhile (\<lambda>x. x \<noteq> c) s"

text \<open>\<open>strings.Cut\<close> on a one-byte separator: before, after, found.\<close>

definition cut_on :: "char \<Rightarrow> string \<Rightarrow> (string \<times> string) option" where
  "cut_on c s = (if c \<in> set s then Some (takeWhile (\<lambda>x. x \<noteq> c) s, tl (dropWhile (\<lambda>x. x \<noteq> c) s)) else None)"

text \<open>\<open>strings.LastIndex\<close> of one byte, as the split at it: before and after the last occurrence.\<close>

definition cut_last :: "char \<Rightarrow> string \<Rightarrow> (string \<times> string) option" where
  "cut_last c s = (if c \<in> set s
     then Some (rev (tl (dropWhile (\<lambda>x. x \<noteq> c) (rev s))), rev (takeWhile (\<lambda>x. x \<noteq> c) (rev s)))
     else None)"

text \<open>\<open>strings.TrimRight\<close> and \<open>strings.TrimLeft\<close> with a one-byte cutset predicate.\<close>

definition trim_right_while :: "(char \<Rightarrow> bool) \<Rightarrow> string \<Rightarrow> string" where
  "trim_right_while p s = rev (dropWhile p (rev s))"

fun join :: "string \<Rightarrow> string list \<Rightarrow> string" where
  "join sep [] = []"
| "join sep [x] = x"
| "join sep (x # y # ys) = x @ sep @ join sep (y # ys)"

definition is_digit :: "char \<Rightarrow> bool" where
  "is_digit c \<longleftrightarrow> (let n = (of_char c :: nat) in 48 \<le> n \<and> n \<le> 57)"

definition is_lower :: "char \<Rightarrow> bool" where
  "is_lower c \<longleftrightarrow> (let n = (of_char c :: nat) in 97 \<le> n \<and> n \<le> 122)"

definition is_upper :: "char \<Rightarrow> bool" where
  "is_upper c \<longleftrightarrow> (let n = (of_char c :: nat) in 65 \<le> n \<and> n \<le> 90)"

definition is_hex_digit :: "char \<Rightarrow> bool" where
  "is_hex_digit c \<longleftrightarrow> is_digit c
     \<or> (let n = (of_char c :: nat) in 97 \<le> n \<and> n \<le> 102 \<or> 65 \<le> n \<and> n \<le> 70)"

definition digit_val :: "char \<Rightarrow> nat" where
  "digit_val c = of_char c - 48"

definition str_compare :: "string \<Rightarrow> string \<Rightarrow> int" where
  "str_compare a b = (if a < b then - 1 else if a = b then 0 else 1)"

lemma str_compare_refl [simp]: "str_compare a a = 0"
  by (simp add: str_compare_def)

lemma str_compare_antisym: "str_compare b a = - str_compare a b"
  by (auto simp: str_compare_def)

lemma str_compare_eq_0_iff [simp]: "str_compare a b = 0 \<longleftrightarrow> a = b"
  by (auto simp: str_compare_def)

section \<open>strconv.Atoi\<close>

text \<open>
  The value and the error of \<open>strconv.Atoi\<close> for 64-bit \<open>int\<close>: a syntax error gives 0, a range
  error the nearest representable value.
\<close>

datatype num_error = ErrSyntax | ErrRange

definition max_int64 :: int where "max_int64 = 9223372036854775807"
definition min_int64 :: int where "min_int64 = - 9223372036854775808"

definition nat_of_digits :: "string \<Rightarrow> nat" where
  "nat_of_digits ds = foldl (\<lambda>n c. n * 10 + digit_val c) 0 ds"

definition atoi :: "string \<Rightarrow> int \<times> num_error option" where
  "atoi s =
     (let neg = (s \<noteq> [] \<and> hd s = CHR ''-'');
          ds = (if s \<noteq> [] \<and> (hd s = CHR ''-'' \<or> hd s = CHR ''+'') then tl s else s)
      in if ds = [] \<or> \<not> list_all is_digit ds then (0, Some ErrSyntax)
         else let v = (if neg then - int (nat_of_digits ds) else int (nat_of_digits ds))
              in if v > max_int64 then (max_int64, Some ErrRange)
                 else if v < min_int64 then (min_int64, Some ErrRange)
                 else (v, None))"

text \<open>\<open>fmt\<close> prints a number (\<open>fmt.Sprintf("%d")\<close>).\<close>

fun decimal :: "nat \<Rightarrow> string" where
  "decimal n = (if n < 10 then [char_of (48 + n)] else decimal (n div 10) @ [char_of (48 + n mod 10)])"

declare decimal.simps [simp del]

text \<open>\<open>strconv.FormatInt(n, 10)\<close>.\<close>

definition decimal_int :: "int \<Rightarrow> string" where
  "decimal_int n = (if n < 0 then CHR ''-'' # decimal (nat (- n)) else decimal (nat n))"

lemma digit_of: "k < 10 \<Longrightarrow> is_digit (char_of (48 + k :: nat)) \<and> digit_val (char_of (48 + k)) = k"
  by (simp add: is_digit_def digit_val_def Let_def)

lemma decimal_digits: "list_all is_digit (decimal n) \<and> decimal n \<noteq> []"
proof (induction n rule: decimal.induct)
  case (1 n)
  then show ?case using digit_of [of n] digit_of [of "n mod 10"] by (cases "n < 10") (simp_all add: decimal.simps [of n])
qed

lemma nat_of_decimal [simp]: "nat_of_digits (decimal n) = n"
proof (induction n rule: decimal.induct)
  case (1 n)
  then show ?case
    using digit_of [of n] digit_of [of "n mod 10"] by (cases "n < 10") (simp_all add: decimal.simps [of n] nat_of_digits_def)
qed

section \<open>Stable sorting\<close>

text \<open>\<open>sort.SliceStable\<close> with a strict weak order \<open>lt\<close>, as a stable insertion sort.\<close>

fun insert_by :: "('a \<Rightarrow> 'a \<Rightarrow> bool) \<Rightarrow> 'a \<Rightarrow> 'a list \<Rightarrow> 'a list" where
  "insert_by lt x [] = [x]"
| "insert_by lt x (y # ys) = (if lt y x then y # insert_by lt x ys else x # y # ys)"

definition stable_sort_by :: "('a \<Rightarrow> 'a \<Rightarrow> bool) \<Rightarrow> 'a list \<Rightarrow> 'a list" where
  "stable_sort_by lt xs = foldr (insert_by lt) xs []"

lemma mset_insert_by [simp]: "mset (insert_by lt x ys) = add_mset x (mset ys)"
  by (induction ys) auto

lemma mset_stable_sort_by [simp]: "mset (stable_sort_by lt xs) = mset xs"
  by (induction xs) (auto simp: stable_sort_by_def)

lemma set_stable_sort_by [simp]: "set (stable_sort_by lt xs) = set xs"
  by (metis mset_stable_sort_by set_mset_mset)

lemma sorted_insert_by:
  assumes asym: "\<And>x y. lt x y \<Longrightarrow> \<not> lt y x" and trans: "\<And>x y z. \<not> lt y x \<Longrightarrow> \<not> lt z y \<Longrightarrow> \<not> lt z x"
    and ys: "sorted_wrt (\<lambda>a b. \<not> lt b a) ys"
  shows "sorted_wrt (\<lambda>a b. \<not> lt b a) (insert_by lt x ys)"
proof -
  have set: "set (insert_by lt x zs) = insert x (set zs)" for zs
    by (metis mset_insert_by set_mset_add_mset_insert set_mset_mset)
  show ?thesis using ys 
  proof (induction ys)
    case (Cons a ys)
    have "\<not> lt b x" if "\<not> lt a x" "b \<in> set ys" for b
      using trans [OF that(1), of b] Cons.prems that(2) by auto
    with Cons show ?case by (auto simp: set dest: asym)
  qed simp
qed

lemma stable_sort_by_sorted:
  assumes "\<And>x y. lt x y \<Longrightarrow> \<not> lt y x" and "\<And>x y z. \<not> lt y x \<Longrightarrow> \<not> lt z y \<Longrightarrow> \<not> lt z x"
  shows "sorted_wrt (\<lambda>a b. \<not> lt b a) (stable_sort_by lt xs)"
  unfolding stable_sort_by_def by (induction xs) (simp_all add: sorted_insert_by [of lt, OF assms])

lemma insert_by_key: "insert_by (\<lambda>x y. (key x :: 'k :: linorder) < key y) = insort_key key"
proof (intro ext)
  fix x :: 'a and ys
  show "insert_by (\<lambda>x y. key x < key y) x ys = insort_key key x ys"
    by (induction ys) auto
qed

lemma stable_sort_by_key:
  "stable_sort_by (\<lambda>x y. (key x :: 'k :: linorder) < key y) xs = sort_key key xs"
  by (simp add: stable_sort_by_def insert_by_key sort_key_def)

lemma stable_sort_by_cong:
  assumes "\<And>x y. lt x y \<longleftrightarrow> (key x :: 'k :: linorder) < key y"
  shows "stable_sort_by lt xs = sort_key key xs"
proof -
  have "lt = (\<lambda>x y. key x < key y)" using assms by (intro ext) auto
  then show ?thesis by (simp add: stable_sort_by_key)
qed

text \<open>Two permutations with distinct keys sort to the same list.\<close>

lemma sort_key_perm_distinct:
  assumes "mset xs = mset ys" and "distinct (map key xs)"
  shows "sort_key key xs = sort_key (key :: 'a \<Rightarrow> 'k :: linorder) ys"
proof (rule properties_for_sort_key [symmetric])
  show "mset (sort_key key xs) = mset ys" using assms(1) by simp
  show "sorted (map key (sort_key key xs))" by simp
  fix k
  assume k: "k \<in> set (sort_key key xs)"
  have dys: "distinct (map key ys)"
    using assms by (metis mset_map mset_eq_imp_distinct_iff)
  have one: "filter (\<lambda>x. key k = key x) zs = [k]"
    if d: "distinct (map key zs)" and m: "k \<in> set zs" for zs
    using d m
  proof (induction zs)
    case (Cons z zs)
    show ?case
    proof (cases "z = k")
      case True
      then have "filter (\<lambda>x. key k = key x) zs = []"
        using Cons.prems(1) by (auto simp: filter_empty_conv)
      with True show ?thesis by simp
    next
      case False
      with Cons show ?thesis by (auto simp: image_iff)
    qed
  qed simp
  have "distinct (map key (sort_key key xs))"
    using assms(2) by (metis mset_map mset_eq_imp_distinct_iff mset_sort)
  moreover have "k \<in> set ys" using k assms(1) by (metis mset_eq_setD set_sort)
  ultimately show "filter (\<lambda>x. key k = key x) (sort_key key xs) = filter (\<lambda>x. key k = key x) ys"
    using k dys by (simp add: one)
qed

section \<open>Lists of rows\<close>

text \<open>
  Facts on \<open>map_filter\<close>-like updates of a table kept as a list of rows: the rows a predicate
  selects are rewritten in place, the others stay.
\<close>

definition update_where :: "('r \<Rightarrow> bool) \<Rightarrow> ('r \<Rightarrow> 'r) \<Rightarrow> 'r list \<Rightarrow> 'r list" where
  "update_where p u t = map (\<lambda>r. if p r then u r else r) t"

lemma length_update_where [simp]: "length (update_where p u t) = length t"
  by (simp add: update_where_def)

lemma update_where_simps [simp]:
  "update_where p u [] = []"
  "update_where p u (r # t) = (if p r then u r else r) # update_where p u t"
  by (simp_all add: update_where_def)

lemma map_update_where: "(\<And>r. p r \<Longrightarrow> f (u r) = f r) \<Longrightarrow> map f (update_where p u t) = map f t"
  by (auto simp: update_where_def)

lemma in_update_where:
  "r \<in> set (update_where p u t) \<longleftrightarrow> (\<exists>q \<in> set t. r = (if p q then u q else q))"
  by (auto simp: update_where_def)

lemma update_where_all:
  "r \<in> set (update_where p u t)
     \<Longrightarrow> (\<And>x. x \<in> set t \<Longrightarrow> p x \<Longrightarrow> P (u x)) \<Longrightarrow> (\<And>x. x \<in> set t \<Longrightarrow> \<not> p x \<Longrightarrow> P x) \<Longrightarrow> P r"
  unfolding in_update_where by metis

lemma update_where_none [simp]: "filter p t = [] \<Longrightarrow> update_where p u t = t"
  by (induction t) (auto split: if_splits)

lemma distinct_filter_mono:
  "(\<And>r. r \<in> set t \<Longrightarrow> q r \<Longrightarrow> p r) \<Longrightarrow> distinct (map f (filter p t)) \<Longrightarrow> distinct (map f (filter q t))"
  by (induction t) (auto split: if_splits)

definition non_empty :: "string \<Rightarrow> string option" where
  "non_empty s = (if s = [] then None else Some s)"

definition coalesce :: "'a option \<Rightarrow> 'a option \<Rightarrow> 'a option" where
  "coalesce a b = (case a of None \<Rightarrow> b | Some x \<Rightarrow> Some x)"

lemma coalesce_simps [simp]: "coalesce None b = b" "coalesce (Some x) b = Some x"
  by (simp_all add: coalesce_def)

section \<open>Plain words\<close>

text \<open>A word of plain ASCII: the usual form of package names and versions.\<close>

definition plain_word :: "string \<Rightarrow> bool" where
  "plain_word w \<longleftrightarrow> w \<noteq> [] \<and> list_all (\<lambda>c. 32 < (of_char c :: nat) \<and> (of_char c :: nat) < 128) w"

lemma space_len_plain:
  "32 < (of_char c :: nat) \<Longrightarrow> (of_char c :: nat) < 128 \<Longrightarrow> space_len (c # cs) = 0"
  by (cases cs; cases "tl cs") (auto simp: ascii_space_def byte_is_def Let_def)

lemma space_len_blank: "space_len (CHR '' '' # cs) = 1"
  by (cases cs; cases "tl cs") (auto simp: ascii_space_def Let_def)

lemma plain_word_Cons:
  "plain_word w \<Longrightarrow> \<exists>c cs. w = c # cs \<and> 32 < (of_char c :: nat) \<and> (of_char c :: nat) < 128"
  by (cases w) (auto simp: plain_word_def)

lemma not_all_space_Cons:
  "32 < (of_char c :: nat) \<Longrightarrow> (of_char c :: nat) < 128 \<Longrightarrow> \<not> all_space (c # cs)"
  by (simp add: all_space.simps [of "c # cs"] space_len_plain)

lemma trim_left_Cons:
  "32 < (of_char c :: nat) \<Longrightarrow> (of_char c :: nat) < 128 \<Longrightarrow> trim_left (c # cs) = c # cs"
  by (simp add: trim_left.simps [of "c # cs"] space_len_plain)

lemma not_all_space_plain: "plain_word w \<Longrightarrow> \<not> all_space (w @ s)"
  using plain_word_Cons [of w] by (auto simp: not_all_space_Cons)

lemma all_space_blank: "all_space (CHR '' '' # s) = all_space s"
  by (simp add: all_space.simps [of "CHR '' '' # s"] space_len_blank)

lemma trim_right_plain:
  "list_all (\<lambda>c. 32 < (of_char c :: nat) \<and> (of_char c :: nat) < 128) w \<Longrightarrow>
   trim_right (w @ s) = w @ trim_right s"
  by (induction w) (auto simp: not_all_space_Cons)

lemma fields_plain:
  "list_all (\<lambda>c. 32 < (of_char c :: nat) \<and> (of_char c :: nat) < 128) w \<Longrightarrow>
   str_fields_from acc (w @ s) = str_fields_from (rev w @ acc) s"
  by (induction w arbitrary: acc) (auto simp: str_fields_from.simps(2) space_len_plain)

lemma fields_blank:
  "str_fields_from acc (CHR '' '' # s) = (if acc = [] then [] else [rev acc]) @ str_fields_from [] s"
  by (simp add: str_fields_from.simps(2) space_len_blank)

lemma trim_space_plain: 
  assumes "plain_word p" shows "trim_space p = p"
proof -
  obtain c cs where p: "p = c # cs" and c: "32 < (of_char c :: nat)" "(of_char c :: nat) < 128"
    using plain_word_Cons [OF assms] by blast
  have "trim_left p = p" using c by (simp add: p trim_left_Cons)
  moreover have "trim_right (p @ []) = p @ trim_right []"
    using assms unfolding plain_word_def by (intro trim_right_plain) simp
  ultimately show ?thesis by (simp add: trim_space_def)
qed

lemma split_on_no_sep: "c \<notin> set x \<Longrightarrow> split_on c x = [x]"
  by (induction x) auto

lemma split_on_app_sep: "c \<notin> set x \<Longrightarrow> split_on c (x @ c # s) = x # split_on c s"
  by (induction x) auto

section \<open>Machine integers and durations\<close>

definition int64_wrap :: "int \<Rightarrow> int" where
  "int64_wrap x = (x + 9223372036854775808) mod 18446744073709551616 - 9223372036854775808"

lemma int64_wrap_id: "- 9223372036854775808 \<le> x \<Longrightarrow> x < 9223372036854775808 \<Longrightarrow> int64_wrap x = x"
  by (simp add: int64_wrap_def)

text \<open>Go's division truncates towards zero.\<close>

definition quot :: "int \<Rightarrow> int \<Rightarrow> int" where
  "quot a b = (if a < 0 then - ((- a) div b) else a div b)"

text \<open>\<open>time.Duration(m) * time.Minute\<close>, in nanoseconds; the product wraps above 292 years.\<close>

definition go_minutes :: "int \<Rightarrow> int" where
  "go_minutes m = int64_wrap (m * 60000000000)"

lemma go_minutes_id: "- 153722867 \<le> m \<Longrightarrow> m \<le> 153722867 \<Longrightarrow> go_minutes m = m * 60000000000"
  by (simp add: go_minutes_def int64_wrap_id)

lemma go_minutes_wraps:
  assumes "153722867 < m" and "m \<le> 307445734"
  shows "go_minutes m = m * 60000000000 - 18446744073709551616"
proof -
  let ?x = "m * 60000000000 + 9223372036854775808"
  have "?x mod 18446744073709551616 = (?x - 18446744073709551616) mod 18446744073709551616"
    by (rule minus_mod_self2 [symmetric])
  also have "\<dots> = ?x - 18446744073709551616"
    using assms by (intro mod_pos_pos_trivial) simp_all
  finally have x: "?x mod 18446744073709551616 = ?x - 18446744073709551616" .
  show ?thesis unfolding go_minutes_def int64_wrap_def x by simp
qed

end
