(* ===== verification/PatchDb.thy ===== *)
theory PatchDb
  imports Prelude
begin

text \<open>
  The tables \<open>patch_runs\<close> and \<open>patch_run_items\<close> and the queries the server runs on them
  (\<open>internal/db/patching.sql.go\<close>, \<open>internal/db/patch_run_items.sql.go\<close>), as functions on a state.

  A table is the list of its rows.  A query takes the environment of the call (the clock \<open>NOW()\<close>,
  which queries fail, the generated ids, the collation's row order) and returns either a database
  error or its result and the new state.  The partial unique index
  \<open>patch_runs_one_active_per_host\<close> and the other unique constraints are checked by every insert and
  update, as PostgreSQL does, so a violation is an error of the query, not a fact assumed.
  Foreign keys to tables outside the model are not checked; the cascades of \<open>DELETE FROM
  patch_runs\<close> inside the two tables are.
\<close>

section \<open>Rows and state\<close>

record patch_run =
  pr_id :: string
  pr_host :: string
  pr_job :: string
  pr_type :: string
  pr_package_name :: "string option"
  pr_package_names :: "string list option"
  pr_status :: string
  pr_output :: string
  pr_error :: "string option"
  pr_started_at :: "int option"
  pr_completed_at :: "int option"
  pr_scheduled_at :: "int option"
  pr_triggered_by :: "string option"
  pr_approved_by :: "string option"
  pr_dry_run :: bool
  pr_affected :: "string list option"
  pr_policy_id :: "string option"
  pr_policy_name :: "string option"
  pr_policy_snapshot :: "string option"
  pr_validation_run :: "string option"
  pr_created_at :: int
  pr_updated_at :: int
  pr_reboot_required :: "bool option"
  pr_win_updates :: "bool option"
  pr_win_apps :: "bool option"

record run_item =
  it_id :: string
  it_run :: string
  it_host :: string
  it_kind :: string
  it_identifier :: string
  it_revision :: "int option"
  it_title :: string
  it_kb :: "string option"
  it_status :: string
  it_result_code :: "int option"
  it_hresult :: "string option"
  it_exit_code :: "int option"
  it_reboot_required :: bool
  it_download_bytes :: "int option"
  it_message :: "string option"
  it_started_at :: "string option"
  it_completed_at :: "string option"

record store_db =
  runs :: "patch_run list"
  items :: "run_item list"

definition empty_db :: store_db where
  "empty_db = \<lparr>runs = [], items = []\<rparr>"

datatype query =
    QBegin | QCommit | QCreatePatchRun | QMarkValidationApproved | QValidated | QStarted | QProgress
  | QCompleted | QFailed | QCancelled | QCancelledOutput | QCancelledByUser | QPackagesAffected
  | QActivate | QSkip | QRequeue | QDispatched | QDisconnected | QTimedOut | QUndispatched
  | QPolicySnapshot | QScheduledAt | QClearScheduledAt | QRebootRequired | QDelete | QGet
  | QInsertItems | QListItems | QListPending | QListKeys | QUpdateItems | QUpsertItems
  | QDeleteItems | QLockStatus | QAbortItems

text \<open>
  What a call cannot control: the clock, failing connections (\<open>q_fails\<close>), \<open>uuid.New\<close> and
  \<open>gen_random_uuid\<close>, the order the collation gives listed items, and the text PostgreSQL gives
  the time \<open>NOW()\<close> in an item.
\<close>

record env =
  now :: int
  now_text :: string
  q_fails :: "query \<Rightarrow> bool"
  fresh_id :: string
  item_ids :: "nat \<Rightarrow> string"
  order_items :: "run_item list \<Rightarrow> run_item list"

datatype db_error = ActiveRunConflict | UniqueViolation | CheckViolation | QueryFailed query

section \<open>Constraints\<close>

definition active_statuses :: "string list" where
  "active_statuses = [''queued'', ''pending_validation'', ''running'']"

definition is_active :: "patch_run \<Rightarrow> bool" where
  "is_active r \<longleftrightarrow> pr_status r \<in> set active_statuses"

text \<open>The partial unique index \<open>patch_runs_one_active_per_host\<close>.\<close>

definition one_active_per_host :: "patch_run list \<Rightarrow> bool" where
  "one_active_per_host t \<longleftrightarrow> distinct (map pr_host (filter is_active t))"

definition item_key :: "run_item \<Rightarrow> string \<times> string \<times> string" where
  "item_key i = (it_run i, it_kind i, it_identifier i)"

definition item_statuses :: "string list" where
  "item_statuses =
     [''pending'', ''would_install'', ''not_applicable'', ''installed'', ''installed_with_errors'',
      ''installed_pending_reboot'', ''already_installed'', ''failed'', ''aborted'', ''skipped'']"

definition item_checks :: "run_item \<Rightarrow> bool" where
  "item_checks i \<longleftrightarrow> it_kind i \<in> {''wua'', ''winget''} \<and> it_status i \<in> set item_statuses"

definition db_inv :: "store_db \<Rightarrow> bool" where
  "db_inv db \<longleftrightarrow>
     distinct (map pr_id (runs db)) \<and> one_active_per_host (runs db)
     \<and> distinct (map item_key (items db)) \<and> distinct (map it_id (items db))
     \<and> list_all item_checks (items db)"

section \<open>Statements\<close>

definition guarded :: "env \<Rightarrow> query \<Rightarrow> (store_db \<Rightarrow> db_error + 'a) \<Rightarrow> store_db \<Rightarrow> db_error + 'a" where
  "guarded e q f db = (if q_fails e q then Inl (QueryFailed q) else f db)"

definition update_runs ::
  "(patch_run \<Rightarrow> bool) \<Rightarrow> (patch_run \<Rightarrow> patch_run) \<Rightarrow> store_db \<Rightarrow> db_error + nat \<times> store_db" where
  "update_runs p u db =
     (let t = update_where p u (runs db)
      in if one_active_per_host t then Inr (length (filter p (runs db)), db\<lparr>runs := t\<rparr>)
         else Inl ActiveRunConflict)"

definition with_id :: "string \<Rightarrow> (string \<Rightarrow> bool) \<Rightarrow> patch_run \<Rightarrow> bool" where
  "with_id rid guard r \<longleftrightarrow> pr_id r = rid \<and> guard (pr_status r)"

abbreviation any_status :: "string \<Rightarrow> bool" where
  "any_status \<equiv> (\<lambda>_. True)"

definition insert_items :: "run_item list \<Rightarrow> store_db \<Rightarrow> db_error + store_db" where
  "insert_items new db =
     (let t = items db @ new
      in if \<not> list_all item_checks new then Inl CheckViolation
         else if distinct (map it_id t) \<and> distinct (map item_key t) then Inr (db\<lparr>items := t\<rparr>)
         else Inl UniqueViolation)"

section \<open>Queries on patch_runs\<close>

definition create_patch_run :: "env \<Rightarrow> patch_run \<Rightarrow> store_db \<Rightarrow> db_error + store_db" where
  "create_patch_run e params = guarded e QCreatePatchRun (\<lambda>db.
     let r = params\<lparr>pr_created_at := now e, pr_updated_at := now e\<rparr>; t = runs db @ [r]
     in if pr_id r \<in> set (map pr_id (runs db)) then Inl UniqueViolation
        else if one_active_per_host t then Inr (db\<lparr>runs := t\<rparr>) else Inl ActiveRunConflict)"

definition mark_validation_approved ::
  "env \<Rightarrow> string \<Rightarrow> string option \<Rightarrow> store_db \<Rightarrow> db_error + nat \<times> store_db" where
  "mark_validation_approved e rid approver = guarded e QMarkValidationApproved
     (update_runs (with_id rid (\<lambda>s. s \<in> {''validated'', ''pending_validation'', ''pending_approval''}))
        (\<lambda>r. r\<lparr>pr_status := ''approved'', pr_approved_by := approver, pr_updated_at := now e\<rparr>))"

definition update_patch_run_validated ::
  "env \<Rightarrow> string \<Rightarrow> string \<Rightarrow> string list option \<Rightarrow> string option \<Rightarrow> store_db \<Rightarrow> db_error + nat \<times> store_db" where
  "update_patch_run_validated e rid out affected err = guarded e QValidated
     (update_runs (with_id rid any_status)
        (\<lambda>r. r\<lparr>pr_status := ''validated'', pr_output := out, pr_affected := affected,
               pr_error := coalesce err (pr_error r), pr_completed_at := Some (now e),
               pr_updated_at := now e\<rparr>))"

definition update_patch_run_started :: "env \<Rightarrow> string \<Rightarrow> store_db \<Rightarrow> db_error + nat \<times> store_db" where
  "update_patch_run_started e rid = guarded e QStarted
     (update_runs (with_id rid (\<lambda>s. s \<in> {''queued'', ''pending_validation'', ''running'', ''agent_disconnected''}))
        (\<lambda>r. r\<lparr>pr_status := ''running'', pr_started_at := Some (now e), pr_completed_at := None,
               pr_output := [], pr_affected := None, pr_error := None, pr_updated_at := now e\<rparr>))"

definition update_patch_run_progress ::
  "env \<Rightarrow> string \<Rightarrow> string \<Rightarrow> store_db \<Rightarrow> db_error + nat \<times> store_db" where
  "update_patch_run_progress e rid chunk = guarded e QProgress
     (update_runs (with_id rid any_status)
        (\<lambda>r. r\<lparr>pr_output := pr_output r @ chunk, pr_updated_at := now e\<rparr>))"

text \<open>The status guard the three terminal reports share.\<close>

definition report_accepted :: "string \<Rightarrow> bool" where
  "report_accepted s \<longleftrightarrow> s \<notin> {''cancelled'', ''completed'', ''failed'', ''validated'', ''dry_run_completed''}"

definition update_patch_run_completed ::
  "env \<Rightarrow> string \<Rightarrow> string \<Rightarrow> string option \<Rightarrow> store_db \<Rightarrow> db_error + nat \<times> store_db" where
  "update_patch_run_completed e rid out err = guarded e QCompleted
     (update_runs (with_id rid report_accepted)
        (\<lambda>r. r\<lparr>pr_status := ''completed'', pr_output := out, pr_error := coalesce err (pr_error r),
               pr_completed_at := Some (now e), pr_updated_at := now e\<rparr>))"

definition update_patch_run_failed ::
  "env \<Rightarrow> string \<Rightarrow> string \<Rightarrow> string option \<Rightarrow> store_db \<Rightarrow> db_error + nat \<times> store_db" where
  "update_patch_run_failed e rid out err = guarded e QFailed
     (update_runs (with_id rid report_accepted)
        (\<lambda>r. r\<lparr>pr_status := ''failed'', pr_output := out, pr_error := err,
               pr_completed_at := Some (now e), pr_updated_at := now e\<rparr>))"

definition update_patch_run_cancelled ::
  "env \<Rightarrow> string \<Rightarrow> string \<Rightarrow> string option \<Rightarrow> store_db \<Rightarrow> db_error + nat \<times> store_db" where
  "update_patch_run_cancelled e rid out err = guarded e QCancelled
     (update_runs (with_id rid report_accepted)
        (\<lambda>r. r\<lparr>pr_status := ''cancelled'', pr_output := out, pr_error := err,
               pr_completed_at := Some (now e), pr_updated_at := now e\<rparr>))"

definition update_patch_run_cancelled_output ::
  "env \<Rightarrow> string \<Rightarrow> string \<Rightarrow> string option \<Rightarrow> store_db \<Rightarrow> db_error + nat \<times> store_db" where
  "update_patch_run_cancelled_output e rid out err = guarded e QCancelledOutput
     (update_runs (with_id rid (\<lambda>s. s = ''cancelled''))
        (\<lambda>r. r\<lparr>pr_output := out, pr_error := coalesce (pr_error r) err, pr_updated_at := now e\<rparr>))"

definition mark_cancelled_by_user ::
  "env \<Rightarrow> string \<Rightarrow> string option \<Rightarrow> store_db \<Rightarrow> db_error + nat \<times> store_db" where
  "mark_cancelled_by_user e rid err = guarded e QCancelledByUser
     (update_runs (with_id rid (\<lambda>s. s \<notin> {''cancelled'', ''timed_out'', ''completed'', ''failed'', ''validated'', ''dry_run_completed''}))
        (\<lambda>r. r\<lparr>pr_status := ''cancelled'', pr_error := err, pr_completed_at := Some (now e),
               pr_updated_at := now e\<rparr>))"

definition update_packages_affected ::
  "env \<Rightarrow> string \<Rightarrow> string list option \<Rightarrow> store_db \<Rightarrow> db_error + nat \<times> store_db" where
  "update_packages_affected e rid affected = guarded e QPackagesAffected
     (update_runs (with_id rid any_status)
        (\<lambda>r. r\<lparr>pr_affected := affected, pr_updated_at := now e\<rparr>))"

definition activate_scheduled :: "env \<Rightarrow> string \<Rightarrow> store_db \<Rightarrow> db_error + nat \<times> store_db" where
  "activate_scheduled e rid = guarded e QActivate
     (update_runs (with_id rid (\<lambda>s. s = ''scheduled''))
        (\<lambda>r. r\<lparr>pr_status := ''queued'', pr_updated_at := now e\<rparr>))"

definition skip_scheduled :: "env \<Rightarrow> string \<Rightarrow> string option \<Rightarrow> store_db \<Rightarrow> db_error + nat \<times> store_db" where
  "skip_scheduled e rid err = guarded e QSkip
     (update_runs (with_id rid (\<lambda>s. s = ''scheduled''))
        (\<lambda>r. r\<lparr>pr_status := ''cancelled'', pr_error := err, pr_completed_at := Some (now e),
               pr_updated_at := now e\<rparr>))"

definition requeue_patch_run :: "env \<Rightarrow> string \<Rightarrow> string \<Rightarrow> store_db \<Rightarrow> db_error + nat \<times> store_db" where
  "requeue_patch_run e rid status = guarded e QRequeue
     (update_runs (with_id rid (\<lambda>s. s \<in> {''queued'', ''pending_validation''}))
        (\<lambda>r. r\<lparr>pr_status := status, pr_updated_at := now e\<rparr>))"

definition mark_patch_run_dispatched :: "env \<Rightarrow> string \<Rightarrow> store_db \<Rightarrow> db_error + nat \<times> store_db" where
  "mark_patch_run_dispatched e rid = guarded e QDispatched
     (update_runs (with_id rid (\<lambda>s. s \<in> {''queued'', ''pending_validation''}))
        (\<lambda>r. r\<lparr>pr_status := ''running'', pr_updated_at := now e\<rparr>))"

definition mark_runs_agent_disconnected ::
  "env \<Rightarrow> string \<Rightarrow> string option \<Rightarrow> store_db \<Rightarrow> db_error + nat \<times> store_db" where
  "mark_runs_agent_disconnected e host err = guarded e QDisconnected
     (update_runs (\<lambda>r. pr_host r = host \<and> pr_status r = ''running'')
        (\<lambda>r. r\<lparr>pr_status := ''agent_disconnected'', pr_error := err,
               pr_completed_at := Some (now e), pr_updated_at := now e\<rparr>))"

definition stalled :: "int \<Rightarrow> patch_run \<Rightarrow> bool" where
  "stalled stale_before r \<longleftrightarrow> pr_status r = ''running'' \<and> pr_updated_at r < stale_before"

definition mark_runs_timed_out ::
  "env \<Rightarrow> string option \<Rightarrow> int \<Rightarrow> store_db \<Rightarrow> db_error + nat \<times> store_db" where
  "mark_runs_timed_out e err stale_before = guarded e QTimedOut
     (update_runs (stalled stale_before)
        (\<lambda>r. r\<lparr>pr_status := ''timed_out'', pr_error := err, pr_completed_at := Some (now e),
               pr_updated_at := now e\<rparr>))"

definition undispatched :: "int \<Rightarrow> patch_run \<Rightarrow> bool" where
  "undispatched due_before r \<longleftrightarrow>
     pr_status r \<in> {''scheduled'', ''queued'', ''pending_validation''}
     \<and> (case pr_scheduled_at r of None \<Rightarrow> pr_created_at r | Some t \<Rightarrow> t) < due_before"

definition mark_undispatched_timed_out ::
  "env \<Rightarrow> string option \<Rightarrow> int \<Rightarrow> store_db \<Rightarrow> db_error + nat \<times> store_db" where
  "mark_undispatched_timed_out e err due_before = guarded e QUndispatched
     (update_runs (undispatched due_before)
        (\<lambda>r. r\<lparr>pr_status := ''timed_out'', pr_error := err, pr_completed_at := Some (now e),
               pr_updated_at := now e\<rparr>))"

definition set_policy_snapshot ::
  "env \<Rightarrow> string \<Rightarrow> string option \<Rightarrow> string option \<Rightarrow> string option \<Rightarrow> store_db \<Rightarrow> db_error + nat \<times> store_db" where
  "set_policy_snapshot e rid policy_id policy_name snapshot = guarded e QPolicySnapshot
     (update_runs (with_id rid any_status)
        (\<lambda>r. r\<lparr>pr_policy_id := policy_id, pr_policy_name := policy_name,
               pr_policy_snapshot := snapshot, pr_updated_at := now e\<rparr>))"

definition set_scheduled_at :: "env \<Rightarrow> string \<Rightarrow> int option \<Rightarrow> store_db \<Rightarrow> db_error + nat \<times> store_db" where
  "set_scheduled_at e rid t = guarded e QScheduledAt
     (update_runs (with_id rid any_status)
        (\<lambda>r. r\<lparr>pr_scheduled_at := t, pr_updated_at := now e\<rparr>))"

definition clear_scheduled_at :: "env \<Rightarrow> string \<Rightarrow> store_db \<Rightarrow> db_error + nat \<times> store_db" where
  "clear_scheduled_at e rid = guarded e QClearScheduledAt
     (update_runs (with_id rid any_status)
        (\<lambda>r. r\<lparr>pr_scheduled_at := None, pr_updated_at := now e\<rparr>))"

definition set_reboot_required :: "env \<Rightarrow> string \<Rightarrow> bool option \<Rightarrow> store_db \<Rightarrow> db_error + nat \<times> store_db" where
  "set_reboot_required e rid required = guarded e QRebootRequired
     (update_runs (with_id rid any_status)
        (\<lambda>r. r\<lparr>pr_reboot_required := required, pr_updated_at := now e\<rparr>))"

text \<open>
  \<open>ON DELETE CASCADE\<close> removes the run's items, \<open>ON DELETE SET NULL\<close> clears the links of the runs
  that were approved from it.
\<close>

definition delete_patch_run :: "env \<Rightarrow> string \<Rightarrow> store_db \<Rightarrow> db_error + store_db" where
  "delete_patch_run e rid = guarded e QDelete (\<lambda>db.
     Inr (db\<lparr>runs := update_where (\<lambda>r. pr_validation_run r = Some rid) (\<lambda>r. r\<lparr>pr_validation_run := None\<rparr>)
                      (filter (\<lambda>r. pr_id r \<noteq> rid) (runs db)),
             items := filter (\<lambda>i. it_run i \<noteq> rid) (items db)\<rparr>))"

definition find_run :: "string \<Rightarrow> patch_run list \<Rightarrow> patch_run option" where
  "find_run rid t = find (\<lambda>r. pr_id r = rid) t"

definition get_patch_run :: "env \<Rightarrow> string \<Rightarrow> store_db \<Rightarrow> db_error + patch_run option" where
  "get_patch_run e rid = guarded e QGet (\<lambda>db. Inr (find_run rid (runs db)))"

section \<open>Queries on patch_run_items\<close>

text \<open>A target written when a run is created (\<open>NewPatchRunItem\<close>).\<close>

record new_item =
  ni_kind :: string
  ni_identifier :: string
  ni_revision :: int
  ni_title :: string
  ni_kb :: string

definition null_if_zero :: "int \<Rightarrow> int option" where
  "null_if_zero n = (if n = 0 then None else Some n)"

definition pending_item :: "string \<Rightarrow> string \<Rightarrow> string \<Rightarrow> new_item \<Rightarrow> run_item" where
  "pending_item item_id run host n =
     \<lparr>it_id = item_id, it_run = run, it_host = host, it_kind = ni_kind n,
      it_identifier = ni_identifier n, it_revision = null_if_zero (ni_revision n),
      it_title = ni_title n, it_kb = non_empty (ni_kb n), it_status = ''pending'',
      it_result_code = None, it_hresult = None, it_exit_code = None, it_reboot_required = False,
      it_download_bytes = None, it_message = None, it_started_at = None, it_completed_at = None\<rparr>"

definition insert_patch_run_items ::
  "env \<Rightarrow> string \<Rightarrow> string \<Rightarrow> new_item list \<Rightarrow> store_db \<Rightarrow> db_error + store_db" where
  "insert_patch_run_items e run host payload = guarded e QInsertItems
     (insert_items (map (\<lambda>(k, n). pending_item (item_ids e k) run host n) (enumerate 0 payload)))"

definition items_of :: "string \<Rightarrow> run_item list \<Rightarrow> run_item list" where
  "items_of run t = filter (\<lambda>i. it_run i = run) t"

definition list_patch_run_items :: "env \<Rightarrow> string \<Rightarrow> store_db \<Rightarrow> db_error + run_item list" where
  "list_patch_run_items e run = guarded e QListItems (\<lambda>db. Inr (order_items e (items_of run (items db))))"

definition list_pending_items :: "env \<Rightarrow> string \<Rightarrow> store_db \<Rightarrow> db_error + run_item list" where
  "list_pending_items e run = guarded e QListPending (\<lambda>db.
     Inr (order_items e (filter (\<lambda>i. it_status i = ''pending'') (items_of run (items db)))))"

definition list_item_keys :: "env \<Rightarrow> string \<Rightarrow> store_db \<Rightarrow> db_error + (string \<times> string) list" where
  "list_item_keys e run = guarded e QListKeys (\<lambda>db.
     Inr (map (\<lambda>i. (it_kind i, it_identifier i)) (items_of run (items db))))"

text \<open>One row of an agent's report, after normalisation (\<open>agentItemRow\<close>).\<close>

record item_row =
  ir_kind :: string
  ir_identifier :: string
  ir_revision :: int
  ir_title :: string
  ir_kb :: string
  ir_status :: string
  ir_result_code :: "int option"
  ir_hresult :: string
  ir_exit_code :: "int option"
  ir_reboot_required :: "bool option"
  ir_download_bytes :: "int option"
  ir_message :: string
  ir_started_at :: "string option"
  ir_completed_at :: "string option"

definition row_key :: "item_row \<Rightarrow> string \<times> string" where
  "row_key r = (ir_kind r, ir_identifier r)"

definition apply_row :: "item_row \<Rightarrow> run_item \<Rightarrow> run_item" where
  "apply_row r i = i\<lparr>
     it_revision := coalesce (null_if_zero (ir_revision r)) (it_revision i),
     it_kb := coalesce (non_empty (ir_kb r)) (it_kb i),
     it_status := ir_status r, it_result_code := ir_result_code r,
     it_hresult := non_empty (ir_hresult r), it_exit_code := ir_exit_code r,
     it_reboot_required := (ir_reboot_required r = Some True),
     it_download_bytes := ir_download_bytes r, it_message := non_empty (ir_message r),
     it_started_at := coalesce (ir_started_at r) (it_started_at i),
     it_completed_at := coalesce (ir_completed_at r) (it_completed_at i)\<rparr>"

definition row_for :: "string \<Rightarrow> item_row list \<Rightarrow> run_item \<Rightarrow> item_row option" where
  "row_for run payload i =
     (if it_run i = run then find (\<lambda>r. row_key r = (it_kind i, it_identifier i)) payload else None)"

definition apply_rows :: "string \<Rightarrow> item_row list \<Rightarrow> run_item list \<Rightarrow> run_item list" where
  "apply_rows run payload t =
     map (\<lambda>i. case row_for run payload i of Some r \<Rightarrow> apply_row r i | None \<Rightarrow> i) t"

definition update_items_from_agent ::
  "env \<Rightarrow> string \<Rightarrow> item_row list \<Rightarrow> store_db \<Rightarrow> db_error + nat \<times> store_db" where
  "update_items_from_agent e run payload = guarded e QUpdateItems (\<lambda>db.
     let t = apply_rows run payload (items db)
     in if list_all item_checks t
        then Inr (length (filter (\<lambda>i. row_for run payload i \<noteq> None) (items db)), db\<lparr>items := t\<rparr>)
        else Inl CheckViolation)"

definition item_of_row :: "string \<Rightarrow> string \<Rightarrow> string \<Rightarrow> item_row \<Rightarrow> run_item" where
  "item_of_row item_id run host r =
     \<lparr>it_id = item_id, it_run = run, it_host = host, it_kind = ir_kind r,
      it_identifier = ir_identifier r, it_revision = null_if_zero (ir_revision r),
      it_title = (if ir_title r = [] then ir_identifier r else ir_title r),
      it_kb = non_empty (ir_kb r), it_status = ir_status r, it_result_code = ir_result_code r,
      it_hresult = non_empty (ir_hresult r), it_exit_code = ir_exit_code r,
      it_reboot_required = (ir_reboot_required r = Some True),
      it_download_bytes = ir_download_bytes r, it_message = non_empty (ir_message r),
      it_started_at = ir_started_at r, it_completed_at = ir_completed_at r\<rparr>"

text \<open>
  \<open>INSERT ... ON CONFLICT (patch_run_id, kind, identifier) DO UPDATE\<close>: rows whose key exists update
  the item, the others are inserted.
\<close>

definition upsert_items_from_agent ::
  "env \<Rightarrow> string \<Rightarrow> string \<Rightarrow> item_row list \<Rightarrow> store_db \<Rightarrow> db_error + store_db" where
  "upsert_items_from_agent e run host payload = guarded e QUpsertItems (\<lambda>db.
     let exists = (\<lambda>r. (run, row_key r) \<in> set (map item_key (items db)));
         t = apply_rows run payload (items db);
         new = map (\<lambda>(k, r). item_of_row (item_ids e k) run host r)
                 (enumerate 0 (filter (\<lambda>r. \<not> exists r) payload))
     in if list_all item_checks t then insert_items new (db\<lparr>items := t\<rparr>) else Inl CheckViolation)"

definition delete_items :: "env \<Rightarrow> string \<Rightarrow> store_db \<Rightarrow> db_error + store_db" where
  "delete_items e run = guarded e QDeleteItems (\<lambda>db.
     Inr (db\<lparr>items := filter (\<lambda>i. it_run i \<noteq> run) (items db)\<rparr>))"

text \<open>Status and \<open>within_grace\<close> of the locked run; no row is an error of the query.\<close>

definition lock_run_status :: "env \<Rightarrow> string \<Rightarrow> int \<Rightarrow> store_db \<Rightarrow> db_error + string \<times> bool" where
  "lock_run_status e rid grace = guarded e QLockStatus (\<lambda>db.
     case find_run rid (runs db) of
       None \<Rightarrow> Inl (QueryFailed QLockStatus)
     | Some r \<Rightarrow>
         Inr (pr_status r,
              (case pr_completed_at r of None \<Rightarrow> pr_updated_at r | Some t \<Rightarrow> t) > now e - grace))"

definition abort_pending_items :: "env \<Rightarrow> string list \<Rightarrow> string \<Rightarrow> store_db \<Rightarrow> db_error + store_db" where
  "abort_pending_items e ids message = guarded e QAbortItems (\<lambda>db.
     Inr (db\<lparr>items := update_where (\<lambda>i. it_id i \<in> set ids \<and> it_status i = ''pending'')
                (\<lambda>i. i\<lparr>it_status := ''aborted'', it_message := Some message,
                       it_completed_at := Some (now_text e)\<rparr>) (items db)\<rparr>))"

section \<open>What a run statement does\<close>

lemma find_run_Some: "find_run rid t = Some r \<Longrightarrow> r \<in> set t \<and> pr_id r = rid"
  by (induction t) (auto simp: find_run_def split: if_splits)

lemma find_run_None_iff: "find_run rid t = None \<longleftrightarrow> rid \<notin> set (map pr_id t)"
  by (auto simp: find_run_def find_None_iff)

lemma find_run_update_where:
  assumes "\<And>r. pr_id (u r) = pr_id r"
  shows "find_run rid (update_where p u t) = map_option (\<lambda>r. if p r then u r else r) (find_run rid t)"
  using assms by (induction t) (auto simp: find_run_def)

lemma find_run_append:
  "find_run rid (t @ [r]) = (case find_run rid t of None \<Rightarrow> if pr_id r = rid then Some r else None | Some x \<Rightarrow> Some x)"
  by (induction t) (auto simp: find_run_def)

lemma find_run_filter_other:
  "find_run rid (filter (\<lambda>r. pr_id r \<noteq> other) t) = (if rid = other then None else find_run rid t)"
  by (induction t) (auto simp: find_run_def)

definition status_of :: "string \<Rightarrow> store_db \<Rightarrow> string option" where
  "status_of rid db = map_option pr_status (find_run rid (runs db))"

text \<open>
  The contract of a statement \<open>UPDATE patch_runs SET upd WHERE sel\<close>: it counts the rows it selects,
  changes those and no others, never a row's id or host, leaves the items alone and the unique
  index intact.
\<close>

locale run_statement =
  fixes stmt :: "store_db \<Rightarrow> db_error + nat \<times> store_db"
    and sel :: "patch_run \<Rightarrow> bool"
    and upd :: "patch_run \<Rightarrow> patch_run"
  assumes stmt_result: "stmt db = Inr (n, db') \<Longrightarrow>
      n = length (filter sel (runs db)) \<and> runs db' = update_where sel upd (runs db)
      \<and> items db' = items db \<and> one_active_per_host (runs db')"
    and upd_id: "pr_id (upd r) = pr_id r"
    and upd_host: "pr_host (upd r) = pr_host r"
begin

lemma stmt_items: "stmt db = Inr (n, db') \<Longrightarrow> items db' = items db"
  using stmt_result by blast

lemma stmt_ids: "stmt db = Inr (n, db') \<Longrightarrow> map pr_id (runs db') = map pr_id (runs db)"
  using stmt_result [of db n db'] by (simp add: map_update_where upd_id)

lemma stmt_inv: "stmt db = Inr (n, db') \<Longrightarrow> db_inv db \<Longrightarrow> db_inv db'"
  using stmt_result [of db n db'] stmt_ids [of db n db'] unfolding db_inv_def by metis

lemma stmt_find: "stmt db = Inr (n, db') \<Longrightarrow>
    find_run rid (runs db') = map_option (\<lambda>r. if sel r then upd r else r) (find_run rid (runs db))"
  using stmt_result [of db n db'] by (simp add: find_run_update_where upd_id)

lemma stmt_status: "stmt db = Inr (n, db') \<Longrightarrow>
    status_of rid db' = map_option (\<lambda>r. pr_status (if sel r then upd r else r)) (find_run rid (runs db))"
  by (simp add: status_of_def stmt_find option.map_comp comp_def)

lemma stmt_count_pos: "stmt db = Inr (n, db') \<Longrightarrow> 0 < n \<longleftrightarrow> (\<exists>r \<in> set (runs db). sel r)"
  using stmt_result [of db n db'] by (auto simp: filter_empty_conv)

lemma stmt_none:
  assumes "stmt db = Inr (0, db')"
  shows "db' = db"
proof -
  have "filter sel (runs db) = []" and "runs db' = update_where sel upd (runs db)"
    and "items db' = items db"
    using stmt_result [OF assms] by simp_all
  then show ?thesis by (cases db, cases db') simp
qed

end

lemma guarded_Inr: "guarded e q f db = Inr x \<longleftrightarrow> \<not> q_fails e q \<and> f db = Inr x"
  by (simp add: guarded_def)

lemma update_runs_Inr:
  "update_runs p u db = Inr (n, db') \<longleftrightarrow>
     one_active_per_host (update_where p u (runs db)) \<and> n = length (filter p (runs db))
     \<and> db' = db\<lparr>runs := update_where p u (runs db)\<rparr>"
  by (auto simp: update_runs_def Let_def)

lemma run_statementI:
  assumes "\<And>r. pr_id (u r) = pr_id r" and "\<And>r. pr_host (u r) = pr_host r"
  shows "run_statement (guarded e q (update_runs p u)) p u"
  by unfold_locales (auto simp: guarded_Inr update_runs_Inr assms)

interpretation st_approve: run_statement "mark_validation_approved e rid approver"
  "(with_id rid (\<lambda>s. s \<in> {''validated'', ''pending_validation'', ''pending_approval''}))"
  "(\<lambda>r. r\<lparr>pr_status := ''approved'', pr_approved_by := approver, pr_updated_at := now e\<rparr>)"
  for e rid approver
  unfolding mark_validation_approved_def by (rule run_statementI) simp_all

interpretation st_validated: run_statement "update_patch_run_validated e rid out affected err"
  "(with_id rid any_status)"
  "(\<lambda>r. r\<lparr>pr_status := ''validated'', pr_output := out, pr_affected := affected, pr_error := coalesce err (pr_error r), pr_completed_at := Some (now e), pr_updated_at := now e\<rparr>)"
  for e rid out affected err
  unfolding update_patch_run_validated_def by (rule run_statementI) simp_all

interpretation st_started: run_statement "update_patch_run_started e rid"
  "(with_id rid (\<lambda>s. s \<in> {''queued'', ''pending_validation'', ''running'', ''agent_disconnected''}))"
  "(\<lambda>r. r\<lparr>pr_status := ''running'', pr_started_at := Some (now e), pr_completed_at := None, pr_output := [], pr_affected := None, pr_error := None, pr_updated_at := now e\<rparr>)"
  for e rid
  unfolding update_patch_run_started_def by (rule run_statementI) simp_all

interpretation st_progress: run_statement "update_patch_run_progress e rid chunk"
  "(with_id rid any_status)"
  "(\<lambda>r. r\<lparr>pr_output := pr_output r @ chunk, pr_updated_at := now e\<rparr>)"
  for e rid chunk
  unfolding update_patch_run_progress_def by (rule run_statementI) simp_all

interpretation st_completed: run_statement "update_patch_run_completed e rid out err"
  "(with_id rid report_accepted)"
  "(\<lambda>r. r\<lparr>pr_status := ''completed'', pr_output := out, pr_error := coalesce err (pr_error r), pr_completed_at := Some (now e), pr_updated_at := now e\<rparr>)"
  for e rid out err
  unfolding update_patch_run_completed_def by (rule run_statementI) simp_all

interpretation st_failed: run_statement "update_patch_run_failed e rid out err"
  "(with_id rid report_accepted)"
  "(\<lambda>r. r\<lparr>pr_status := ''failed'', pr_output := out, pr_error := err, pr_completed_at := Some (now e), pr_updated_at := now e\<rparr>)"
  for e rid out err
  unfolding update_patch_run_failed_def by (rule run_statementI) simp_all

interpretation st_cancelled: run_statement "update_patch_run_cancelled e rid out err"
  "(with_id rid report_accepted)"
  "(\<lambda>r. r\<lparr>pr_status := ''cancelled'', pr_output := out, pr_error := err, pr_completed_at := Some (now e), pr_updated_at := now e\<rparr>)"
  for e rid out err
  unfolding update_patch_run_cancelled_def by (rule run_statementI) simp_all

interpretation st_cancelled_output: run_statement "update_patch_run_cancelled_output e rid out err"
  "(with_id rid (\<lambda>s. s = ''cancelled''))"
  "(\<lambda>r. r\<lparr>pr_output := out, pr_error := coalesce (pr_error r) err, pr_updated_at := now e\<rparr>)"
  for e rid out err
  unfolding update_patch_run_cancelled_output_def by (rule run_statementI) simp_all

interpretation st_user_cancel: run_statement "mark_cancelled_by_user e rid err"
  "(with_id rid (\<lambda>s. s \<notin> {''cancelled'', ''timed_out'', ''completed'', ''failed'', ''validated'', ''dry_run_completed''}))"
  "(\<lambda>r. r\<lparr>pr_status := ''cancelled'', pr_error := err, pr_completed_at := Some (now e), pr_updated_at := now e\<rparr>)"
  for e rid err
  unfolding mark_cancelled_by_user_def by (rule run_statementI) simp_all

interpretation st_affected: run_statement "update_packages_affected e rid affected"
  "(with_id rid any_status)"
  "(\<lambda>r. r\<lparr>pr_affected := affected, pr_updated_at := now e\<rparr>)"
  for e rid affected
  unfolding update_packages_affected_def by (rule run_statementI) simp_all

interpretation st_activate: run_statement "activate_scheduled e rid"
  "(with_id rid (\<lambda>s. s = ''scheduled''))"
  "(\<lambda>r. r\<lparr>pr_status := ''queued'', pr_updated_at := now e\<rparr>)"
  for e rid
  unfolding activate_scheduled_def by (rule run_statementI) simp_all

interpretation st_skip: run_statement "skip_scheduled e rid err"
  "(with_id rid (\<lambda>s. s = ''scheduled''))"
  "(\<lambda>r. r\<lparr>pr_status := ''cancelled'', pr_error := err, pr_completed_at := Some (now e), pr_updated_at := now e\<rparr>)"
  for e rid err
  unfolding skip_scheduled_def by (rule run_statementI) simp_all

interpretation st_requeue: run_statement "requeue_patch_run e rid status"
  "(with_id rid (\<lambda>s. s \<in> {''queued'', ''pending_validation''}))"
  "(\<lambda>r. r\<lparr>pr_status := status, pr_updated_at := now e\<rparr>)"
  for e rid status
  unfolding requeue_patch_run_def by (rule run_statementI) simp_all

interpretation st_dispatched: run_statement "mark_patch_run_dispatched e rid"
  "(with_id rid (\<lambda>s. s \<in> {''queued'', ''pending_validation''}))"
  "(\<lambda>r. r\<lparr>pr_status := ''running'', pr_updated_at := now e\<rparr>)"
  for e rid
  unfolding mark_patch_run_dispatched_def by (rule run_statementI) simp_all

interpretation st_disconnected: run_statement "mark_runs_agent_disconnected e host err"
  "(\<lambda>r. pr_host r = host \<and> pr_status r = ''running'')"
  "(\<lambda>r. r\<lparr>pr_status := ''agent_disconnected'', pr_error := err, pr_completed_at := Some (now e), pr_updated_at := now e\<rparr>)"
  for e host err
  unfolding mark_runs_agent_disconnected_def by (rule run_statementI) simp_all

interpretation st_timed_out: run_statement "mark_runs_timed_out e err stale_before"
  "(stalled stale_before)"
  "(\<lambda>r. r\<lparr>pr_status := ''timed_out'', pr_error := err, pr_completed_at := Some (now e), pr_updated_at := now e\<rparr>)"
  for e err stale_before
  unfolding mark_runs_timed_out_def by (rule run_statementI) simp_all

interpretation st_undispatched: run_statement "mark_undispatched_timed_out e err due_before"
  "(undispatched due_before)"
  "(\<lambda>r. r\<lparr>pr_status := ''timed_out'', pr_error := err, pr_completed_at := Some (now e), pr_updated_at := now e\<rparr>)"
  for e err due_before
  unfolding mark_undispatched_timed_out_def by (rule run_statementI) simp_all

interpretation st_policy: run_statement "set_policy_snapshot e rid policy_id policy_name snapshot"
  "(with_id rid any_status)"
  "(\<lambda>r. r\<lparr>pr_policy_id := policy_id, pr_policy_name := policy_name, pr_policy_snapshot := snapshot, pr_updated_at := now e\<rparr>)"
  for e rid policy_id policy_name snapshot
  unfolding set_policy_snapshot_def by (rule run_statementI) simp_all

interpretation st_scheduled_at: run_statement "set_scheduled_at e rid t"
  "(with_id rid any_status)"
  "(\<lambda>r. r\<lparr>pr_scheduled_at := t, pr_updated_at := now e\<rparr>)"
  for e rid t
  unfolding set_scheduled_at_def by (rule run_statementI) simp_all

interpretation st_clear_scheduled: run_statement "clear_scheduled_at e rid"
  "(with_id rid any_status)"
  "(\<lambda>r. r\<lparr>pr_scheduled_at := None, pr_updated_at := now e\<rparr>)"
  for e rid
  unfolding clear_scheduled_at_def by (rule run_statementI) simp_all

interpretation st_reboot: run_statement "set_reboot_required e rid required"
  "(with_id rid any_status)"
  "(\<lambda>r. r\<lparr>pr_reboot_required := required, pr_updated_at := now e\<rparr>)"
  for e rid required
  unfolding set_reboot_required_def by (rule run_statementI) simp_all

section \<open>The other statements keep the constraints\<close>

lemma create_patch_run_Inr:
  "create_patch_run e params db = Inr db' \<Longrightarrow>
     db' = db\<lparr>runs := runs db @ [params\<lparr>pr_created_at := now e, pr_updated_at := now e\<rparr>]\<rparr>
     \<and> pr_id params \<notin> set (map pr_id (runs db)) \<and> one_active_per_host (runs db')"
  by (auto simp: create_patch_run_def guarded_Inr Let_def split: if_splits)

lemma create_patch_run_inv: "create_patch_run e params db = Inr db' \<Longrightarrow> db_inv db \<Longrightarrow> db_inv db'"
  by (drule create_patch_run_Inr) (auto simp: db_inv_def)

lemma insert_items_Inr:
  "insert_items new db = Inr db' \<longleftrightarrow>
     list_all item_checks new \<and> distinct (map it_id (items db @ new))
     \<and> distinct (map item_key (items db @ new)) \<and> db' = db\<lparr>items := items db @ new\<rparr>"
  unfolding insert_items_def Let_def by auto

lemma insert_items_inv: "insert_items new db = Inr db' \<Longrightarrow> db_inv db \<Longrightarrow> db_inv db'"
  unfolding insert_items_Inr db_inv_def by simp

lemma insert_items_runs: "insert_items new db = Inr db' \<Longrightarrow> runs db' = runs db"
  unfolding insert_items_Inr by simp

lemma insert_patch_run_items_inv:
  "insert_patch_run_items e run host payload db = Inr db' \<Longrightarrow> db_inv db \<Longrightarrow> db_inv db'"
  by (auto simp: insert_patch_run_items_def guarded_Inr intro: insert_items_inv)

lemma insert_patch_run_items_runs:
  "insert_patch_run_items e run host payload db = Inr db' \<Longrightarrow> runs db' = runs db"
  by (auto simp: insert_patch_run_items_def guarded_Inr insert_items_runs)

lemma distinct_map_filter_row: "distinct (map f t) \<Longrightarrow> distinct (map f (filter p t))"
  by (simp add: distinct_map_filter)

lemma one_active_filter: "one_active_per_host t \<Longrightarrow> one_active_per_host (filter p t)"
proof -
  assume a: "one_active_per_host t"
  have "filter is_active (filter p t) = filter p (filter is_active t)"
    by (induction t) auto
  with a show ?thesis unfolding one_active_per_host_def by (metis distinct_map_filter)
qed

text \<open>A statement that ends what it selects cannot break the index.\<close>

lemma one_active_ending:
  assumes "one_active_per_host t" and "\<And>r. p r \<Longrightarrow> \<not> is_active (u r)"
  shows "one_active_per_host (update_where p u t)"
proof -
  have "filter is_active (update_where p u t) = filter (\<lambda>r. \<not> p r) (filter is_active t)"
    using assms(2) by (induction t) (auto simp: update_where_def)
  with assms(1) show ?thesis unfolding one_active_per_host_def by (metis distinct_map_filter)
qed

lemma active_hosts_update:
  assumes "\<And>r. pr_host (u r) = pr_host r" and "\<And>r. pr_status (u r) = pr_status r"
  shows "map pr_host (filter is_active (update_where p u t)) = map pr_host (filter is_active t)"
  using assms by (induction t) (auto simp: is_active_def)

lemma delete_patch_run_Inr:
  "delete_patch_run e rid db = Inr db' \<Longrightarrow>
     runs db' = update_where (\<lambda>r. pr_validation_run r = Some rid) (\<lambda>r. r\<lparr>pr_validation_run := None\<rparr>)
                  (filter (\<lambda>r. pr_id r \<noteq> rid) (runs db))
     \<and> items db' = filter (\<lambda>i. it_run i \<noteq> rid) (items db)"
  by (auto simp: delete_patch_run_def guarded_Inr)

lemma list_all_filter: "list_all q t \<Longrightarrow> list_all q (filter p t)"
  by (auto simp: list_all_iff)

lemma delete_patch_run_inv:
  assumes del: "delete_patch_run e rid db = Inr db'" and iv: "db_inv db"
  shows "db_inv db'"
proof -
  note db' = delete_patch_run_Inr [OF del]
  have "map pr_host (filter is_active (runs db'))
      = map pr_host (filter is_active (filter (\<lambda>r. pr_id r \<noteq> rid) (runs db)))"
    using db' by (simp add: active_hosts_update)
  then have "one_active_per_host (runs db')"
    using iv one_active_filter unfolding db_inv_def one_active_per_host_def by metis
  then show ?thesis
    using db' iv by (simp add: db_inv_def map_update_where distinct_map_filter list_all_filter)
qed

lemma delete_items_inv: "delete_items e run db = Inr db' \<Longrightarrow> db_inv db \<Longrightarrow> db_inv db'"
  by (auto simp: delete_items_def guarded_Inr db_inv_def distinct_map_filter list_all_filter)

lemma delete_items_runs: "delete_items e run db = Inr db' \<Longrightarrow> runs db' = runs db"
  by (auto simp: delete_items_def guarded_Inr)

lemma abort_pending_items_Inr:
  "abort_pending_items e ids message db = Inr db' \<Longrightarrow>
     runs db' = runs db
     \<and> items db' = update_where (\<lambda>i. it_id i \<in> set ids \<and> it_status i = ''pending'')
         (\<lambda>i. i\<lparr>it_status := ''aborted'', it_message := Some message,
                it_completed_at := Some (now_text e)\<rparr>) (items db)"
  by (auto simp: abort_pending_items_def guarded_Inr)

lemma aborted_checks: "''aborted'' \<in> set item_statuses"
  by (simp add: item_statuses_def)

lemma item_checks_aborted:
  "item_checks i \<Longrightarrow>
     item_checks (i\<lparr>it_status := ''aborted'', it_message := m, it_completed_at := t\<rparr>)"
  by (simp add: item_checks_def aborted_checks)

lemma abort_pending_items_inv:
  assumes ab: "abort_pending_items e ids message db = Inr db'" and iv: "db_inv db"
  shows "db_inv db'"
proof -
  note db' = abort_pending_items_Inr [OF ab]
  have "list_all item_checks (items db')"
    using db' iv by (auto simp: db_inv_def list_all_iff in_update_where item_checks_aborted)
  then show ?thesis
    using db' iv by (simp add: db_inv_def map_update_where item_key_def)
qed

lemma apply_row_keys [simp]:
  "it_id (apply_row r i) = it_id i" "item_key (apply_row r i) = item_key i"
  "it_run (apply_row r i) = it_run i" "it_kind (apply_row r i) = it_kind i"
  "it_identifier (apply_row r i) = it_identifier i" "it_status (apply_row r i) = ir_status r"
  by (simp_all add: apply_row_def item_key_def)

lemma apply_rows_keys [simp]:
  "map it_id (apply_rows run payload t) = map it_id t"
  "map item_key (apply_rows run payload t) = map item_key t"
  by (simp_all add: apply_rows_def split: option.split)

lemma apply_rows_inv:
  "list_all item_checks (apply_rows run payload (items db)) \<Longrightarrow> db_inv db
     \<Longrightarrow> db_inv (db\<lparr>items := apply_rows run payload (items db)\<rparr>)"
  by (simp add: db_inv_def)

lemma update_items_from_agent_inv:
  "update_items_from_agent e run payload db = Inr (n, db') \<Longrightarrow> db_inv db \<Longrightarrow> db_inv db'"
  by (auto simp: update_items_from_agent_def guarded_Inr Let_def intro: apply_rows_inv split: if_splits)

lemma update_items_from_agent_runs:
  "update_items_from_agent e run payload db = Inr (n, db') \<Longrightarrow> runs db' = runs db"
  by (auto simp: update_items_from_agent_def guarded_Inr Let_def split: if_splits)

lemma upsert_items_from_agent_inv:
  "upsert_items_from_agent e run host payload db = Inr db' \<Longrightarrow> db_inv db \<Longrightarrow> db_inv db'"
  unfolding upsert_items_from_agent_def guarded_Inr Let_def
  by (auto intro: insert_items_inv apply_rows_inv split: if_splits)

lemma upsert_items_from_agent_runs:
  "upsert_items_from_agent e run host payload db = Inr db' \<Longrightarrow> runs db' = runs db"
  by (auto simp: upsert_items_from_agent_def guarded_Inr Let_def dest: insert_items_runs split: if_splits)

section \<open>Sample values\<close>

definition sample_env :: env where
  "sample_env = \<lparr>now = 1000, now_text = ''now'', q_fails = (\<lambda>_. False), fresh_id = ''new'',
     item_ids = (\<lambda>k. CHR ''i'' # replicate k CHR ''i''), order_items = (\<lambda>t. t)\<rparr>"

definition sample_run :: "string \<Rightarrow> string \<Rightarrow> patch_run" where
  "sample_run rid status =
     \<lparr>pr_id = rid, pr_host = ''h'', pr_job = ''j'', pr_type = ''patch_all'', pr_package_name = None,
      pr_package_names = None, pr_status = status, pr_output = [], pr_error = None,
      pr_started_at = None, pr_completed_at = None, pr_scheduled_at = None, pr_triggered_by = None,
      pr_approved_by = None, pr_dry_run = False, pr_affected = None, pr_policy_id = None,
      pr_policy_name = None, pr_policy_snapshot = None, pr_validation_run = None,
      pr_created_at = 900, pr_updated_at = 900, pr_reboot_required = None, pr_win_updates = None,
      pr_win_apps = None\<rparr>"

definition sample_db :: "string \<Rightarrow> store_db" where
  "sample_db status = \<lparr>runs = [sample_run ''r'' status], items = []\<rparr>"

end
