(* ===== verification/StoreTx.thy ===== *)
theory StoreTx
  imports PatchDb
begin

text \<open>
  How the store's methods run queries: an operation maps the database state to a result and the new
  state, so that statements run outside a transaction keep their effect when a later one fails.
  \<open>in_tx\<close> is the pattern \<open>Begin; defer Rollback; ...; Commit\<close> of the store: whatever fails inside,
  the body's changes are undone; a commit that reports an error has not committed.

  The clock is read once per operation.  The lemmas say which combinators keep a state invariant
  (collection \<open>keeps\<close>).
\<close>

named_theorems keeps \<open>operations that keep an invariant of the state\<close>

datatype store_error =
    DbErr db_error
  | ErrHostHasActivePatchRun
  | ErrValidationNotApprovable
  | ErrRunNotAcceptingItems
  | ItemReportError nat string
  | SendFailed
  | Panic

text \<open>An operation on a state, with its errors.\<close>

type_synonym ('s, 'e, 'a) op = "'s \<Rightarrow> ('e + 'a) \<times> 's"

type_synonym 'a store_op = "(store_db, store_error, 'a) op"

definition ret :: "'a \<Rightarrow> ('s, 'e, 'a) op" where
  "ret x db = (Inr x, db)"

definition throw :: "'e \<Rightarrow> ('s, 'e, 'a) op" where
  "throw err db = (Inl err, db)"

definition bind_op :: "('s, 'e, 'a) op \<Rightarrow> ('a \<Rightarrow> ('s, 'e, 'b) op) \<Rightarrow> ('s, 'e, 'b) op" where
  "bind_op f g db = (case f db of (Inl err, db') \<Rightarrow> (Inl err, db') | (Inr x, db') \<Rightarrow> g x db')"

definition then_op :: "('s, 'e, 'a) op \<Rightarrow> ('s, 'e, 'b) op \<Rightarrow> ('s, 'e, 'b) op" where
  "then_op f g = bind_op f (\<lambda>_. g)"

text \<open>A statement that reports how many rows it changed, one that does not, and a read.\<close>

definition exec_rows :: "(store_db \<Rightarrow> db_error + nat \<times> store_db) \<Rightarrow> nat store_op" where
  "exec_rows q db = (case q db of Inl err \<Rightarrow> (Inl (DbErr err), db) | Inr (n, db') \<Rightarrow> (Inr n, db'))"

definition exec :: "(store_db \<Rightarrow> db_error + store_db) \<Rightarrow> unit store_op" where
  "exec q db = (case q db of Inl err \<Rightarrow> (Inl (DbErr err), db) | Inr db' \<Rightarrow> (Inr (), db'))"

definition query_op :: "(store_db \<Rightarrow> db_error + 'a) \<Rightarrow> 'a store_op" where
  "query_op q db = (case q db of Inl err \<Rightarrow> (Inl (DbErr err), db) | Inr x \<Rightarrow> (Inr x, db))"

definition in_tx :: "env \<Rightarrow> 'a store_op \<Rightarrow> 'a store_op" where
  "in_tx e body db =
     (if q_fails e QBegin then (Inl (DbErr (QueryFailed QBegin)), db)
      else case body db of
        (Inl err, _) \<Rightarrow> (Inl err, db)
      | (Inr x, db') \<Rightarrow>
          if q_fails e QCommit then (Inl (DbErr (QueryFailed QCommit)), db) else (Inr x, db'))"

section \<open>Results\<close>

lemmas op_defs = ret_def throw_def bind_op_def then_op_def exec_rows_def exec_def query_op_def

lemma ret_apply [simp]: "ret x db = (Inr x, db)"
  by (simp add: ret_def)

lemma throw_apply [simp]: "throw err db = (Inl err, db)"
  by (simp add: throw_def)

lemma bind_op_Inr:
  "bind_op f g db = (Inr y, db') \<longleftrightarrow> (\<exists>x m. f db = (Inr x, m) \<and> g x m = (Inr y, db'))"
  by (auto simp: bind_op_def split: prod.splits sum.splits)

lemma then_op_Inr:
  "then_op f g db = (Inr y, db') \<longleftrightarrow> (\<exists>x m. f db = (Inr x, m) \<and> g m = (Inr y, db'))"
  by (auto simp: then_op_def bind_op_Inr)

lemma exec_rows_Inr: "exec_rows q db = (Inr n, db') \<longleftrightarrow> q db = Inr (n, db')"
  by (auto simp: exec_rows_def split: sum.splits)

lemma exec_Inr: "exec q db = (Inr u, db') \<longleftrightarrow> q db = Inr db'"
  by (auto simp: exec_def split: sum.splits)

lemma query_op_Inr: "query_op q db = (Inr x, db') \<longleftrightarrow> q db = Inr x \<and> db' = db"
  by (auto simp: query_op_def split: sum.splits)

lemma in_tx_Inr:
  "in_tx e body db = (Inr x, db') \<longleftrightarrow>
     \<not> q_fails e QBegin \<and> \<not> q_fails e QCommit \<and> body db = (Inr x, db')"
  by (auto simp: in_tx_def split: prod.splits sum.splits)

lemmas op_Inr = bind_op_Inr then_op_Inr exec_rows_Inr exec_Inr query_op_Inr in_tx_Inr guarded_Inr

text \<open>A transaction is all or nothing.\<close>

lemma in_tx_error: "in_tx e body db = (Inl err, db') \<Longrightarrow> db' = db"
  by (auto simp: in_tx_def split: if_splits prod.splits sum.splits)

lemma in_tx_cases:
  "snd (in_tx e body db) = db \<or> (\<exists>x. body db = (Inr x, snd (in_tx e body db)))"
  by (auto simp: in_tx_def split: prod.splits sum.splits)

section \<open>Relations between the states before and after\<close>

text \<open>
  \<open>within R f\<close>: whatever \<open>f\<close> returns, the state it leaves is related to the one it found.  For a
  preorder every combinator preserves this, so an operation satisfies it when its statements do.
\<close>

definition within :: "('s \<Rightarrow> 's \<Rightarrow> bool) \<Rightarrow> ('s, 'e, 'a) op \<Rightarrow> bool" where
  "within R f \<longleftrightarrow> (\<forall>db. R db (snd (f db)))"

lemma withinD: "within R f \<Longrightarrow> f db = (r, db') \<Longrightarrow> R db db'"
  unfolding within_def by (metis snd_conv)

locale state_preorder =
  fixes R :: "'s \<Rightarrow> 's \<Rightarrow> bool"
  assumes R_refl: "R db db"
    and R_trans: "R a b \<Longrightarrow> R b c \<Longrightarrow> R a c"
begin

lemma within_ret [keeps]: "within R (ret x)"
  by (simp add: within_def R_refl)

lemma within_throw [keeps]: "within R (throw err)"
  by (simp add: within_def R_refl)

lemma within_bind [keeps]:
  assumes f: "within R f" and g: "\<And>x. within R (g x)"
  shows "within R (bind_op f g)"
  unfolding within_def
proof
  fix db
  obtain r m where fm: "f db = (r, m)" by fastforce
  have m: "R db m" by (rule withinD [OF f fm])
  show "R db (snd (bind_op f g db))"
  proof (cases r)
    case (Inl err)
    with fm m show ?thesis by (simp add: bind_op_def)
  next
    case (Inr x)
    then have "snd (bind_op f g db) = snd (g x m)" using fm by (simp add: bind_op_def)
    with m g [of x] show ?thesis unfolding within_def by (metis R_trans)
  qed
qed

lemma within_then [keeps]: "within R f \<Longrightarrow> within R g \<Longrightarrow> within R (then_op f g)"
  unfolding then_op_def by (rule within_bind)

lemma within_if [keeps]:
  "(b \<Longrightarrow> within R f) \<Longrightarrow> (\<not> b \<Longrightarrow> within R g) \<Longrightarrow> within R (if b then f else g)"
  by simp

lemma within_case_option [keeps]:
  "within R f \<Longrightarrow> (\<And>y. within R (g y)) \<Longrightarrow> within R (case x of None \<Rightarrow> f | Some y \<Rightarrow> g y)"
  by (simp split: option.split)

end

locale state_relation = state_preorder R for R :: "store_db \<Rightarrow> store_db \<Rightarrow> bool"
begin

lemma within_query [keeps]: "within R (query_op q)"
  by (auto simp: within_def query_op_def R_refl split: sum.splits)

lemma within_exec_rows: "(\<And>db n db'. q db = Inr (n, db') \<Longrightarrow> R db db') \<Longrightarrow> within R (exec_rows q)"
  by (auto simp: within_def exec_rows_def R_refl split: sum.splits)

lemma within_exec: "(\<And>db db'. q db = Inr db' \<Longrightarrow> R db db') \<Longrightarrow> within R (exec q)"
  by (auto simp: within_def exec_def R_refl split: sum.splits)

lemma within_in_tx [keeps]: "within R f \<Longrightarrow> within R (in_tx e f)"
  unfolding within_def using in_tx_cases R_refl by (metis snd_conv)

end

section \<open>Invariants\<close>

definition kept :: "('s \<Rightarrow> bool) \<Rightarrow> 's \<Rightarrow> 's \<Rightarrow> bool" where
  "kept I db db' \<longleftrightarrow> (I db \<longrightarrow> I db')"

interpretation kept_state: state_preorder "kept I" for I
  by unfold_locales (auto simp: kept_def)

interpretation kept: state_relation "kept I" for I
  by unfold_locales

lemma keeps_exec:
  "(\<And>db db'. q db = Inr db' \<Longrightarrow> I db \<Longrightarrow> I db') \<Longrightarrow> within (kept I) (exec q)"
  by (rule kept.within_exec) (simp add: kept_def)

lemma keptD: "within (kept I) f \<Longrightarrow> I db \<Longrightarrow> f db = (r, db') \<Longrightarrow> I db'"
  using withinD [of "kept I" f db r db'] by (simp add: kept_def)

context run_statement
begin

lemma stmt_keeps: "within (kept db_inv) (exec_rows stmt)"
  by (rule kept.within_exec_rows) (auto simp: kept_def intro: stmt_inv)

end

end
