(* ===== verification/TextSanitize.thy ===== *)
theory TextSanitize
  imports Prelude
begin

text \<open>
  Cleaning of agent-supplied text before it reaches PostgreSQL: \<open>sanitizeText\<close> and its pointer,
  slice and map variants (server, \<open>store/report_sanitize.go\<close>), \<open>Clean\<close> (agent,
  \<open>internal/textsan\<close>) and \<open>truncateRunes\<close> (\<open>store/patch_run_items.go\<close>).  UTF-8 is modelled
  byte-wise as Go decodes it: \<open>utf8_len\<close> is the length of the valid encoding a string starts with,
  0 for an invalid byte, which Go treats as one error rune of width 1.
\<close>

section \<open>UTF-8\<close>

definition in_range :: "nat \<Rightarrow> nat \<Rightarrow> char \<Rightarrow> bool" where
  "in_range lo hi c \<longleftrightarrow> lo \<le> (of_char c :: nat) \<and> (of_char c :: nat) \<le> hi"

definition is_cont :: "char \<Rightarrow> bool" where
  "is_cont = in_range 128 191"

text \<open>The second byte of a three- and of a four-byte encoding.\<close>

definition second_of_3 :: "char \<Rightarrow> char \<Rightarrow> bool" where
  "second_of_3 a b \<longleftrightarrow>
     (if in_range 224 224 a then in_range 160 191 b
      else if in_range 237 237 a then in_range 128 159 b else is_cont b)"

definition second_of_4 :: "char \<Rightarrow> char \<Rightarrow> bool" where
  "second_of_4 a b \<longleftrightarrow>
     (if in_range 240 240 a then in_range 144 191 b
      else if in_range 244 244 a then in_range 128 143 b else is_cont b)"

definition utf8_len :: "string \<Rightarrow> nat" where
  "utf8_len s =
     (case s of
        [] \<Rightarrow> 0
      | a # r \<Rightarrow>
          if in_range 0 127 a then 1
          else if in_range 194 223 a then
            (case r of b # _ \<Rightarrow> if is_cont b then 2 else 0 | _ \<Rightarrow> 0)
          else if in_range 224 239 a then
            (case r of b # c # _ \<Rightarrow> if second_of_3 a b \<and> is_cont c then 3 else 0 | _ \<Rightarrow> 0)
          else if in_range 240 244 a then
            (case r of b # c # d # _ \<Rightarrow> if second_of_4 a b \<and> is_cont c \<and> is_cont d then 4 else 0 | _ \<Rightarrow> 0)
          else 0)"

lemma utf8_len_le [simp]: "utf8_len s \<le> length s"
  by (simp add: utf8_len_def split: list.split)

lemma utf8_len_Nil [simp]: "utf8_len [] = 0"
  by (simp add: utf8_len_def)

lemma utf8_len_Nil_pos: "0 < utf8_len s \<Longrightarrow> s \<noteq> []"
  by auto

text \<open>A valid encoding is recognised whatever follows it.\<close>

lemma utf8_len_cases:
  assumes "0 < utf8_len s"
  obtains (one) a r where "s = a # r" "in_range 0 127 a"
  | (two) a b r where "s = a # b # r" "\<not> in_range 0 127 a" "in_range 194 223 a" "is_cont b"
  | (three) a b c r where "s = a # b # c # r" "\<not> in_range 0 127 a" "\<not> in_range 194 223 a"
      "in_range 224 239 a" "second_of_3 a b" "is_cont c"
  | (four) a b c d r where "s = a # b # c # d # r" "\<not> in_range 0 127 a" "\<not> in_range 194 223 a"
      "\<not> in_range 224 239 a" "in_range 240 244 a" "second_of_4 a b" "is_cont c" "is_cont d"
proof -
  obtain a r where s: "s = a # r" using assms by (cases s) auto
  show ?thesis
  proof (cases "in_range 0 127 a")
    case True
    then show ?thesis using s one by blast
  next
    case n1: False
    show ?thesis
    proof (cases "in_range 194 223 a")
      case True
      then show ?thesis using s n1 assms two
        by (cases r) (auto simp: utf8_len_def split: if_splits)
    next
      case n2: False
      show ?thesis
      proof (cases "in_range 224 239 a")
        case True
        then show ?thesis using s n1 n2 assms three
          by (cases r; cases "tl r") (auto simp: utf8_len_def split: if_splits)
      next
        case n3: False
        then show ?thesis using s n1 n2 assms four
          by (cases r; cases "tl r"; cases "tl (tl r)") (auto simp: utf8_len_def split: if_splits)
      qed
    qed
  qed
qed

lemma utf8_len_append:
  assumes "0 < utf8_len s"
  shows "utf8_len (take (utf8_len s) s @ t) = utf8_len s"
  using assms by (cases rule: utf8_len_cases) (simp_all add: utf8_len_def)

function valid_utf8 :: "string \<Rightarrow> bool" where
  "valid_utf8 s =
     (if s = [] then True
      else if 0 < utf8_len s then valid_utf8 (drop (utf8_len s) s)
      else False)"
  by pat_completeness auto
termination
  by (relation "measure length") (use utf8_len_Nil_pos in \<open>auto intro!: diff_less\<close>)

declare valid_utf8.simps [simp del]

definition replacement :: string where
  "replacement = [CHR 0xEF, CHR 0xBF, CHR 0xBD]"

text \<open>\<open>strings.ToValidUTF8\<close>: each run of invalid bytes becomes one replacement.\<close>

function to_valid_from :: "bool \<Rightarrow> string \<Rightarrow> string" where
  "to_valid_from iv s =
     (if s = [] then []
      else if 0 < utf8_len s then take (utf8_len s) s @ to_valid_from False (drop (utf8_len s) s)
      else (if iv then [] else replacement) @ to_valid_from True (tl s))"
  by pat_completeness auto
termination
  by (relation "measure (length \<circ> snd)") (use utf8_len_Nil_pos in \<open>auto intro!: diff_less\<close>)

declare to_valid_from.simps [simp del]

definition to_valid_utf8 :: "string \<Rightarrow> string" where
  "to_valid_utf8 s = to_valid_from False s"

text \<open>\<open>[]rune(s)\<close>, each rune as its UTF-8 encoding.\<close>

function runes_of :: "string \<Rightarrow> string list" where
  "runes_of s =
     (if s = [] then []
      else if 0 < utf8_len s then take (utf8_len s) s # runes_of (drop (utf8_len s) s)
      else replacement # runes_of (tl s))"
  by pat_completeness auto
termination
  by (relation "measure length") (use utf8_len_Nil_pos in \<open>auto intro!: diff_less\<close>)

declare runes_of.simps [simp del]

section \<open>The sanitisers\<close>

definition nul :: char where "nul = CHR 0x00"

definition sanitize_text :: "string \<Rightarrow> string" where
  "sanitize_text s =
     (if s = [] then s
      else let s1 = (if nul \<in> set s then filter (\<lambda>c. c \<noteq> nul) s else s)
           in if \<not> valid_utf8 s1 then to_valid_utf8 s1 else s1)"

definition sanitize_text_ptr :: "string option \<Rightarrow> string option" where
  "sanitize_text_ptr p = map_option sanitize_text p"

definition sanitize_text_slice :: "string list \<Rightarrow> string list" where
  "sanitize_text_slice ss = map sanitize_text ss"

definition agent_clean :: "string \<Rightarrow> string" where
  "agent_clean s =
     (if s = [] then s
      else let s1 = (if nul \<in> set s then filter (\<lambda>c. c \<noteq> nul) s else s)
           in if \<not> valid_utf8 s1 then to_valid_utf8 s1 else s1)"

definition truncate_runes :: "string \<Rightarrow> nat \<Rightarrow> string" where
  "truncate_runes s n = (if length (runes_of s) \<le> n then s else concat (take n (runes_of s)))"

section \<open>Lemmas\<close>

lemma replacement_utf8: "utf8_len (replacement @ s) = 3"
  by (simp add: replacement_def utf8_len_def in_range_def is_cont_def second_of_3_def)

lemma valid_utf8_Nil [simp]: "valid_utf8 []"
  by (simp add: valid_utf8.simps [of "[]"])

lemma valid_utf8_unit:
  assumes "0 < utf8_len u" and "utf8_len u = length u"
  shows "valid_utf8 (u @ s) \<longleftrightarrow> valid_utf8 s"
proof -
  have "utf8_len (u @ s) = utf8_len u" using utf8_len_append [OF assms(1), of s] assms(2) by simp
  with assms show ?thesis by (auto simp: valid_utf8.simps [of "u @ s"])
qed

lemma utf8_len_take: "0 < utf8_len s \<Longrightarrow> utf8_len (take (utf8_len s) s) = utf8_len s"
  using utf8_len_append [of s "[]"] by simp

lemma valid_utf8_take: "0 < utf8_len s \<Longrightarrow> valid_utf8 (take (utf8_len s) s @ t) \<longleftrightarrow> valid_utf8 t"
  by (rule valid_utf8_unit) (simp_all add: utf8_len_take)

lemma to_valid_from_valid: "valid_utf8 (to_valid_from iv s)"
proof (induction iv s rule: to_valid_from.induct)
  case (1 iv s)
  show ?case
  proof (cases "s = [] \<or> 0 < utf8_len s")
    case True
    with 1 show ?thesis
      by (auto simp: to_valid_from.simps [of iv s] valid_utf8_take)
  next
    case False
    have "valid_utf8 (replacement @ to_valid_from True (tl s)) \<longleftrightarrow> valid_utf8 (to_valid_from True (tl s))"
      by (rule valid_utf8_unit) (use replacement_utf8 [of "[]"] in \<open>simp_all add: replacement_def\<close>)
    with 1 False show ?thesis by (simp add: to_valid_from.simps [of iv s])
  qed
qed

lemma to_valid_from_id: "valid_utf8 s \<Longrightarrow> to_valid_from iv s = s"
proof (induction iv s rule: to_valid_from.induct)
  case (1 iv s)
  then show ?case
    by (cases "s = []"; cases "0 < utf8_len s")
      (auto simp: to_valid_from.simps [of iv s] to_valid_from.simps [of iv "[]"] valid_utf8.simps [of s])
qed

lemma nul_not_in_to_valid: "nul \<notin> set s \<Longrightarrow> nul \<notin> set (to_valid_from iv s)"
proof (induction iv s rule: to_valid_from.induct)
  case (1 iv s)
  have "nul \<notin> set (take n s)" and "nul \<notin> set (drop n s)" and "nul \<notin> set (tl s)" for n
    using 1(3) by (auto dest: in_set_takeD in_set_dropD) (cases s; simp)
  moreover have "nul \<notin> set replacement" by (simp add: replacement_def nul_def)
  ultimately show ?case
    using 1 by (auto simp: to_valid_from.simps [of iv s])
qed

lemma sanitize_text_alt:
  "sanitize_text s = to_valid_utf8 (filter (\<lambda>c. c \<noteq> nul) s)"
proof -
  have "nul \<notin> set s \<Longrightarrow> filter (\<lambda>c. c \<noteq> nul) s = s" by (induction s) auto
  then show ?thesis
    by (auto simp: sanitize_text_def to_valid_utf8_def to_valid_from_id Let_def)
qed

lemma concat_runes_valid: "valid_utf8 s \<Longrightarrow> concat (runes_of s) = s"
proof (induction s rule: runes_of.induct)
  case (1 s)
  then show ?case
    by (cases "s = []"; cases "0 < utf8_len s")
      (simp_all add: runes_of.simps [of s] runes_of.simps [of "[]"] valid_utf8.simps [of s])
qed

text \<open>One whole encoding.\<close>

definition unit_rune :: "string \<Rightarrow> bool" where
  "unit_rune u \<longleftrightarrow> 0 < utf8_len u \<and> utf8_len u = length u"

lemma unit_rune_append: "unit_rune u \<Longrightarrow> utf8_len (u @ s) = length u \<and> u \<noteq> []"
  using utf8_len_append [of u s] by (auto simp: unit_rune_def)

lemma runes_of_units: "u \<in> set (runes_of s) \<Longrightarrow> unit_rune u"
proof (induction s rule: runes_of.induct)
  case (1 s)
  have "unit_rune replacement"
    using replacement_utf8 [of "[]"] by (simp add: unit_rune_def replacement_def)
  moreover have "0 < utf8_len s \<Longrightarrow> unit_rune (take (utf8_len s) s)"
    by (simp add: unit_rune_def utf8_len_take)
  ultimately show ?case
    using 1 by (auto simp: runes_of.simps [of s] split: if_splits)
qed

lemma runes_of_concat: "list_all unit_rune us \<Longrightarrow> runes_of (concat us) = us"
proof (induction us)
  case (Cons u us)
  then show ?case
    using unit_rune_append [of u "concat us"] by (simp add: runes_of.simps [of "u @ concat us"])
qed (simp add: runes_of.simps [of "[]"])

lemma valid_concat: "list_all unit_rune us \<Longrightarrow> valid_utf8 (concat us)"
proof (induction us)
  case (Cons u us)
  then show ?case
    using unit_rune_append [of u "concat us"] by (simp add: valid_utf8.simps [of "u @ concat us"])
qed simp

lemma sanitize_text_valid: "valid_utf8 (sanitize_text s)"
  by (simp add: sanitize_text_alt to_valid_utf8_def to_valid_from_valid)

lemma sanitize_text_no_nul: "nul \<notin> set (sanitize_text s)"
  by (simp add: sanitize_text_alt to_valid_utf8_def nul_not_in_to_valid)

lemma sanitize_text_clean: "valid_utf8 t \<Longrightarrow> nul \<notin> set t \<Longrightarrow> sanitize_text t = t"
  by (simp add: sanitize_text_def Let_def)

section \<open>Properties\<close>

text \<open>
  What reaches the database is storable: sanitised text is valid UTF-8 without NUL, sanitising
  again changes nothing, and text that was already clean is untouched.
\<close>

lemma sanitize_text_storable:
  "valid_utf8 (sanitize_text s) \<and> nul \<notin> set (sanitize_text s)
   \<and> sanitize_text (sanitize_text s) = sanitize_text s
   \<and> (valid_utf8 s \<and> nul \<notin> set s \<longrightarrow> sanitize_text s = s)"
  using sanitize_text_valid sanitize_text_no_nul sanitize_text_clean by blast

lemma sanitize_text_storable_witness:
  "sanitize_text ''1.0'' = ''1.0''"
proof -
  have "valid_utf8 ''1.0'' \<and> nul \<notin> set ''1.0''" by code_simp
  then show ?thesis using sanitize_text_storable [of "''1.0''"] by blast
qed

text \<open>
  The agent's \<open>Clean\<close> and the server's \<open>sanitizeText\<close> are the same function, so what the agent
  cleaned before hashing is not changed again by the server.
\<close>

lemma agent_clean_agrees: "agent_clean s = sanitize_text s \<and> sanitize_text (agent_clean s) = agent_clean s"
proof -
  have "agent_clean s = sanitize_text s" by (simp add: agent_clean_def sanitize_text_def)
  moreover have "sanitize_text (sanitize_text s) = sanitize_text s"
    using sanitize_text_clean [of "sanitize_text s"] by (simp add: sanitize_text_valid sanitize_text_no_nul)
  ultimately show ?thesis by simp
qed

text \<open>
  A stored title or message never exceeds its rune limit, stays valid UTF-8, and is a prefix of
  the sanitised text.
\<close>

lemma truncate_runes_bound:
  assumes "t = truncate_runes (sanitize_text s) n"
  shows "length (runes_of t) \<le> n \<and> valid_utf8 t \<and> (\<exists>r. sanitize_text s = t @ r)"
proof -
  let ?s = "sanitize_text s"
  have v: "valid_utf8 ?s" by (rule sanitize_text_valid)
  show ?thesis
  proof (cases "length (runes_of ?s) \<le> n")
    case True
    with assms v show ?thesis by (simp add: truncate_runes_def)
  next
    case False
    let ?us = "take n (runes_of ?s)"
    have us: "list_all unit_rune ?us"
      using runes_of_units [of _ ?s] by (auto simp: list_all_iff dest: in_set_takeD)
    have t: "t = concat ?us" using assms False by (simp add: truncate_runes_def)
    have "?s = concat ?us @ concat (drop n (runes_of ?s))"
      using concat_runes_valid [OF v] by (metis append_take_drop_id concat_append)
    with t us show ?thesis by (auto simp: runes_of_concat valid_concat)
  qed
qed

lemma truncate_runes_bound_witness:
  "length (runes_of (truncate_runes (sanitize_text ''abc'') 2)) \<le> 2"
  using truncate_runes_bound [OF refl, of "''abc''" 2] by blast

end
