(* ===== verification/PatchItems.thy ===== *)
theory PatchItems
  imports StoreTx TextSanitize
begin

text \<open>
  The per-target items of Windows patch runs (\<open>internal/store/patch_run_items.go\<close>,
  \<open>internal/store/windows_patch_ids.go\<close>): the checks and clean-up of an agent's item report, the
  transaction that records it, and the operations that replace and abort items.

  \<open>time.Parse(time.RFC3339Nano, s)\<close> followed by the UTC format is the parameter \<open>rfc3339_utc\<close>
  (\<open>None\<close> when the text does not parse).  The JSON payload a statement receives is the list of its
  rows: titles and messages are valid UTF-8 without NUL here, so \<open>json.Marshal\<close> changes nothing.
\<close>

section \<open>Identifiers\<close>

definition is_alnum :: "char \<Rightarrow> bool" where
  "is_alnum c \<longleftrightarrow> is_digit c \<or> is_lower c \<or> is_upper c"

definition is_winget_char :: "char \<Rightarrow> bool" where
  "is_winget_char c \<longleftrightarrow> is_alnum c \<or> c \<in> set ''._+-''"

definition is_valid_winget_id :: "string \<Rightarrow> bool" where
  "is_valid_winget_id s \<longleftrightarrow>
     s \<noteq> [] \<and> is_alnum (hd s) \<and> list_all is_winget_char (tl s) \<and> length (tl s) \<le> 127"

definition is_valid_wua_guid :: "string \<Rightarrow> bool" where
  "is_valid_wua_guid s \<longleftrightarrow>
     map length (split_on CHR ''-'' s) = [8, 4, 4, 4, 12]
     \<and> list_all (list_all is_hex_digit) (split_on CHR ''-'' s)"

definition is_windows_os_type :: "string \<Rightarrow> bool" where
  "is_windows_os_type os = str_contains (to_lower os) ''windows''"

definition is_hresult :: "string \<Rightarrow> bool" where
  "is_hresult s \<longleftrightarrow>
     has_prefix s ''0x'' \<and> list_all is_hex_digit (drop 2 s) \<and> 1 \<le> length (drop 2 s) \<and> length (drop 2 s) \<le> 8"

section \<open>Agent reports\<close>

definition max_items_per_report :: nat where "max_items_per_report = 200"
definition max_items_per_run :: nat where "max_items_per_run = 500"
definition max_item_title_runes :: nat where "max_item_title_runes = 512"
definition max_item_message_runes :: nat where "max_item_message_runes = 4000"

definition patch_item_statuses :: "string list" where
  "patch_item_statuses =
     [''pending'', ''would_install'', ''not_applicable'', ''installed'', ''installed_with_errors'',
      ''installed_pending_reboot'', ''already_installed'', ''failed'', ''aborted'', ''skipped'']"

record agent_item =
  ai_kind :: string
  ai_id :: string
  ai_revision :: "int option"
  ai_title :: string
  ai_kb :: string
  ai_status :: string
  ai_result_code :: "int option"
  ai_hresult :: string
  ai_exit_code :: "int option"
  ai_reboot_required :: "bool option"
  ai_download_bytes :: "int option"
  ai_message :: string
  ai_started_at :: "string option"
  ai_completed_at :: "string option"

definition normalise_item_time :: "(string \<Rightarrow> string option) \<Rightarrow> string option \<Rightarrow> string option" where
  "normalise_item_time rfc3339_utc s =
     (case s of None \<Rightarrow> None | Some t \<Rightarrow> if t = [] then None else rfc3339_utc t)"

text \<open>The identifier of an item once its kind and syntax are checked, or the reason it is refused.\<close>

definition checked_id :: "agent_item \<Rightarrow> string + string" where
  "checked_id it =
     (let tid = trim_space (ai_id it)
      in if ai_kind it = ''wua'' then
           (if is_valid_wua_guid (to_lower tid) then Inr (to_lower tid) else Inl ''invalid wua id'')
         else if ai_kind it = ''winget'' then
           (if is_valid_winget_id tid then Inr tid else Inl ''invalid winget id'')
         else Inl ''invalid kind'')"

definition item_row_of :: "(string \<Rightarrow> string option) \<Rightarrow> agent_item \<Rightarrow> string \<Rightarrow> item_row" where
  "item_row_of rfc3339_utc it tid =
     \<lparr>ir_kind = ai_kind it, ir_identifier = tid,
      ir_revision = (case ai_revision it of Some n \<Rightarrow> if n > 0 then n else 0 | None \<Rightarrow> 0),
      ir_title = truncate_runes (sanitize_text (ai_title it)) max_item_title_runes,
      ir_kb = truncate_runes (sanitize_text (ai_kb it)) max_item_title_runes,
      ir_status = ai_status it, ir_result_code = ai_result_code it,
      ir_hresult = (if is_hresult (ai_hresult it) then ai_hresult it else []),
      ir_exit_code = ai_exit_code it, ir_reboot_required = ai_reboot_required it,
      ir_download_bytes =
        (case ai_download_bytes it of Some n \<Rightarrow> if n \<ge> 0 then Some n else None | None \<Rightarrow> None),
      ir_message = truncate_runes (sanitize_text (ai_message it)) max_item_message_runes,
      ir_started_at = normalise_item_time rfc3339_utc (ai_started_at it),
      ir_completed_at = normalise_item_time rfc3339_utc (ai_completed_at it)\<rparr>"

text \<open>The map key of the Go code, kind and identifier joined by a NUL byte.\<close>

definition seen_key :: "string \<Rightarrow> string \<Rightarrow> string" where
  "seen_key kind tid = kind @ nul # tid"

fun normalise_from ::
  "(string \<Rightarrow> string option) \<Rightarrow> nat \<Rightarrow> agent_item list \<Rightarrow> (string \<rightharpoonup> nat) \<Rightarrow> item_row list
     \<Rightarrow> store_error + item_row list" where
  "normalise_from tm i [] seen rows = Inr rows"
| "normalise_from tm i (it # its) seen rows =
     (case checked_id it of
        Inl reason \<Rightarrow> Inl (ItemReportError i reason)
      | Inr tid \<Rightarrow>
          if ai_status it \<notin> set patch_item_statuses then Inl (ItemReportError i ''invalid status'')
          else let row = item_row_of tm it tid; key = seen_key (ai_kind it) tid
               in case seen key of
                    Some j \<Rightarrow> normalise_from tm (Suc i) its seen (rows[j := row])
                  | None \<Rightarrow> normalise_from tm (Suc i) its (seen(key \<mapsto> length rows)) (rows @ [row]))"

definition normalise_agent_items ::
  "(string \<Rightarrow> string option) \<Rightarrow> agent_item list \<Rightarrow> store_error + item_row list" where
  "normalise_agent_items tm its =
     (if length its > max_items_per_report
      then Inl (ItemReportError max_items_per_report ''too many items in one report'')
      else normalise_from tm 0 its Map.empty [])"

section \<open>Recording a report\<close>

definition item_report_grace :: int where "item_report_grace = 15 * 60"

definition run_accepts_item_reports :: "string \<Rightarrow> bool \<Rightarrow> bool" where
  "run_accepts_item_reports status within_grace =
     (if status \<in> {''queued'', ''running'', ''pending_validation''} then True
      else if status \<in> {''cancelled'', ''timed_out'', ''agent_disconnected''} then within_grace
      else False)"

record item_report_result =
  res_updated :: int
  res_inserted :: int
  res_ignored :: int

fun split_item_rows ::
  "item_row list \<Rightarrow> string set \<Rightarrow> bool \<Rightarrow> int \<Rightarrow> item_row list \<Rightarrow> item_row list
     \<Rightarrow> item_row list \<times> item_row list" where
  "split_item_rows [] existing allow room known fresh = (known, fresh)"
| "split_item_rows (r # rs) existing allow room known fresh =
     (if seen_key (ir_kind r) (ir_identifier r) \<in> existing
      then split_item_rows rs existing allow room (known @ [r]) fresh
      else if allow \<and> int (length fresh) < room
      then split_item_rows rs existing allow room known (fresh @ [r])
      else split_item_rows rs existing allow room known fresh)"

definition record_rows ::
  "env \<Rightarrow> string \<Rightarrow> string \<Rightarrow> bool \<Rightarrow> item_row list \<Rightarrow> item_report_result store_op" where
  "record_rows e run host allow rows =
     bind_op (query_op (lock_run_status e run item_report_grace)) (\<lambda>(status, within_grace).
     if \<not> run_accepts_item_reports status within_grace then throw ErrRunNotAcceptingItems
     else bind_op (query_op (list_item_keys e run)) (\<lambda>keys.
     let existing = set (map (\<lambda>(k, i). seen_key k i) keys);
         (known, fresh) = split_item_rows rows existing allow
                            (int max_items_per_run - int (length keys)) [] []
     in bind_op (if known = [] then ret 0 else exec_rows (update_items_from_agent e run known)) (\<lambda>n.
        then_op (if fresh = [] then ret () else exec (upsert_items_from_agent e run host fresh))
          (ret \<lparr>res_updated = int n, res_inserted = int (length fresh),
                res_ignored = int (length rows) - int (length known) - int (length fresh)\<rparr>))))"

definition record_agent_items ::
  "env \<Rightarrow> (string \<Rightarrow> string option) \<Rightarrow> string \<Rightarrow> string \<Rightarrow> bool \<Rightarrow> agent_item list
     \<Rightarrow> item_report_result store_op" where
  "record_agent_items e tm run host allow its =
     (case normalise_agent_items tm its of
        Inl err \<Rightarrow> throw err
      | Inr rows \<Rightarrow>
          if rows = [] then ret \<lparr>res_updated = 0, res_inserted = 0, res_ignored = 0\<rparr>
          else in_tx e (record_rows e run host allow rows))"

section \<open>The other item operations\<close>

definition insert_run_items :: "env \<Rightarrow> string \<Rightarrow> string \<Rightarrow> new_item list \<Rightarrow> unit store_op" where
  "insert_run_items e run host its =
     (if its = [] then ret () else exec (insert_patch_run_items e run host its))"

definition list_items :: "env \<Rightarrow> string \<Rightarrow> run_item list store_op" where
  "list_items e run = query_op (list_patch_run_items e run)"

definition list_pending :: "env \<Rightarrow> string \<Rightarrow> run_item list store_op" where
  "list_pending e run = query_op (list_pending_items e run)"

definition replace_items :: "env \<Rightarrow> string \<Rightarrow> string \<Rightarrow> new_item list \<Rightarrow> unit store_op" where
  "replace_items e run host its =
     in_tx e (then_op (exec (delete_items e run)) (insert_run_items e run host its))"

definition abort_items :: "env \<Rightarrow> string list \<Rightarrow> string \<Rightarrow> unit store_op" where
  "abort_items e ids message =
     (if ids = [] then ret () else exec (abort_pending_items e ids message))"

definition fail_run :: "env \<Rightarrow> string \<Rightarrow> string \<Rightarrow> unit store_op" where
  "fail_run e rid message =
     then_op (exec_rows (update_patch_run_failed e rid [] (Some message))) (ret ())"

definition set_run_reboot_required :: "env \<Rightarrow> string \<Rightarrow> bool \<Rightarrow> unit store_op" where
  "set_run_reboot_required e rid required =
     then_op (exec_rows (set_reboot_required e rid (Some required))) (ret ())"

definition windows_packages_affected :: "string \<Rightarrow> run_item list \<Rightarrow> string list" where
  "windows_packages_affected stage its =
     map it_title (filter (\<lambda>i.
       if stage = ''dry_run_completed'' then it_status i = ''would_install''
       else if stage \<in> {''completed'', ''failed'', ''cancelled''}
       then it_status i \<in> {''installed'', ''installed_with_errors''}
       else False) its)"

definition items_need_reboot :: "run_item list \<Rightarrow> bool" where
  "items_need_reboot its \<longleftrightarrow>
     list_ex (\<lambda>i. it_reboot_required i \<or> it_status i = ''installed_pending_reboot'') its"

definition run_items_need_reboot :: "env \<Rightarrow> string \<Rightarrow> bool store_op" where
  "run_items_need_reboot e run = bind_op (list_items e run) (\<lambda>its. ret (items_need_reboot its))"

text \<open>The targets an approved run takes over from its validation run (\<open>itemsForApproval\<close>).\<close>

definition new_item_of :: "run_item \<Rightarrow> new_item" where
  "new_item_of i =
     \<lparr>ni_kind = it_kind i, ni_identifier = it_identifier i,
      ni_revision = (case it_revision i of Some n \<Rightarrow> n | None \<Rightarrow> 0),
      ni_title = it_title i, ni_kb = (case it_kb i of Some k \<Rightarrow> k | None \<Rightarrow> [])\<rparr>"

definition items_for_approval :: "string \<Rightarrow> run_item list \<Rightarrow> new_item list" where
  "items_for_approval validation_status its =
     map new_item_of (filter (\<lambda>i.
       it_status i = ''would_install''
       \<or> (validation_status \<noteq> ''validated'' \<and> it_status i = ''pending'')) its)"

section \<open>Normalisation: one row per target, the last report wins\<close>

lemma split_on_char: "p \<in> set (split_on c s) \<Longrightarrow> c \<notin> set p"
proof (induction s arbitrary: p)
  case (Cons d ds)
  then show ?case by (cases "split_on c ds") (auto split: if_splits)
qed simp

lemma seen_key_inj:
  assumes "nul \<notin> set k" and "nul \<notin> set k'"
  shows "seen_key k i = seen_key k' i' \<longleftrightarrow> k = k' \<and> i = i'"
proof
  assume eq: "seen_key k i = seen_key k' i'"
  have cut: "takeWhile (\<lambda>c. c \<noteq> nul) (seen_key q j) = q" if "nul \<notin> set q" for q j
    using that unfolding seen_key_def by (subst takeWhile_append2) auto
  from eq assms have "k = k'" by (metis cut)
  with eq show "k = k' \<and> i = i'" by (simp add: seen_key_def)
qed simp

definition item_kind :: "string \<Rightarrow> bool" where
  "item_kind k \<longleftrightarrow> k = ''wua'' \<or> k = ''winget''"

lemma item_kind_no_nul: "item_kind k \<Longrightarrow> nul \<notin> set k"
  by (auto simp: item_kind_def nul_def)

lemma checked_id_kind: "checked_id it = Inr tid \<Longrightarrow> item_kind (ai_kind it)"
  by (auto simp: checked_id_def Let_def item_kind_def split: if_splits)

lemma item_row_of_simps [simp]:
  "ir_kind (item_row_of tm it tid) = ai_kind it"
  "ir_identifier (item_row_of tm it tid) = tid"
  "ir_status (item_row_of tm it tid) = ai_status it"
  by (simp_all add: item_row_of_def)

text \<open>The row an accepted item gives, and the table of rows by target.\<close>

definition row_of_item :: "(string \<Rightarrow> string option) \<Rightarrow> agent_item \<Rightarrow> item_row" where
  "row_of_item tm it = item_row_of tm it (projr (checked_id it))"

definition rows_table :: "item_row list \<Rightarrow> (string \<times> string) \<rightharpoonup> item_row" where
  "rows_table rows = map_of (map (\<lambda>r. (row_key r, r)) rows)"

definition row_ok :: "item_row \<Rightarrow> bool" where
  "row_ok r \<longleftrightarrow> item_kind (ir_kind r) \<and> ir_status r \<in> set patch_item_statuses"

lemma row_ok_key: "row_ok r \<Longrightarrow> row_ok r' \<Longrightarrow>
    seen_key (ir_kind r) (ir_identifier r) = seen_key (ir_kind r') (ir_identifier r') \<longleftrightarrow> row_key r = row_key r'"
  by (simp add: row_ok_def row_key_def seen_key_inj item_kind_no_nul)

text \<open>What \<open>seen\<close> knows about the rows collected so far.\<close>

definition seen_ok :: "(string \<rightharpoonup> nat) \<Rightarrow> item_row list \<Rightarrow> bool" where
  "seen_ok seen rows \<longleftrightarrow>
     list_all row_ok rows
     \<and> (\<forall>k j. seen k = Some j \<longleftrightarrow> j < length rows \<and> seen_key (ir_kind (rows ! j)) (ir_identifier (rows ! j)) = k)"

lemma seen_ok_empty: "seen_ok Map.empty []"
  by (simp add: seen_ok_def)

lemma seen_ok_at:
  "seen_ok seen rows \<Longrightarrow> j < length rows
     \<Longrightarrow> seen (seen_key (ir_kind (rows ! j)) (ir_identifier (rows ! j))) = Some j"
  by (simp add: seen_ok_def)

lemma seen_ok_distinct:
  assumes ok: "seen_ok seen rows"
  shows "distinct (map row_key rows)"
  unfolding distinct_conv_nth
proof (intro allI impI)
  fix i j
  assume ij: "i < length (map row_key rows)" "j < length (map row_key rows)" "i \<noteq> j"
  show "map row_key rows ! i \<noteq> map row_key rows ! j"
  proof
    assume "map row_key rows ! i = map row_key rows ! j"
    then have "seen_key (ir_kind (rows ! i)) (ir_identifier (rows ! i))
        = seen_key (ir_kind (rows ! j)) (ir_identifier (rows ! j))"
      using ij by (simp add: row_key_def)
    then have "Some i = Some j" using seen_ok_at [OF ok, of i] seen_ok_at [OF ok, of j] ij by simp
    with ij(3) show False by simp
  qed
qed

lemma seen_ok_step:
  assumes ok: "seen_ok seen rows" and row: "row_ok row"
    and key: "key = seen_key (ir_kind row) (ir_identifier row)"
  shows "seen key = Some j \<Longrightarrow> seen_ok seen (rows[j := row])"
    and "seen key = None \<Longrightarrow> seen_ok (seen(key \<mapsto> length rows)) (rows @ [row])"
proof -
  assume "seen key = Some j"
  then show "seen_ok seen (rows[j := row])"
    using ok row key unfolding seen_ok_def by (auto simp: list_all_length nth_list_update)
next
  assume none: "seen key = None"
  then have "seen_key (ir_kind (rows ! j)) (ir_identifier (rows ! j)) \<noteq> key" if "j < length rows" for j
    using seen_ok_at [OF ok that] by auto
  with none show "seen_ok (seen(key \<mapsto> length rows)) (rows @ [row])"
    using ok row key unfolding seen_ok_def by (auto simp: nth_append less_Suc_eq)
qed

lemma rows_table_Cons: "rows_table (r # rows) = (rows_table rows)(row_key r \<mapsto> r)"
  by (simp add: rows_table_def)

lemma rows_table_update:
  assumes "distinct (map row_key rows)" and "j < length rows" and "row_key (rows ! j) = row_key row"
  shows "rows_table (rows[j := row]) = (rows_table rows)(row_key row \<mapsto> row)"
  using assms
proof (induction rows arbitrary: j)
  case (Cons r rows)
  show ?case
  proof (cases j)
    case 0
    with Cons.prems show ?thesis by (auto simp: rows_table_Cons fun_eq_iff)
  next
    case (Suc m)
    then have "row_key row \<in> set (map row_key rows)"
      using Cons.prems by (metis Suc_less_eq length_Cons length_map nth_Cons_Suc nth_map nth_mem)
    then have "row_key r \<noteq> row_key row" using Cons.prems(1) by auto
    with Suc show ?thesis
      using Cons.IH [of m] Cons.prems
      by (simp add: rows_table_Cons del: fun_upd_apply) (simp add: fun_upd_twist del: fun_upd_apply)
  qed
qed simp

lemma rows_table_snoc:
  "row_key row \<notin> set (map row_key rows) \<Longrightarrow> rows_table (rows @ [row]) = (rows_table rows)(row_key row \<mapsto> row)"
proof (induction rows)
  case Nil
  then show ?case by (simp add: rows_table_def)
next
  case (Cons r rows)
  then show ?case
    by (simp add: rows_table_Cons del: fun_upd_apply) (simp add: fun_upd_twist del: fun_upd_apply)
qed

text \<open>The abstract specification: a table updated once per item, in the order of the report.\<close>

lemma normalise_from_spec:
  assumes "normalise_from tm i its seen rows = Inr out" and "seen_ok seen rows"
  shows "list_all row_ok out \<and> distinct (map row_key out)
    \<and> rows_table out = fold (\<lambda>it t. t(row_key (row_of_item tm it) \<mapsto> row_of_item tm it)) its (rows_table rows)
    \<and> (\<forall>it \<in> set its. checked_id it \<noteq> Inl (projl (checked_id it)))"
  using assms
proof (induction tm i its seen rows rule: normalise_from.induct)
  case (1 tm i seen rows)
  then show ?case using seen_ok_distinct by (auto simp: seen_ok_def)
next
  case (2 tm i it its seen rows)
  obtain tid where tid: "checked_id it = Inr tid"
    using 2 by (cases "checked_id it") auto
  have st: "ai_status it \<in> set patch_item_statuses" using 2 tid by (auto split: if_splits)
  let ?row = "item_row_of tm it tid" and ?key = "seen_key (ai_kind it) tid"
  have row: "row_ok ?row" using st checked_id_kind [OF tid] by (simp add: row_ok_def)
  have rof: "row_of_item tm it = ?row" by (simp add: row_of_item_def tid)
  have dist: "distinct (map row_key rows)" by (rule seen_ok_distinct [OF 2(4)])
  show ?case
  proof (cases "seen ?key")
    case None
    have ok: "seen_ok (seen(?key \<mapsto> length rows)) (rows @ [?row])"
      using seen_ok_step(2) [OF 2(4) row _ None] by simp
    have "row_key ?row \<notin> set (map row_key rows)"
      using seen_ok_distinct [OF ok] by simp
    then show ?thesis
      using 2(1) [OF tid _ refl refl None] 2(3) ok st tid None
      by (simp add: rof rows_table_snoc del: fun_upd_apply)
  next
    case (Some j)
    have ok: "seen_ok seen (rows[j := ?row])"
      using seen_ok_step(1) [OF 2(4) row _ Some] by simp
    have j: "j < length rows" "seen_key (ir_kind (rows ! j)) (ir_identifier (rows ! j)) = ?key"
      using 2(4) Some by (auto simp: seen_ok_def)
    have "row_ok (rows ! j)" using 2(4) j(1) by (simp add: seen_ok_def list_all_length)
    then have "row_key (rows ! j) = row_key ?row" using row_ok_key [OF _ row] j(2) by simp
    then show ?thesis
      using 2(2) [OF tid _ refl refl Some] 2(3) ok st tid Some j(1) dist
      by (simp add: rof rows_table_update del: fun_upd_apply)
  qed
qed

lemma fold_map_upd_rev:
  "fold (\<lambda>x t. t(f x \<mapsto> g x)) xs t = t ++ map_of (rev (map (\<lambda>x. (f x, g x)) xs))"
  by (induction xs arbitrary: t) (auto simp: map_add_def fun_eq_iff split: option.split)

lemma normalise_agent_items_spec:
  assumes "normalise_agent_items tm its = Inr rows"
  shows "list_all row_ok rows" and "distinct (map row_key rows)"
    and "rows_table rows = map_of (rev (map (\<lambda>it. (row_key (row_of_item tm it), row_of_item tm it)) its))"
    and "length its \<le> max_items_per_report"
  using assms normalise_from_spec [OF _ seen_ok_empty, of tm 0 its rows]
  by (auto simp: normalise_agent_items_def fold_map_upd_rev rows_table_def simp del: fun_upd_apply
      split: if_splits)

lemma rows_table_dom: "dom (rows_table rows) = set (map row_key rows)"
  by (auto simp: rows_table_def dom_map_of_conv_image_fst image_image)

section \<open>What a recorded report does\<close>

lemma split_item_rows_eq:
  "split_item_rows rows existing allow room known fresh =
     (let old = (\<lambda>r. seen_key (ir_kind r) (ir_identifier r) \<in> existing)
      in (known @ filter old rows,
          fresh @ take (if allow then nat (room - int (length fresh)) else 0) (filter (Not \<circ> old) rows)))"
proof (induction rows existing allow room known fresh rule: split_item_rows.induct)
  case (2 r rs existing allow room known fresh)
  show ?case
  proof (cases "seen_key (ir_kind r) (ir_identifier r) \<in> existing")
    case True
    with 2(1) show ?thesis by (simp add: Let_def)
  next
    case new: False
    show ?thesis
    proof (cases "allow \<and> int (length fresh) < room")
      case True
      then obtain m where "nat (room - int (length fresh)) = Suc m"
        and "nat (room - int (Suc (length fresh))) = m"
        by (metis Suc_nat_eq_nat_zadd1 diff_ge_0_iff_ge diff_add_cancel diff_diff_eq
            int_ops(4) of_nat_Suc zless_imp_add1_zle add.commute)
      with True new 2(2) show ?thesis by (simp add: Let_def)
    next
      case False
      then have "(if allow then nat (room - int (length fresh)) else 0) = 0" by auto
      with False new 2(3) show ?thesis by (auto simp: Let_def)
    qed
  qed
qed (simp add: Let_def)

text \<open>The keys a run's items have, as the Go code compares them and as pairs.\<close>

definition run_keys :: "string \<Rightarrow> run_item list \<Rightarrow> (string \<times> string) list" where
  "run_keys run t = map (\<lambda>i. (it_kind i, it_identifier i)) (items_of run t)"

lemma item_checks_kind: "item_checks i \<Longrightarrow> item_kind (it_kind i)"
  by (auto simp: item_checks_def item_kind_def)

lemma run_keys_seen:
  assumes iv: "db_inv db" and r: "row_ok r"
  shows "seen_key (ir_kind r) (ir_identifier r) \<in> set (map (\<lambda>(k, i). seen_key k i) (run_keys run (items db)))
    \<longleftrightarrow> row_key r \<in> set (run_keys run (items db))"
proof -
  have k: "item_kind (it_kind i)" if "i \<in> set (items db)" for i
    using iv that by (auto simp: db_inv_def list_all_iff intro: item_checks_kind)
  have "seen_key (ir_kind r) (ir_identifier r) = seen_key (it_kind i) (it_identifier i)
      \<longleftrightarrow> row_key r = (it_kind i, it_identifier i)" if "i \<in> set (items db)" for i
    using r k [OF that] by (simp add: seen_key_inj item_kind_no_nul row_ok_def row_key_def)
  then show ?thesis by (auto simp: run_keys_def items_of_def)
qed

lemma run_keys_distinct: "db_inv db \<Longrightarrow> distinct (run_keys run (items db))"
proof -
  assume "db_inv db"
  then have "distinct (map item_key (filter (\<lambda>i. it_run i = run) (items db)))"
    by (simp add: db_inv_def distinct_map_filter)
  then show ?thesis
    by (auto simp: run_keys_def items_of_def distinct_map item_key_def inj_on_def)
qed

lemma row_for_iff: "row_for run rows i \<noteq> None \<longleftrightarrow> it_run i = run \<and> (it_kind i, it_identifier i) \<in> set (map row_key rows)"
  by (simp add: row_for_def find_None_iff del: not_None_eq) (force simp: image_iff)

lemma set_map_filter_in: "set (map f (filter (\<lambda>x. f x \<in> S) xs)) = S \<inter> set (map f xs)"
  by auto

text \<open>Rows that name existing targets update exactly that many items.\<close>

lemma updated_count:
  assumes iv: "db_inv db" and d: "distinct (map row_key known)"
    and ex: "set (map row_key known) \<subseteq> set (run_keys run (items db))"
  shows "length (filter (\<lambda>i. row_for run known i \<noteq> None) (items db)) = length known"
proof -
  let ?key = "\<lambda>i. (it_kind i, it_identifier i)"
  let ?F = "filter (\<lambda>i. row_for run known i \<noteq> None) (items db)"
  have F: "?F = filter (\<lambda>i. ?key i \<in> set (map row_key known)) (items_of run (items db))"
    by (simp only: row_for_iff items_of_def filter_filter)
  have c1: "distinct (map ?key ?F)"
    using run_keys_distinct [OF iv, of run] unfolding F run_keys_def by (rule distinct_map_filter)
  have c2: "set (map ?key ?F) = set (map row_key known)"
    using ex unfolding F run_keys_def set_map_filter_in by (rule Int_absorb2)
  show ?thesis
    using distinct_card [OF c1] distinct_card [OF d] c2 by simp
qed

lemma filter_not_existing:
  "row_key ` set fresh \<inter> set (run_keys run t) = {} \<Longrightarrow>
     filter (\<lambda>r. (run, row_key r) \<notin> set (map item_key t)) fresh = fresh"
  by (rule filter_True) (auto simp: run_keys_def items_of_def item_key_def row_key_def)

lemma run_keys_apply_rows [simp]: "run_keys run (apply_rows run' rows t) = run_keys run t"
  by (induction t) (auto simp: run_keys_def items_of_def apply_rows_def split: option.split)

lemma run_keys_append [simp]: "run_keys run (s @ t) = run_keys run s @ run_keys run t"
  by (simp add: run_keys_def items_of_def)

lemma run_keys_new:
  "run_keys run (map (\<lambda>(k, r). item_of_row (ids k) run host r) (enumerate n rows)) = map row_key rows"
  by (induction rows arbitrary: n) (auto simp: run_keys_def items_of_def item_of_row_def row_key_def)

lemma upsert_run_keys:
  assumes "upsert_items_from_agent e run host fresh db = Inr db'"
    and "row_key ` set fresh \<inter> set (run_keys run (items db)) = {}"
  shows "run_keys run (items db') = run_keys run (items db) @ map row_key fresh"
  using assms filter_not_existing [OF assms(2)]
  by (auto simp: upsert_items_from_agent_def guarded_Inr Let_def insert_items_Inr run_keys_new
      split: if_splits)

lemma update_run_keys:
  "update_items_from_agent e run known db = Inr (n, db') \<Longrightarrow>
     n = length (filter (\<lambda>i. row_for run known i \<noteq> None) (items db))
     \<and> items db' = apply_rows run known (items db) \<and> runs db' = runs db"
  by (auto simp: update_items_from_agent_def guarded_Inr Let_def split: if_splits)

lemma apply_rows_Nil [simp]: "apply_rows run [] t = t"
  by (simp add: apply_rows_def row_for_def map_idI)

text \<open>The rows of a report that name a target of the run, and the new ones it has room for.\<close>

definition known_rows :: "string \<Rightarrow> store_db \<Rightarrow> item_row list \<Rightarrow> item_row list" where
  "known_rows run db rows = filter (\<lambda>r. row_key r \<in> set (run_keys run (items db))) rows"

definition fresh_rows :: "string \<Rightarrow> store_db \<Rightarrow> bool \<Rightarrow> item_row list \<Rightarrow> item_row list" where
  "fresh_rows run db allow rows =
     take (if allow then max_items_per_run - length (run_keys run (items db)) else 0)
       (filter (\<lambda>r. row_key r \<notin> set (run_keys run (items db))) rows)"

lemma split_rows_db:
  assumes "db_inv db" and "list_all row_ok rows"
  shows "split_item_rows rows (set (map (\<lambda>(k, i). seen_key k i) (run_keys run (items db)))) allow
           (int max_items_per_run - int (length (run_keys run (items db)))) [] []
         = (known_rows run db rows, fresh_rows run db allow rows)"
proof -
  have "filter (\<lambda>r. seen_key (ir_kind r) (ir_identifier r)
            \<in> set (map (\<lambda>(k, i). seen_key k i) (run_keys run (items db)))) rows = known_rows run db rows"
    unfolding known_rows_def
    by (rule filter_cong [OF refl], rule run_keys_seen [OF assms(1)])
      (use assms(2) in \<open>auto simp: list_all_iff\<close>)
  moreover have "filter (Not \<circ> (\<lambda>r. seen_key (ir_kind r) (ir_identifier r)
            \<in> set (map (\<lambda>(k, i). seen_key k i) (run_keys run (items db))))) rows
      = filter (\<lambda>r. row_key r \<notin> set (run_keys run (items db))) rows"
    unfolding comp_def
    by (rule filter_cong [OF refl], subst run_keys_seen [OF assms(1)])
      (use assms(2) in \<open>auto simp: list_all_iff\<close>)
  moreover have "nat (int max_items_per_run - int n) = max_items_per_run - n" for n by simp
  ultimately show ?thesis
    unfolding split_item_rows_eq Let_def fresh_rows_def by simp
qed

lemma fresh_rows_new: "row_key ` set (fresh_rows run db allow rows) \<inter> set (run_keys run (items db)) = {}"
  by (auto simp: fresh_rows_def dest: in_set_takeD)

lemma record_rows_Inr:
  assumes rec: "record_rows e run host allow rows db = (Inr res, db')"
    and iv: "db_inv db" and ok: "list_all row_ok rows" and d: "distinct (map row_key rows)"
  obtains status grace db1 where
    "lock_run_status e run item_report_grace db = Inr (status, grace)"
    "run_accepts_item_reports status grace"
    "items db1 = apply_rows run (known_rows run db rows) (items db)" "runs db1 = runs db" "db_inv db1"
    "if fresh_rows run db allow rows = [] then db' = db1
     else upsert_items_from_agent e run host (fresh_rows run db allow rows) db1 = Inr db'"
    "res = \<lparr>res_updated = int (length (known_rows run db rows)),
            res_inserted = int (length (fresh_rows run db allow rows)),
            res_ignored = int (length rows) - int (length (known_rows run db rows))
                          - int (length (fresh_rows run db allow rows))\<rparr>"
proof -
  let ?known = "known_rows run db rows" and ?fresh = "fresh_rows run db allow rows"
  obtain status grace where lock: "lock_run_status e run item_report_grace db = Inr (status, grace)"
    and acc: "run_accepts_item_reports status grace"
    and step: "bind_op (if ?known = [] then ret 0 else exec_rows (update_items_from_agent e run ?known)) (\<lambda>n.
        then_op (if ?fresh = [] then ret () else exec (upsert_items_from_agent e run host ?fresh))
          (ret \<lparr>res_updated = int n, res_inserted = int (length ?fresh),
                res_ignored = int (length rows) - int (length ?known) - int (length ?fresh)\<rparr>)) db
        = (Inr res, db')"
    using rec split_rows_db [OF iv ok, of run allow] unfolding record_rows_def
    by (auto simp: bind_op_Inr query_op_Inr list_item_keys_def guarded_Inr Let_def
        run_keys_def [symmetric] simp del: set_map split: if_splits)
  obtain n db1 where n: "(if ?known = [] then ret 0 else exec_rows (update_items_from_agent e run ?known)) db
        = (Inr n, db1)"
    and fin: "(if ?fresh = [] then ret () else exec (upsert_items_from_agent e run host ?fresh)) db1 = (Inr (), db')"
    and res: "res = \<lparr>res_updated = int n, res_inserted = int (length ?fresh),
                res_ignored = int (length rows) - int (length ?known) - int (length ?fresh)\<rparr>"
    using step by (auto simp: bind_op_Inr then_op_Inr)
  have kd: "distinct (map row_key ?known)"
    unfolding known_rows_def using d by (rule distinct_map_filter)
  have cnt: "length (filter (\<lambda>i. row_for run ?known i \<noteq> None) (items db)) = length ?known"
    by (rule updated_count [OF iv kd]) (auto simp: known_rows_def)
  have "n = length ?known \<and> items db1 = apply_rows run ?known (items db) \<and> runs db1 = runs db \<and> db_inv db1"
    using n iv cnt by (cases "?known = []")
      (auto simp: exec_rows_Inr dest: update_run_keys update_items_from_agent_inv)
  with lock acc fin res show thesis
    by (intro that [of status grace db1]) (auto simp: exec_Inr split: if_splits)
qed

lemma record_rows_keys:
  assumes rec: "record_rows e run host allow rows db = (Inr res, db')"
    and iv: "db_inv db" and ok: "list_all row_ok rows" and d: "distinct (map row_key rows)"
  shows "run_keys run (items db') = run_keys run (items db) @ map row_key (fresh_rows run db allow rows)"
proof (rule record_rows_Inr [OF assms])
  fix db1
  assume i1: "items db1 = apply_rows run (known_rows run db rows) (items db)"
    and u: "if fresh_rows run db allow rows = [] then db' = db1
     else upsert_items_from_agent e run host (fresh_rows run db allow rows) db1 = Inr db'"
  have k1: "run_keys run (items db1) = run_keys run (items db)" by (simp add: i1)
  show ?thesis
    using u k1 upsert_run_keys [of e run host "fresh_rows run db allow rows" db1 db'] fresh_rows_new
    by (simp split: if_splits)
qed

lemma record_agent_items_Inr:
  assumes "record_agent_items e tm run host allow its db = (Inr res, db')"
  obtains rows where "normalise_agent_items tm its = Inr rows"
    and "if rows = [] then db' = db \<and> res = \<lparr>res_updated = 0, res_inserted = 0, res_ignored = 0\<rparr>
         else record_rows e run host allow rows db = (Inr res, db')"
  using assms unfolding record_agent_items_def
  by (auto simp: in_tx_Inr split: sum.splits if_splits)

lemma record_agent_items_error: "record_agent_items e tm run host allow its db = (Inl err, db') \<Longrightarrow> db' = db"
  by (auto simp: record_agent_items_def split: sum.splits if_splits dest: in_tx_error)

lemma record_rows_inv:
  assumes rec: "record_rows e run host allow rows db = (Inr res, db')"
    and iv: "db_inv db" and ok: "list_all row_ok rows" and d: "distinct (map row_key rows)"
  shows "db_inv db'"
  by (rule record_rows_Inr [OF assms]) (auto dest: upsert_items_from_agent_inv split: if_splits)

lemma record_agent_items_inv:
  assumes "record_agent_items e tm run host allow its db = (r, db')" and iv: "db_inv db"
  shows "db_inv db'"
proof (cases r)
  case (Inl err)
  with assms record_agent_items_error show ?thesis by blast
next
  case (Inr res)
  with assms(1) have "record_agent_items e tm run host allow its db = (Inr res, db')" by simp
  then show ?thesis
    by (rule record_agent_items_Inr)
      (use iv normalise_agent_items_spec(1,2) record_rows_inv in \<open>auto split: if_splits\<close>)
qed

lemma keeps_abort_items [keeps]: "within (kept db_inv) (abort_items e ids message)"
  unfolding abort_items_def by (intro keeps keeps_exec) (rule abort_pending_items_inv)

lemma keeps_insert_run_items [keeps]: "within (kept db_inv) (insert_run_items e run host its)"
  unfolding insert_run_items_def by (intro keeps keeps_exec) (rule insert_patch_run_items_inv)

lemma keeps_replace_items [keeps]: "within (kept db_inv) (replace_items e run host its)"
  unfolding replace_items_def by (intro keeps keeps_exec) (rule delete_items_inv)

lemma keeps_fail_run [keeps]: "within (kept db_inv) (fail_run e rid message)"
  unfolding fail_run_def by (intro keeps st_failed.stmt_keeps)

lemma keeps_set_run_reboot_required [keeps]: "within (kept db_inv) (set_run_reboot_required e rid b)"
  unfolding set_run_reboot_required_def by (intro keeps st_reboot.stmt_keeps)

lemma keeps_record_agent_items [keeps]: "within (kept db_inv) (record_agent_items e tm run host allow its)"
  unfolding within_def kept_def by (metis record_agent_items_inv prod.collapse)

section \<open>Properties\<close>

text \<open>
  An accepted report becomes one valid row per target, and each target's row is made from the
  last item of the report that names it; no report of more than 200 items is accepted.
\<close>

lemma normalise_last_report_wins:
  assumes "normalise_agent_items tm its = Inr rows"
  shows "list_all row_ok rows \<and> distinct (map row_key rows) \<and> length its \<le> 200
    \<and> map_of (map (\<lambda>r. (row_key r, r)) rows)
        = map_of (rev (map (\<lambda>it. (row_key (row_of_item tm it), row_of_item tm it)) its))"
  using normalise_agent_items_spec [OF assms] by (simp add: rows_table_def max_items_per_report_def)

definition sample_item :: "string \<Rightarrow> agent_item" where
  "sample_item status =
     \<lparr>ai_kind = ''winget'', ai_id = ''App'', ai_revision = None, ai_title = ''App'', ai_kb = [],
      ai_status = status, ai_result_code = None, ai_hresult = [], ai_exit_code = None,
      ai_reboot_required = None, ai_download_bytes = None, ai_message = [], ai_started_at = None,
      ai_completed_at = None\<rparr>"

definition sample_rows :: "item_row list" where
  "sample_rows = projr (normalise_agent_items (\<lambda>_. None) [sample_item ''pending'', sample_item ''installed''])"

lemma sample_rows_ok:
  "normalise_agent_items (\<lambda>_. None) [sample_item ''pending'', sample_item ''installed''] = Inr sample_rows"
  by code_simp

lemma normalise_last_report_wins_witness: "distinct (map row_key sample_rows)"
  using normalise_last_report_wins [OF sample_rows_ok] by blast

text \<open>
  C7: A recorded report never grows a run beyond 500 items, adds exactly the items it says it
  inserted, adds none where inserting is not allowed, and accounts for every distinct target of the
  report.
\<close>

theorem recorded_items_bounded:
  assumes iv: "db_inv db"
    and rec: "record_agent_items e tm run host allow its db = (Inr res, db')"
  shows "length (items_of run (items db')) \<le> max max_items_per_run (length (items_of run (items db)))
    \<and> int (length (items_of run (items db'))) = int (length (items_of run (items db))) + res_inserted res
    \<and> (\<not> allow \<longrightarrow> run_keys run (items db') = run_keys run (items db))
    \<and> (\<exists>rows. normalise_agent_items tm its = Inr rows
         \<and> res_updated res + res_inserted res + res_ignored res = int (length rows))"
proof (rule record_agent_items_Inr [OF rec])
  fix rows
  assume n: "normalise_agent_items tm its = Inr rows"
    and step: "if rows = [] then db' = db \<and> res = \<lparr>res_updated = 0, res_inserted = 0, res_ignored = 0\<rparr>
         else record_rows e run host allow rows db = (Inr res, db')"
  show ?thesis
  proof (cases "rows = []")
    case True
    with step n show ?thesis by simp
  next
    case False
    then have r: "record_rows e run host allow rows db = (Inr res, db')" using step by simp
    note ok = normalise_agent_items_spec(1,2) [OF n]
    note keys = record_rows_keys [OF r iv ok]
    have len: "length (items_of run t) = length (run_keys run t)" for t by (simp add: run_keys_def)
    have room: "length (fresh_rows run db allow rows)
        \<le> (if allow then max_items_per_run - length (run_keys run (items db)) else 0)"
      by (simp add: fresh_rows_def)
    obtain k where "res = \<lparr>res_updated = int k, res_inserted = int (length (fresh_rows run db allow rows)),
        res_ignored = int (length rows) - int k - int (length (fresh_rows run db allow rows))\<rparr>"
      by (rule record_rows_Inr [OF r iv ok]) blast
    with keys room n show ?thesis by (auto simp: len split: if_splits)
  qed
qed

definition sample_recorded :: "(store_error + item_report_result) \<times> store_db" where
  "sample_recorded = record_agent_items sample_env (\<lambda>_. None) ''r'' ''h'' True
     [sample_item ''pending'', sample_item ''installed''] (sample_db ''running'')"

lemma sample_recorded_ok:
  "fst sample_recorded = Inr \<lparr>res_updated = 0, res_inserted = 1, res_ignored = 0\<rparr>"
  by code_simp

lemma sample_db_inv: "db_inv (sample_db ''running'')"
  by code_simp

theorem recorded_items_bounded_witness:
  "int (length (items_of ''r'' (items (snd sample_recorded)))) = 1"
  using recorded_items_bounded [OF sample_db_inv, of sample_env "\<lambda>_. None" "''r''" "''h''" True
      "[sample_item ''pending'', sample_item ''installed'']" _ "snd sample_recorded"]
    sample_recorded_ok
  by (simp add: sample_recorded_def sample_db_def items_of_def prod_eq_iff)

text \<open>
  C24: Items are only recorded while the run can still be running on the agent: a report that
  changes anything found the run queued, validating or running, or cancelled, timed out or
  disconnected less than 15 minutes ago; and a report that fails changes nothing.
\<close>

theorem items_recorded_only_while_accepting:
  assumes rec: "record_agent_items e tm run host allow its db = (r, db')" and change: "db' \<noteq> db"
  shows "\<exists>row. find_run run (runs db) = Some row
    \<and> (pr_status row \<in> {''queued'', ''running'', ''pending_validation''}
       \<or> pr_status row \<in> {''cancelled'', ''timed_out'', ''agent_disconnected''}
         \<and> now e - 900 < (case pr_completed_at row of None \<Rightarrow> pr_updated_at row | Some t \<Rightarrow> t))"
proof -
  obtain res where r: "r = Inr res"
    using rec change record_agent_items_error by (cases r) blast+
  obtain rows where "record_rows e run host allow rows db = (Inr res, db')"
    using rec change unfolding r record_agent_items_def
    by (auto simp: in_tx_Inr split: sum.splits if_splits)
  then obtain status grace where "lock_run_status e run item_report_grace db = Inr (status, grace)"
    and "run_accepts_item_reports status grace"
    by (auto simp: record_rows_def bind_op_Inr query_op_Inr split: if_splits)
  then show ?thesis
    by (auto simp: lock_run_status_def guarded_Inr run_accepts_item_reports_def item_report_grace_def
        split: option.splits if_splits)
qed

theorem items_recorded_only_while_accepting_witness:
  "\<exists>row. find_run ''r'' (runs (sample_db ''running'')) = Some row"
proof -
  have "items (snd sample_recorded) \<noteq> items (sample_db ''running'')" by code_simp
  then have "snd sample_recorded \<noteq> sample_db ''running''" by metis
  then show ?thesis
    using items_recorded_only_while_accepting [of sample_env "\<lambda>_. None" "''r''" "''h''" True
        "[sample_item ''pending'', sample_item ''installed'']" "sample_db ''running''"
        "fst sample_recorded" "snd sample_recorded"]
    by (auto simp: sample_recorded_def)
qed

text \<open>Aborting left-over targets touches only items still pending, and never a run.\<close>

lemma abort_only_pending:
  assumes "abort_items e ids message db = (r, db')"
  shows "runs db' = runs db \<and> length (items db') = length (items db)
    \<and> (\<forall>k < length (items db). items db' ! k = items db ! k
         \<or> it_status (items db ! k) = ''pending'' \<and> it_id (items db ! k) \<in> set ids
           \<and> it_status (items db' ! k) = ''aborted'')"
proof (cases r)
  case (Inl err)
  with assms show ?thesis by (auto simp: abort_items_def exec_def split: if_splits sum.splits)
next
  case (Inr u)
  with assms show ?thesis
    by (auto simp: abort_items_def exec_Inr update_where_def split: if_splits dest: abort_pending_items_Inr)
qed

lemma abort_only_pending_witness:
  "runs (snd (abort_items sample_env [''i''] ''no longer applicable'' (sample_db ''running'')))
     = runs (sample_db ''running'')"
  using abort_only_pending [of sample_env "[''i'']" "''no longer applicable''" "sample_db ''running''"]
  by (metis prod.collapse)

end
