(* ===== verification/PatchOutput.thy ===== *)
theory PatchOutput
  imports Prelude "HOL-Library.Monad_Syntax"
begin

text \<open>
  The package-manager output parsers of \<open>store/patching.go\<close>: which packages a dry run would touch
  (\<open>parsePackagesAffectedFromDryRunOutput\<close>) and which a real run touched
  (\<open>parsePackagesAffectedFromRealOutput\<close>).  Each is a loop over the lines of the output with a
  handful of section flags, modelled as a fold of a line step over a state record.  A slice index
  the Go code evaluates out of range is a panic, the value \<open>None\<close> of a step.  The regular
  expressions of the file are hand-compiled to matchers over the combinators below; \<open>\\s\<close> is RE2's
  ASCII class.
\<close>

section \<open>Matchers for the regular expressions\<close>

definition re_space :: "char \<Rightarrow> bool" where
  "re_space c \<longleftrightarrow> (let n = (of_char c :: nat) in n = 9 \<or> n = 10 \<or> n = 12 \<or> n = 13 \<or> n = 32)"

definition m_lit :: "string \<Rightarrow> string \<Rightarrow> string option" where
  "m_lit l s = (if has_prefix s l then Some (drop (length l) s) else None)"

definition m_star :: "(char \<Rightarrow> bool) \<Rightarrow> string \<Rightarrow> string option" where
  "m_star p s = Some (dropWhile p s)"

definition m_plus :: "(char \<Rightarrow> bool) \<Rightarrow> string \<Rightarrow> string option" where
  "m_plus p s = (if s \<noteq> [] \<and> p (hd s) then Some (dropWhile p s) else None)"

fun m_alt :: "string list \<Rightarrow> string \<Rightarrow> string option" where
  "m_alt [] s = None"
| "m_alt (l # ls) s = (if has_prefix s l then Some (drop (length l) s) else m_alt ls s)"

definition m_capture :: "(char \<Rightarrow> bool) \<Rightarrow> string \<Rightarrow> string option" where
  "m_capture p s = (if s \<noteq> [] \<and> p (hd s) then Some (takeWhile p s) else None)"

definition freebsd_pkg_summary_match :: "string \<Rightarrow> string option" where
  "freebsd_pkg_summary_match line = do {
     rest \<leftarrow> m_plus re_space line;
     let w = takeWhile (\<lambda>c. \<not> re_space c) rest;
     let after = dropWhile (\<lambda>c. \<not> re_space c) rest;
     if 2 \<le> length w \<and> last w = CHR '':'' \<and> after \<noteq> [] then Some (butlast w) else None }"

definition freebsd_pkg_action_match :: "string \<Rightarrow> string option" where
  "freebsd_pkg_action_match s = do {
     s1 \<leftarrow> m_lit ''['' s;
     s2 \<leftarrow> m_plus is_digit s1;
     s3 \<leftarrow> m_lit ''/'' s2;
     s4 \<leftarrow> m_plus is_digit s3;
     s5 \<leftarrow> m_lit '']'' s4;
     s6 \<leftarrow> m_plus re_space s5;
     s7 \<leftarrow> m_alt [''Installing'', ''Upgrading'', ''Reinstalling''] s6;
     s8 \<leftarrow> m_plus re_space s7;
     m_capture (\<lambda>c. \<not> re_space c) s8 }"

definition step_counter_match :: "string \<Rightarrow> string option" where
  "step_counter_match s = do {
     s1 \<leftarrow> m_lit ''('' s;
     s2 \<leftarrow> m_star re_space s1;
     s3 \<leftarrow> m_plus is_digit s2;
     s4 \<leftarrow> m_lit ''/'' s3;
     s5 \<leftarrow> m_plus is_digit s4;
     m_lit '')'' s5 }"

definition apk_action_match :: "string \<Rightarrow> string option" where
  "apk_action_match s = do {
     s1 \<leftarrow> step_counter_match s;
     s2 \<leftarrow> m_plus re_space s1;
     s3 \<leftarrow> m_alt [''Installing'', ''Upgrading'', ''Reinstalling'', ''Downgrading'', ''Replacing'', ''Purging''] s2;
     s4 \<leftarrow> m_plus re_space s3;
     m_capture (\<lambda>c. \<not> re_space c \<and> c \<noteq> CHR ''@'') s4 }"

definition zypper_plan_match :: "string \<Rightarrow> string option" where
  "zypper_plan_match s = do {
     s1 \<leftarrow> m_lit ''  '' s;
     s2 \<leftarrow> m_alt [''upgrade'', ''install'', ''reinstall'', ''remove''] s1;
     s3 \<leftarrow> m_lit '' '' s2;
     w \<leftarrow> m_capture (\<lambda>c. \<not> re_space c) s3;
     s4 \<leftarrow> m_lit '' '' (dropWhile (\<lambda>c. \<not> re_space c) s3);
     Some w }"

definition zypper_commit_match :: "string \<Rightarrow> string option" where
  "zypper_commit_match s = do {
     s1 \<leftarrow> step_counter_match s;
     s2 \<leftarrow> m_lit '' '' s1;
     s3 \<leftarrow> m_alt [''Installing'', ''Removing''] s2;
     s4 \<leftarrow> m_lit '': '' s3;
     m_capture (\<lambda>c. \<not> re_space c) s4 }"

section \<open>Tables and small helpers\<close>

definition freebsd_base_package_name :: string where
  "freebsd_base_package_name = ''freebsd-base''"

definition dnf_transaction_sections :: "string list" where
  "dnf_transaction_sections =
     [''Installing:'', ''Upgrading:'', ''Updating:'', ''Reinstalling:'', ''Downgrading:'',
      ''Removing:'', ''Installing dependencies:'', ''Installing weak dependencies:'',
      ''Upgrading dependencies:'', ''Removing dependent packages:'',
      ''Removing unused dependencies:'', ''Installing for dependencies:'',
      ''Updating for dependencies:'', ''Removing for dependencies:'']"

definition rpm_arches :: "string list" where
  "rpm_arches =
     [''noarch'', ''x86_64'', ''x86_64_v2'', ''i486'', ''armv7l'', ''ppc'', ''aarch64'', ''i686'',
      ''i586'', ''i386'', ''armv7hl'', ''armhfp'', ''ppc64le'', ''ppc64'', ''s390x'', ''riscv64'',
      ''loongarch64'', ''src'']"

definition before_last_dash :: "string \<Rightarrow> string option" where
  "before_last_dash s =
     (case cut_last (CHR ''-'') s of
        None \<Rightarrow> None
      | Some (b, _) \<Rightarrow> if b = [] then None else Some b)"

definition rpm_name_from_nvra :: "string \<Rightarrow> string" where
  "rpm_name_from_nvra nvra =
     (case before_last_dash nvra of
        None \<Rightarrow> []
      | Some s \<Rightarrow> (case before_last_dash s of None \<Rightarrow> [] | Some t \<Rightarrow> t))"

definition is_freebsd :: "string \<Rightarrow> bool" where
  "is_freebsd os_type \<longleftrightarrow> equal_fold (trim_space os_type) ''freebsd''"

definition is_ucs :: "string \<Rightarrow> bool" where
  "is_ucs os_type \<longleftrightarrow> str_contains (to_lower os_type) ''univention''"

definition freebsd_update_pending :: "string \<Rightarrow> bool" where
  "freebsd_update_pending output \<longleftrightarrow>
     output \<noteq> []
     \<and> \<not> (str_contains output ''No updates needed'' \<or> str_contains output ''No updates are available'')
     \<and> (str_contains output ''will be updated'' \<or> str_contains output ''will be installed'')"

definition normalize_freebsd_target :: "string \<Rightarrow> string" where
  "normalize_freebsd_target name0 =
     (let name = trim_space (trim_right_while (\<lambda>c. c \<in> set ''.,:;)]}'') name0)
      in if name = [] then []
         else (case cut_last (CHR ''-'') name of
                 Some (b, next # _) \<Rightarrow> if b \<noteq> [] \<and> is_digit next then b else name
               | _ \<Rightarrow> name))"

section \<open>Dry-run output\<close>

record dry_state =
  dry_pkgs :: "string list"
  in_freebsd_section :: bool
  in_zypper_plan :: bool
  in_dnf_section :: bool
  dnf_wrapped_name :: string

definition add_pkg :: "string \<Rightarrow> string list \<Rightarrow> string list" where
  "add_pkg name pkgs =
     (let n = trim_space name in if n = [] \<or> n \<in> set pkgs then pkgs else pkgs @ [n])"

definition dry_add :: "string \<Rightarrow> dry_state \<Rightarrow> dry_state" where
  "dry_add name st = st\<lparr>dry_pkgs := add_pkg name (dry_pkgs st)\<rparr>"

text \<open>
  A line inside a dnf transaction table.  The result is \<open>(handled, state)\<close>: \<open>handled\<close> is Go's
  \<open>continue\<close>, and \<open>None\<close> an index out of range.
\<close>

definition dry_dnf_line :: "string \<Rightarrow> string \<Rightarrow> dry_state \<Rightarrow> (bool \<times> dry_state) option" where
  "dry_dnf_line line trimmed st =
     (let fs = str_fields line;
          leave = (False, st\<lparr>in_dnf_section := False, dnf_wrapped_name := []\<rparr>)
      in if trimmed = [] \<or> has_prefix line ''Transaction Summary'' \<or> has_prefix line ''==='' then Some leave
         else (case line of
             [] \<Rightarrow> None
           | c0 # rest \<Rightarrow>
               if c0 \<noteq> CHR '' '' \<and> has_suffix trimmed '':'' then Some leave
               else if rest \<noteq> [] \<and> c0 = CHR '' '' \<and> hd rest \<noteq> CHR '' '' then
                 (let st1 = st\<lparr>dnf_wrapped_name := []\<rparr>
                  in case fs of
                       f0 # f1 # _ \<Rightarrow> Some (True, if f1 \<in> set rpm_arches then dry_add f0 st1 else st1)
                     | [f0] \<Rightarrow> Some (True, st1\<lparr>dnf_wrapped_name := f0\<rparr>)
                     | [] \<Rightarrow> Some (True, st1))
               else if dnf_wrapped_name st \<noteq> [] then
                 (case fs of
                    [] \<Rightarrow> None
                  | f0 # _ \<Rightarrow>
                      Some (True, (if f0 \<in> set rpm_arches then dry_add (dnf_wrapped_name st) st else st)
                                    \<lparr>dnf_wrapped_name := []\<rparr>))
               else Some (True, st\<lparr>dnf_wrapped_name := []\<rparr>)))"

text \<open>The FreeBSD pkg summary at the end of a line's processing.\<close>

definition dry_freebsd_line :: "string \<Rightarrow> string \<Rightarrow> dry_state \<Rightarrow> dry_state" where
  "dry_freebsd_line line trimmed st =
     (let upper = to_upper trimmed
      in if str_contains upper ''TO BE UPGRADED'' \<or> str_contains upper ''TO BE INSTALLED''
            \<or> str_contains upper ''TO BE REINSTALLED''
         then st\<lparr>in_freebsd_section := True\<rparr>
         else let st1 = (if has_prefix trimmed ''Number of '' \<or> str_contains upper ''TO BE REMOVED''
                            \<or> str_contains upper ''TO BE DOWNGRADED''
                         then st\<lparr>in_freebsd_section := False\<rparr> else st)
              in if \<not> in_freebsd_section st1 \<or> trimmed = [] then st1
                 else (case freebsd_pkg_summary_match line of
                         Some name \<Rightarrow> dry_add name st1
                       | None \<Rightarrow> st1))"

text \<open>The zypper, apt and apk formats, then the FreeBSD one.\<close>

definition dry_other_line :: "string \<Rightarrow> string \<Rightarrow> dry_state \<Rightarrow> dry_state" where
  "dry_other_line line trimmed st0 =
     (if has_prefix trimmed ''[patchmon] zypper plans'' then st0\<lparr>in_zypper_plan := True\<rparr>
      else let st = (if has_prefix trimmed ''$ '' \<or> has_prefix trimmed ''[patchmon] ''
                     then st0\<lparr>in_zypper_plan := False\<rparr> else st0)
           in if in_zypper_plan st then
                (case zypper_plan_match line of Some name \<Rightarrow> dry_add name st | None \<Rightarrow> st)
              else if has_prefix trimmed ''Inst '' then
                (case str_fields trimmed of f0 # f1 # _ \<Rightarrow> dry_add f1 st | _ \<Rightarrow> st)
              else (case apk_action_match trimmed of
                      Some name \<Rightarrow> dry_add name st
                    | None \<Rightarrow> dry_freebsd_line line trimmed st))"

definition dry_line :: "dry_state \<Rightarrow> string \<Rightarrow> dry_state option" where
  "dry_line st line0 =
     (let line = trim_right_while (\<lambda>c. byte_is c 13) line0;
          trimmed = trim_space line
      in if line \<in> set dnf_transaction_sections
         then Some (st\<lparr>in_dnf_section := True, dnf_wrapped_name := []\<rparr>)
         else if in_dnf_section st then
           (case dry_dnf_line line trimmed st of
              None \<Rightarrow> None
            | Some (True, st1) \<Rightarrow> Some st1
            | Some (False, st1) \<Rightarrow> Some (dry_other_line line trimmed st1))
         else Some (dry_other_line line trimmed st))"

fun dry_lines :: "dry_state \<Rightarrow> string list \<Rightarrow> dry_state option" where
  "dry_lines st [] = Some st"
| "dry_lines st (l # ls) =
     (case dry_line st l of None \<Rightarrow> None | Some st1 \<Rightarrow> dry_lines st1 ls)"

definition dry_init :: "string list \<Rightarrow> dry_state" where
  "dry_init pkgs =
     \<lparr>dry_pkgs = pkgs, in_freebsd_section = False, in_zypper_plan = False,
      in_dnf_section = False, dnf_wrapped_name = []\<rparr>"

definition parse_dry_run_output :: "string \<Rightarrow> string \<Rightarrow> string list option" where
  "parse_dry_run_output os_type output =
     map_option dry_pkgs
       (dry_lines
          (dry_init (if is_freebsd os_type \<and> freebsd_update_pending output
                     then add_pkg freebsd_base_package_name [] else []))
          (split_on (CHR 0x0A) output))"

section \<open>Real output\<close>

record real_state =
  real_pkgs :: "string list"
  real_freebsd_section :: bool
  in_ucs_upgrade :: bool
  in_ucs_pkg_list :: bool
  apk_applying :: bool

definition add_exact :: "string \<Rightarrow> string list \<Rightarrow> string list" where
  "add_exact name pkgs = (if name = [] \<or> name \<in> set pkgs then pkgs else pkgs @ [name])"

definition add_base :: "string \<Rightarrow> string list \<Rightarrow> string list" where
  "add_base name pkgs = add_exact (trim_space (before_char (CHR ''.'') (before_char (CHR '':'') name))) pkgs"

definition real_upd :: "(string list \<Rightarrow> string list) \<Rightarrow> real_state \<Rightarrow> real_state" where
  "real_upd f st = st\<lparr>real_pkgs := f (real_pkgs st)\<rparr>"

text \<open>Name of a dnf step's \<open>name-version.arch\<close>: the parts up to the first that starts with a digit.\<close>

definition dnf_step_name :: "string \<Rightarrow> string" where
  "dnf_step_name pkg_full =
     (case split_on (CHR ''-'') (before_char (CHR ''.'') pkg_full) of
        [] \<Rightarrow> []
      | p # ps \<Rightarrow> join ''-'' (p # takeWhile (\<lambda>q. \<not> (q \<noteq> [] \<and> is_digit (hd q))) ps))"

definition real_dnf_step :: "string \<Rightarrow> real_state \<Rightarrow> real_state" where
  "real_dnf_step trimmed st =
     (let lower = to_lower trimmed
      in if has_prefix lower ''upgrading'' \<or> has_prefix lower ''installing'' \<or> has_prefix lower ''updating''
         then (case cut_on (CHR '':'') trimmed of
                 None \<Rightarrow> st
               | Some (_, rest) \<Rightarrow>
                   (case str_fields (trim_space rest) of
                      [] \<Rightarrow> st
                    | f0 # _ \<Rightarrow> real_upd (add_base (dnf_step_name f0)) st))
         else st)"

definition real_freebsd_tail :: "string \<Rightarrow> string \<Rightarrow> real_state \<Rightarrow> real_state" where
  "real_freebsd_tail line trimmed st =
     (let upper = to_upper trimmed;
          action = (\<lambda>s. case freebsd_pkg_action_match trimmed of
                          Some n \<Rightarrow> real_upd (add_base (normalize_freebsd_target n)) s
                        | None \<Rightarrow> s)
      in if str_contains upper ''TO BE UPGRADED'' \<or> str_contains upper ''TO BE INSTALLED''
            \<or> str_contains upper ''TO BE REINSTALLED''
         then st\<lparr>real_freebsd_section := True\<rparr>
         else let st1 = (if has_prefix trimmed ''Number of '' \<or> str_contains upper ''TO BE REMOVED''
                            \<or> str_contains upper ''TO BE DOWNGRADED''
                         then st\<lparr>real_freebsd_section := False\<rparr> else st)
              in if real_freebsd_section st1 \<and> trimmed \<noteq> []
                 then (case freebsd_pkg_summary_match line of
                         Some name \<Rightarrow> real_upd (add_base name) st1
                       | None \<Rightarrow> action st1)
                 else action st1)"

text \<open>The second field of an apt line, or the third: \<open>nth_field\<close> guards the index as the code does.\<close>

definition nth_field :: "nat \<Rightarrow> string \<Rightarrow> string option" where
  "nth_field n s = (let fs = str_fields s in if n < length fs then Some (fs ! n) else None)"

definition add_nth_field :: "nat \<Rightarrow> string \<Rightarrow> real_state \<Rightarrow> real_state" where
  "add_nth_field n trimmed st =
     (case nth_field n trimmed of Some f \<Rightarrow> real_upd (add_base f) st | None \<Rightarrow> st)"

definition real_line :: "bool \<Rightarrow> real_state \<Rightarrow> string \<Rightarrow> real_state" where
  "real_line ucs st0 line =
     (let trimmed = trim_space line
      in if in_ucs_pkg_list st0 then
           real_upd (\<lambda>pkgs. fold (\<lambda>n. add_exact (trim_space (before_char (CHR '':'') n)))
                                  (split_on (CHR '','') trimmed) pkgs)
             (st0\<lparr>in_ucs_pkg_list := False\<rparr>)
         else
           let st = (if has_prefix trimmed ''$ ''
                     then st0\<lparr>in_ucs_upgrade := ucs \<and> has_prefix trimmed ''$ univention-upgrade'',
                              apk_applying := has_prefix trimmed ''$ apk upgrade''
                                              \<and> \<not> str_contains trimmed ''--simulate''\<rparr>
                     else st0)
           in if in_ucs_upgrade st
                 \<and> (trimmed = ''The following packages will be upgraded:''
                    \<or> trimmed = ''The following packages will be installed:'')
              then st\<lparr>in_ucs_pkg_list := True\<rparr>
              else if has_prefix trimmed ''Inst '' then add_nth_field 1 trimmed st
              else if has_prefix trimmed ''Unpacking '' then add_nth_field 1 trimmed st
              else if has_prefix trimmed ''Setting up '' then add_nth_field 2 trimmed st
              else (case zypper_commit_match trimmed of
                  Some nvra \<Rightarrow> real_upd (add_exact (rpm_name_from_nvra nvra)) st
                | None \<Rightarrow>
                    (case apk_action_match trimmed of
                       Some name \<Rightarrow> if apk_applying st then real_upd (add_exact name) st else st
                     | None \<Rightarrow> real_freebsd_tail line trimmed (real_dnf_step trimmed st))))"

definition real_init :: "string list \<Rightarrow> real_state" where
  "real_init pkgs =
     \<lparr>real_pkgs = pkgs, real_freebsd_section = False, in_ucs_upgrade = False,
      in_ucs_pkg_list = False, apk_applying = True\<rparr>"

definition parse_real_output :: "string \<Rightarrow> string \<Rightarrow> string list" where
  "parse_real_output os_type output =
     real_pkgs (foldl (real_line (is_ucs os_type))
       (real_init (if is_freebsd os_type \<and> freebsd_update_pending output
                   then add_base freebsd_base_package_name [] else []))
       (split_on (CHR 0x0A) output))"

section \<open>Collecting package names\<close>

text \<open>
  Both parsers collect names through closures that share a contract: an added name is not empty,
  is not there yet, and goes to the end.  What the parsers promise of their result follows from
  that contract alone.
\<close>

definition clean_names :: "string list \<Rightarrow> bool" where
  "clean_names ps \<longleftrightarrow> distinct ps \<and> [] \<notin> set ps"

lemma clean_names_Nil [simp]: "clean_names []"
  by (simp add: clean_names_def)

locale name_collector =
  fixes add :: "string \<Rightarrow> string list \<Rightarrow> string list"
  assumes add_cases: "add n ps = ps \<or> (\<exists>m. m \<noteq> [] \<and> m \<notin> set ps \<and> add n ps = ps @ [m])"
begin

lemma add_clean: "clean_names ps \<Longrightarrow> clean_names (add n ps)"
  using add_cases [of n ps] by (auto simp: clean_names_def)

lemma add_keeps: "set ps \<subseteq> set (add n ps)"
  using add_cases [of n ps] by auto

lemma fold_add_clean: "clean_names ps \<Longrightarrow> clean_names (fold (\<lambda>n. add (f n)) ns ps)"
  by (induction ns arbitrary: ps) (auto intro: add_clean)

end

interpretation col_pkg: name_collector add_pkg
  by unfold_locales (auto simp: add_pkg_def Let_def)

interpretation col_exact: name_collector add_exact
  by unfold_locales (auto simp: add_exact_def)

interpretation col_base: name_collector add_base
  by unfold_locales (auto simp: add_base_def add_exact_def)

section \<open>The dry-run parser: no panic, clean result\<close>

lemma trim_space_Nil [simp]: "trim_space [] = []"
  by (simp add: trim_space_empty_iff all_space.simps [of "[]"])

lemma dry_dnf_line_total: "dry_dnf_line line (trim_space line) st \<noteq> None"
proof (cases "trim_space line = []")
  case True
  then show ?thesis by (simp add: dry_dnf_line_def)
next
  case False
  then obtain c0 rest where line: "line = c0 # rest" by (cases line) auto
  obtain f0 fs where "str_fields line = f0 # fs"
    using False by (cases "str_fields line") (auto simp: str_fields_empty_iff)
  then show ?thesis
    unfolding dry_dnf_line_def Let_def line by (auto split: list.splits)
qed

lemma dry_line_total: "dry_line st l \<noteq> None"
  using dry_dnf_line_total [of "trim_right_while (\<lambda>c. byte_is c 13) l" st]
  by (auto simp: dry_line_def Let_def split: option.splits prod.splits bool.splits)

lemma dry_lines_total: "dry_lines st ls \<noteq> None"
proof (induction ls arbitrary: st)
  case (Cons l ls)
  with dry_line_total [of st l] show ?case by (auto split: option.splits)
qed simp

lemma dry_add_clean: "clean_names (dry_pkgs st) \<Longrightarrow> clean_names (dry_pkgs (dry_add n st))"
  by (simp add: dry_add_def col_pkg.add_clean)

lemma dry_dnf_line_clean:
  "dry_dnf_line line trimmed st = Some (b, st') \<Longrightarrow> clean_names (dry_pkgs st) \<Longrightarrow> clean_names (dry_pkgs st')"
  unfolding dry_dnf_line_def Let_def
  by (auto simp: dry_add_def col_pkg.add_clean split: if_splits list.splits)

lemma dry_freebsd_line_clean:
  "clean_names (dry_pkgs st) \<Longrightarrow> clean_names (dry_pkgs (dry_freebsd_line line trimmed st))"
  by (simp add: dry_freebsd_line_def Let_def dry_add_clean split: option.split)

lemma dry_other_line_clean:
  "clean_names (dry_pkgs st) \<Longrightarrow> clean_names (dry_pkgs (dry_other_line line trimmed st))"
  by (simp add: dry_other_line_def Let_def dry_add_clean dry_freebsd_line_clean
           split: option.split list.split)

lemma dry_line_clean:
  assumes "dry_line st l = Some st'" and "clean_names (dry_pkgs st)"
  shows "clean_names (dry_pkgs st')"
proof -
  let ?line = "trim_right_while (\<lambda>c. byte_is c 13) l"
  show ?thesis
  proof (cases "?line \<notin> set dnf_transaction_sections \<and> in_dnf_section st")
    case True
    then obtain b st1 where d: "dry_dnf_line ?line (trim_space ?line) st = Some (b, st1)"
      using dry_dnf_line_total by fastforce
    have "clean_names (dry_pkgs st1)" by (rule dry_dnf_line_clean [OF d assms(2)])
    then show ?thesis using assms(1) True d
      by (cases b) (auto simp: dry_line_def Let_def dry_other_line_clean)
  next
    case False
    then show ?thesis using assms
      by (auto simp: dry_line_def Let_def dry_other_line_clean split: if_splits)
  qed
qed

lemma dry_lines_clean:
  "dry_lines st ls = Some st' \<Longrightarrow> clean_names (dry_pkgs st) \<Longrightarrow> clean_names (dry_pkgs st')"
  by (induction ls arbitrary: st) (auto split: option.splits intro: dry_line_clean)

section \<open>The real-run parser\<close>

lemma real_upd_pkgs [simp]: "real_pkgs (real_upd f st) = f (real_pkgs st)"
  by (simp add: real_upd_def)

lemmas real_clean = col_exact.add_clean col_base.add_clean col_exact.fold_add_clean

lemma add_nth_field_clean:
  "clean_names (real_pkgs st) \<Longrightarrow> clean_names (real_pkgs (add_nth_field n t st))"
  by (simp add: add_nth_field_def real_clean split: option.split)

lemma real_dnf_step_clean:
  "clean_names (real_pkgs st) \<Longrightarrow> clean_names (real_pkgs (real_dnf_step t st))"
  by (simp add: real_dnf_step_def Let_def real_clean split: option.split list.split)

lemma real_freebsd_tail_clean:
  "clean_names (real_pkgs st) \<Longrightarrow> clean_names (real_pkgs (real_freebsd_tail l t st))"
  by (simp add: real_freebsd_tail_def Let_def real_clean split: option.split)

lemma real_line_clean:
  "clean_names (real_pkgs st) \<Longrightarrow> clean_names (real_pkgs (real_line ucs st l))"
  by (simp add: real_line_def Let_def real_clean add_nth_field_clean real_freebsd_tail_clean
      real_dnf_step_clean split: option.split)

lemma real_lines_clean:
  "clean_names (real_pkgs st) \<Longrightarrow> clean_names (real_pkgs (foldl (real_line ucs) st ls))"
  by (induction ls arbitrary: st) (auto intro: real_line_clean)

section \<open>apt simulations\<close>

lemma trim_space_apt:
  assumes "plain_word p"
  shows "trim_space (''Inst '' @ p @ v) = ''Inst '' @ p @ trim_right v"
proof -
  have plain: "list_all (\<lambda>c. 32 < (of_char c :: nat) \<and> (of_char c :: nat) < 128) ''Inst''" by simp
  have "trim_left (''Inst '' @ p @ v) = ''Inst'' @ ('' '' @ p @ v)"
    by (simp add: trim_left_Cons)
  moreover have "trim_right (''Inst'' @ ('' '' @ p @ v)) = ''Inst'' @ trim_right ('' '' @ p @ v)"
    by (rule trim_right_plain [OF plain])
  moreover have "trim_right ('' '' @ p @ v) = '' '' @ p @ trim_right v"
    using assms not_all_space_plain [OF assms, of v]
    by (simp add: all_space_blank trim_right_plain plain_word_def)
  ultimately show ?thesis by (simp add: trim_space_def)
qed

lemma trim_right_blank_start: "trim_right (CHR '' '' # v) = [] \<or> (\<exists>u. trim_right (CHR '' '' # v) = CHR '' '' # u)"
  by simp

lemma fields_apt:
  assumes "plain_word p"
  shows "\<exists>r. str_fields (''Inst '' @ p @ trim_right (CHR '' '' # v)) = ''Inst'' # p # r"
proof -
  have plain: "list_all (\<lambda>c. 32 < (of_char c :: nat) \<and> (of_char c :: nat) < 128) ''Inst''" by simp
  let ?u = "trim_right (CHR '' '' # v)"
  have "str_fields (''Inst'' @ (CHR '' '' # p @ ?u))
        = str_fields_from (rev ''Inst'' @ []) (CHR '' '' # p @ ?u)"
    unfolding str_fields_def by (rule fields_plain [OF plain])
  also have "\<dots> = ''Inst'' # str_fields_from [] (p @ ?u)"
    by (simp add: fields_blank)
  also have "\<dots> = ''Inst'' # str_fields_from (rev p) ?u"
    using assms by (simp add: fields_plain plain_word_def)
  finally have *: "str_fields (''Inst'' @ (CHR '' '' # p @ ?u)) = ''Inst'' # str_fields_from (rev p) ?u" .
  show ?thesis
    using trim_right_blank_start [of v] assms *
    by (auto simp: fields_blank plain_word_def simp del: trim_right.simps)
qed

text \<open>One line of \<open>apt-get --simulate\<close>.\<close>

definition apt_line :: "string \<times> string \<Rightarrow> string" where
  "apt_line pv = ''Inst '' @ fst pv @ CHR '' '' # snd pv"

definition apt_ok :: "string \<times> string \<Rightarrow> bool" where
  "apt_ok pv \<longleftrightarrow> plain_word (fst pv) \<and> list_all (\<lambda>c. \<not> byte_is c 10 \<and> \<not> byte_is c 13) (snd pv)"

lemma trim_right_while_no_cr:
  "s \<noteq> [] \<Longrightarrow> \<not> p (last s) \<Longrightarrow> trim_right_while p s = s"
  by (cases s rule: rev_cases) (auto simp: trim_right_while_def)

lemma apt_line_no_cr:
  assumes "apt_ok pv"
  shows "trim_right_while (\<lambda>c. byte_is c 13) (apt_line pv) = apt_line pv"
proof (rule trim_right_while_no_cr)
  show "apt_line pv \<noteq> []" by (simp add: apt_line_def)
  show "\<not> byte_is (last (apt_line pv)) 13"
    using assms by (auto simp: apt_line_def apt_ok_def list_all_iff byte_is_def)
qed

lemma apt_line_not_section: "apt_line pv \<notin> set dnf_transaction_sections"
  by (auto simp: apt_line_def dnf_transaction_sections_def)

definition quiet :: "dry_state \<Rightarrow> bool" where
  "quiet st \<longleftrightarrow> \<not> in_zypper_plan st \<and> \<not> in_dnf_section st"

lemma dry_line_apt:
  assumes "apt_ok pv" and "quiet st"
  shows "dry_line st (apt_line pv) = Some (dry_add (fst pv) st)"
proof -
  have p: "plain_word (fst pv)" using assms by (simp add: apt_ok_def)
  have t: "trim_space (apt_line pv) = ''Inst '' @ fst pv @ trim_right (CHR '' '' # snd pv)"
    unfolding apt_line_def by (rule trim_space_apt [OF p])
  obtain r where f: "str_fields (''Inst '' @ fst pv @ trim_right (CHR '' '' # snd pv)) = ''Inst'' # fst pv # r"
    using fields_apt [OF p] by blast
  have "dry_other_line (apt_line pv) (trim_space (apt_line pv)) st = dry_add (fst pv) st"
    using assms(2) f unfolding t dry_other_line_def Let_def
    by (simp add: has_prefix_def quiet_def del: trim_right.simps)
  with assms show ?thesis
    by (simp add: dry_line_def Let_def apt_line_no_cr apt_line_not_section quiet_def)
qed

lemma quiet_dry_add [simp]: "quiet (dry_add n st) = quiet st"
  by (simp add: quiet_def dry_add_def)

lemma dry_lines_apt:
  "list_all apt_ok pvs \<Longrightarrow> quiet st \<Longrightarrow>
   dry_lines st (map apt_line pvs) = Some (fold (\<lambda>pv. dry_add (fst pv)) pvs st)"
  by (induction pvs arbitrary: st) (auto simp: dry_line_apt)

lemma dry_lines_append:
  "dry_lines st (xs @ ys) = (case dry_lines st xs of None \<Rightarrow> None | Some st' \<Rightarrow> dry_lines st' ys)"
  by (induction xs arbitrary: st) (auto split: option.split)

lemma fold_dry_add:
  "dry_pkgs (fold (\<lambda>pv. dry_add (fst pv)) pvs st) = fold (\<lambda>pv. add_pkg (fst pv)) pvs (dry_pkgs st)"
  by (induction pvs arbitrary: st) (auto simp: dry_add_def)

lemma set_fold_add_pkg:
  "list_all apt_ok pvs \<Longrightarrow>
   set (fold (\<lambda>pv. add_pkg (fst pv)) pvs ps) = set ps \<union> fst ` set pvs"
proof (induction pvs arbitrary: ps)
  case (Cons pv pvs)
  then have p: "plain_word (fst pv)" by (simp add: apt_ok_def)
  then have "set (add_pkg (fst pv) ps) = insert (fst pv) (set ps)"
    by (auto simp: add_pkg_def Let_def trim_space_plain) (simp add: plain_word_def)
  with Cons show ?case by auto
qed simp

lemma split_on_join:
  "\<forall>l \<in> set ls. c \<notin> set l \<Longrightarrow> ls \<noteq> [] \<Longrightarrow> split_on c (join [c] ls) = ls"
proof (induction ls)
  case (Cons x ls)
  then show ?case by (cases ls) (auto simp: split_on_no_sep split_on_app_sep)
qed simp

lemma newline_byte: "byte_is c 10 \<longleftrightarrow> c = CHR 0x0A"
proof
  assume "byte_is c 10"
  then have "(of_char c :: nat) = of_char (CHR 0x0A)" by (simp add: byte_is_def)
  then show "c = CHR 0x0A" by (simp only: of_char_eq_iff)
qed (simp add: byte_is_def)

lemma apt_line_no_newline: 
  assumes "apt_ok pv" shows "CHR 0x0A \<notin> set (apt_line pv)"
proof -
  have "CHR 0x0A \<notin> set (fst pv)"
    using assms unfolding apt_ok_def plain_word_def list_all_iff by fastforce
  moreover have "CHR 0x0A \<notin> set (snd pv)"
    using assms unfolding apt_ok_def list_all_iff newline_byte by blast
  ultimately show ?thesis by (simp add: apt_line_def)
qed

lemma parse_dry_run_apt:
  assumes "\<not> is_freebsd os" and "list_all apt_ok pvs" and "pvs \<noteq> []"
  shows "parse_dry_run_output os (join [CHR 0x0A] (map apt_line pvs))
         = Some (fold (\<lambda>pv. add_pkg (fst pv)) pvs [])"
proof -
  have "split_on (CHR 0x0A) (join [CHR 0x0A] (map apt_line pvs)) = map apt_line pvs"
    using assms(2,3) by (intro split_on_join) (auto simp: list_all_iff apt_line_no_newline)
  with assms show ?thesis
    by (simp add: parse_dry_run_output_def dry_lines_apt dry_init_def quiet_def fold_dry_add)
qed

section \<open>Properties\<close>

lemma parse_dry_run_output_Some: "\<exists>pkgs. parse_dry_run_output os out = Some pkgs"
  using dry_lines_total by (auto simp: parse_dry_run_output_def)

text \<open>
  C25: The dry-run parser never panics: whatever the package manager printed, no slice index in the
  line loop (the first byte of a table line, its first column) is out of range and it returns a list.
\<close>

theorem dry_run_parse_total: "\<exists>pkgs. parse_dry_run_output os output = Some pkgs"
  by (rule parse_dry_run_output_Some)

text \<open>
  The lists both parsers return hold no package twice and no empty name, on every output of
  every package manager.
\<close>

lemma parsed_packages_clean:
  "clean_names (the (parse_dry_run_output os output)) \<and> clean_names (parse_real_output os output)"
proof
  let ?init = "dry_init (if is_freebsd os \<and> freebsd_update_pending output
                         then add_pkg freebsd_base_package_name [] else [])"
  obtain st where st: "dry_lines ?init (split_on (CHR 0x0A) output) = Some st"
    using dry_lines_total by blast
  have "clean_names (dry_pkgs st)"
    by (rule dry_lines_clean [OF st]) (simp add: dry_init_def col_pkg.add_clean)
  then show "clean_names (the (parse_dry_run_output os output))"
    by (simp add: parse_dry_run_output_def st)
  show "clean_names (parse_real_output os output)"
    unfolding parse_real_output_def
    by (rule real_lines_clean) (simp add: real_init_def real_clean)
qed

text \<open>
  On a host that is not FreeBSD the simulated output of apt is read completely: the packages of
  the plan, each once and nothing else, in the order of their first line.
\<close>

lemma dry_run_reads_apt_plan:
  assumes "\<not> is_freebsd os" and "list_all apt_ok pvs" and "pvs \<noteq> []"
  shows "\<exists>pkgs. parse_dry_run_output os (join [CHR 0x0A] (map apt_line pvs)) = Some pkgs
           \<and> set pkgs = fst ` set pvs \<and> distinct pkgs"
proof -
  let ?ps = "fold (\<lambda>pv. add_pkg (fst pv)) pvs []"
  have "clean_names ?ps" by (rule col_pkg.fold_add_clean) simp
  then have "distinct ?ps" by (simp add: clean_names_def)
  then show ?thesis
    using parse_dry_run_apt [OF assms] set_fold_add_pkg [OF assms(2), of "[]"] by simp
qed

lemma dry_run_reads_apt_plan_witness:
  "\<exists>pkgs. parse_dry_run_output ''ubuntu''
      (join [CHR 0x0A] (map apt_line [(''curl'', ''(8.5)''), (''vim'', ''(9.1)'')])) = Some pkgs
    \<and> set pkgs = fst ` set [(''curl'', ''(8.5)''), (''vim'', ''(9.1)'')] \<and> distinct pkgs"
proof (rule dry_run_reads_apt_plan)
  show "\<not> is_freebsd ''ubuntu''" by code_simp
  show "list_all apt_ok [(''curl'', ''(8.5)''), (''vim'', ''(9.1)'')]" by code_simp
  show "[(''curl'', ''(8.5)''), (''vim'', ''(9.1)'')] \<noteq> []" by simp
qed

end
