(* ===== verification/PatchRuns.thy ===== *)
theory PatchRuns
  imports PatchItems PatchOutput
begin

text \<open>
  The patch run store (\<open>internal/store/patching.go\<close>): creating, approving, reporting on, scheduling,
  stopping and deleting runs, as operations on the tables of \<open>PatchDb\<close>; the operations as one
  datatype with its executor and the states they reach; and the life cycle a run follows.

  A run's status is the string the table holds.  \<open>json.Marshal\<close> of a package list is the list.
\<close>

section \<open>Creating and approving\<close>

record create_opts =
  co_validation_run :: "string option"
  co_approved_by :: "string option"
  co_initial_status :: string
  co_items :: "new_item list"
  co_win_updates :: "bool option"
  co_win_apps :: "bool option"

record run_request =
  rq_id :: string
  rq_host :: string
  rq_job :: string
  rq_type :: string
  rq_package_name :: "string option"
  rq_package_names :: "string list"
  rq_triggered_by :: "string option"
  rq_dry_run :: bool
  rq_scheduled_at :: "int option"
  rq_policy_id :: "string option"
  rq_policy_name :: "string option"
  rq_policy_snapshot :: "string option"

definition map_active_run_conflict :: "store_error \<Rightarrow> store_error" where
  "map_active_run_conflict err =
     (if err = DbErr ActiveRunConflict then ErrHostHasActivePatchRun else err)"

definition map_err :: "(store_error \<Rightarrow> store_error) \<Rightarrow> 'a store_op \<Rightarrow> 'a store_op" where
  "map_err f op db = (case op db of (Inl err, db') \<Rightarrow> (Inl (f err), db') | (Inr x, db') \<Rightarrow> (Inr x, db'))"

definition initial_status :: "run_request \<Rightarrow> create_opts option \<Rightarrow> string" where
  "initial_status rq opts =
     (let status = (if rq_dry_run rq then ''pending_validation''
                    else if rq_scheduled_at rq \<noteq> None then ''scheduled'' else ''queued'')
      in case opts of
           Some c \<Rightarrow> if co_initial_status c \<noteq> [] then co_initial_status c else status
         | None \<Rightarrow> status)"

definition new_create_patch_run_params :: "env \<Rightarrow> run_request \<Rightarrow> create_opts option \<Rightarrow> patch_run" where
  "new_create_patch_run_params e rq opts =
     \<lparr>pr_id = (if rq_id rq = [] then fresh_id e else rq_id rq), pr_host = rq_host rq, pr_job = rq_job rq,
      pr_type = rq_type rq, pr_package_name = rq_package_name rq,
      pr_package_names = (if rq_package_names rq = [] then None else Some (rq_package_names rq)),
      pr_status = initial_status rq opts, pr_output = [], pr_error = None, pr_started_at = None,
      pr_completed_at = None, pr_scheduled_at = rq_scheduled_at rq,
      pr_triggered_by = rq_triggered_by rq,
      pr_approved_by = Option.bind opts co_approved_by, pr_dry_run = rq_dry_run rq,
      pr_affected = None, pr_policy_id = rq_policy_id rq, pr_policy_name = rq_policy_name rq,
      pr_policy_snapshot = rq_policy_snapshot rq,
      pr_validation_run = Option.bind opts co_validation_run,
      pr_created_at = 0, pr_updated_at = 0, pr_reboot_required = None,
      pr_win_updates = Option.bind opts co_win_updates, pr_win_apps = Option.bind opts co_win_apps\<rparr>"

definition create_run :: "env \<Rightarrow> run_request \<Rightarrow> create_opts option \<Rightarrow> string store_op" where
  "create_run e rq opts =
     (let params = new_create_patch_run_params e rq opts;
          its = (case opts of Some c \<Rightarrow> co_items c | None \<Rightarrow> [])
      in if its = [] then
           then_op (map_err map_active_run_conflict (exec (create_patch_run e params))) (ret (pr_id params))
         else in_tx e
           (then_op (map_err map_active_run_conflict (exec (create_patch_run e params)))
              (then_op (insert_run_items e (pr_id params) (rq_host rq) its) (ret (pr_id params)))))"

definition no_opts :: create_opts where
  "no_opts = \<lparr>co_validation_run = None, co_approved_by = None, co_initial_status = [], co_items = [],
     co_win_updates = None, co_win_apps = None\<rparr>"

definition approve_opts :: "string \<Rightarrow> string option \<Rightarrow> create_opts option \<Rightarrow> create_opts" where
  "approve_opts validation approver opts =
     (case opts of Some c \<Rightarrow> c | None \<Rightarrow> no_opts)
       \<lparr>co_validation_run := Some validation, co_approved_by := approver, co_initial_status := []\<rparr>"

definition approve_and_create_run ::
  "env \<Rightarrow> string \<Rightarrow> string option \<Rightarrow> run_request \<Rightarrow> create_opts option \<Rightarrow> unit store_op" where
  "approve_and_create_run e validation approver rq opts =
     (let run_opts = approve_opts validation approver opts;
          params = new_create_patch_run_params e (rq\<lparr>rq_dry_run := False\<rparr>) (Some run_opts)
      in in_tx e
        (bind_op (exec_rows (mark_validation_approved e validation approver)) (\<lambda>n.
           if n = 0 then throw ErrValidationNotApprovable
           else then_op (map_err map_active_run_conflict (exec (create_patch_run e params)))
                  (insert_run_items e (pr_id params) (rq_host rq) (co_items run_opts)))))"

definition get_run :: "env \<Rightarrow> string \<Rightarrow> patch_run option store_op" where
  "get_run e rid = query_op (get_patch_run e rid)"

section \<open>Agent reports\<close>

text \<open>\<open>_ = q.UpdatePatchRunPackagesAffected(...)\<close>: a failure is ignored.\<close>

definition ignore_err :: "'a store_op \<Rightarrow> unit store_op" where
  "ignore_err op db = (Inr (), snd (op db))"

definition record_affected :: "env \<Rightarrow> string \<Rightarrow> string list \<Rightarrow> unit store_op" where
  "record_affected e rid pkgs =
     (if pkgs = [] then ret ()
      else ignore_err (exec_rows (update_packages_affected e rid (Some pkgs))))"

definition start_report :: "env \<Rightarrow> string \<Rightarrow> bool store_op" where
  "start_report e rid =
     then_op (map_err map_active_run_conflict (exec_rows (update_patch_run_started e rid))) (ret False)"

definition progress_report :: "env \<Rightarrow> string \<Rightarrow> string \<Rightarrow> bool store_op" where
  "progress_report e rid out =
     (if out = [] then ret False
      else then_op (exec_rows (update_patch_run_progress e rid out)) (ret False))"

text \<open>\<open>UpdateOutput\<close> for hosts that are not Windows hosts.\<close>

definition update_posix_output ::
  "env \<Rightarrow> string \<Rightarrow> string \<Rightarrow> string \<Rightarrow> string \<Rightarrow> string \<Rightarrow> bool store_op" where
  "update_posix_output e rid os stage out msg =
     (if stage = ''started'' then start_report e rid
      else if stage = ''progress'' then progress_report e rid out
      else if stage = ''completed'' then
        bind_op (exec_rows (update_patch_run_completed e rid out None)) (\<lambda>n.
          then_op (record_affected e rid (parse_real_output os out)) (ret (n > 0)))
      else if stage = ''dry_run_completed'' then
        (case parse_dry_run_output os out of
           None \<Rightarrow> throw Panic
         | Some pkgs \<Rightarrow>
             then_op (exec_rows (update_patch_run_validated e rid out (if pkgs = [] then None else Some pkgs) None))
               (ret False))
      else if stage = ''failed'' then
        bind_op (exec_rows (update_patch_run_failed e rid out (Some msg))) (\<lambda>n. ret (n > 0))
      else if stage = ''cancelled'' then
        bind_op (exec_rows (update_patch_run_cancelled e rid out (non_empty msg))) (\<lambda>n.
          let finish = then_op (record_affected e rid (parse_real_output os out)) (ret True)
          in if n = 0 then
               bind_op (exec_rows (update_patch_run_cancelled_output e rid out (non_empty msg))) (\<lambda>k.
                 if k = 0 then ret False else finish)
             else finish)
      else ret False)"

text \<open>\<open>affected()\<close> of \<open>updateWindowsOutput\<close>: the titles of the stage's items, \<open>None\<close> when there are none.\<close>

definition windows_affected :: "env \<Rightarrow> string \<Rightarrow> string \<Rightarrow> string list option store_op" where
  "windows_affected e rid stage =
     bind_op (list_items e rid) (\<lambda>its.
       let pkgs = windows_packages_affected stage its in ret (if pkgs = [] then None else Some pkgs))"

text \<open>An error after the run has ended is returned beside \<open>true\<close>.\<close>

definition with_true :: "unit store_op \<Rightarrow> (bool \<times> store_error option) store_op" where
  "with_true op db = (case op db of (Inl err, db') \<Rightarrow> (Inr (True, Some err), db') | (Inr _, db') \<Rightarrow> (Inr (True, None), db'))"

definition plain :: "bool store_op \<Rightarrow> (bool \<times> store_error option) store_op" where
  "plain op = bind_op op (\<lambda>b. ret (b, None))"

definition windows_terminal :: "env \<Rightarrow> string \<Rightarrow> string \<Rightarrow> nat store_op \<Rightarrow> (bool \<times> store_error option) store_op" where
  "windows_terminal e rid stage transition =
     bind_op transition (\<lambda>n.
       if n = 0 then ret (False, None)
       else with_true (bind_op (windows_affected e rid stage) (\<lambda>b.
              case b of
                None \<Rightarrow> ret ()
              | Some pkgs \<Rightarrow> then_op (exec_rows (update_packages_affected e rid (Some pkgs))) (ret ()))))"

definition update_windows_output ::
  "env \<Rightarrow> string \<Rightarrow> string \<Rightarrow> string \<Rightarrow> string \<Rightarrow> (bool \<times> store_error option) store_op" where
  "update_windows_output e rid stage out msg =
     (if stage = ''started'' then plain (start_report e rid)
      else if stage = ''progress'' then plain (progress_report e rid out)
      else if stage = ''dry_run_completed'' then
        plain (bind_op (windows_affected e rid stage) (\<lambda>b.
          then_op (exec_rows (update_patch_run_validated e rid out b (non_empty msg))) (ret False)))
      else if stage = ''completed'' then
        windows_terminal e rid stage (exec_rows (update_patch_run_completed e rid out (non_empty msg)))
      else if stage = ''failed'' then
        windows_terminal e rid stage (exec_rows (update_patch_run_failed e rid out (Some msg)))
      else if stage = ''cancelled'' then
        windows_terminal e rid stage
          (bind_op (exec_rows (update_patch_run_cancelled e rid out (non_empty msg))) (\<lambda>n.
             if n = 0 then exec_rows (update_patch_run_cancelled_output e rid out (non_empty msg)) else ret n))
      else ret (False, None))"

text \<open>\<open>UpdateOutput\<close>: the flag, the error if any, and the new state.\<close>

definition update_output ::
  "env \<Rightarrow> string \<Rightarrow> string \<Rightarrow> string \<Rightarrow> string \<Rightarrow> string \<Rightarrow> store_db \<Rightarrow> (bool \<times> store_error option) \<times> store_db" where
  "update_output e rid os stage out msg db =
     (case (if is_windows_os_type os then update_windows_output e rid stage out msg
            else plain (update_posix_output e rid os stage out msg)) db of
        (Inl err, db') \<Rightarrow> ((False, Some err), db')
      | (Inr r, db') \<Rightarrow> (r, db'))"

section \<open>Scheduling, stopping, sweeping\<close>

definition activate_scheduled_run :: "env \<Rightarrow> string \<Rightarrow> bool store_op" where
  "activate_scheduled_run e rid =
     bind_op (map_err map_active_run_conflict (exec_rows (activate_scheduled e rid))) (\<lambda>n. ret (n > 0))"

definition skip_scheduled_run :: "env \<Rightarrow> string \<Rightarrow> string \<Rightarrow> unit store_op" where
  "skip_scheduled_run e rid reason = then_op (exec_rows (skip_scheduled e rid (Some reason))) (ret ())"

definition requeue :: "env \<Rightarrow> string \<Rightarrow> string \<Rightarrow> bool store_op" where
  "requeue e rid status = bind_op (exec_rows (requeue_patch_run e rid status)) (\<lambda>n. ret (n > 0))"

definition mark_dispatched :: "env \<Rightarrow> string \<Rightarrow> unit store_op" where
  "mark_dispatched e rid = then_op (exec_rows (mark_patch_run_dispatched e rid)) (ret ())"

definition cancel_run :: "env \<Rightarrow> string \<Rightarrow> string \<Rightarrow> nat store_op" where
  "cancel_run e rid msg = exec_rows (mark_cancelled_by_user e rid (non_empty msg))"

definition mark_host_disconnected :: "env \<Rightarrow> string \<Rightarrow> string \<Rightarrow> nat store_op" where
  "mark_host_disconnected e host msg = exec_rows (mark_runs_agent_disconnected e host (non_empty msg))"

definition set_run_policy_snapshot ::
  "env \<Rightarrow> string \<Rightarrow> string option \<Rightarrow> string option \<Rightarrow> string option \<Rightarrow> unit store_op" where
  "set_run_policy_snapshot e rid policy name snapshot =
     then_op (exec_rows (set_policy_snapshot e rid policy name snapshot)) (ret ())"

definition set_run_scheduled_at :: "env \<Rightarrow> string \<Rightarrow> int \<Rightarrow> unit store_op" where
  "set_run_scheduled_at e rid t = then_op (exec_rows (set_scheduled_at e rid (Some t))) (ret ())"

definition clear_run_scheduled_at :: "env \<Rightarrow> string \<Rightarrow> unit store_op" where
  "clear_run_scheduled_at e rid = then_op (exec_rows (clear_scheduled_at e rid)) (ret ())"

definition delete_run :: "env \<Rightarrow> string \<Rightarrow> unit store_op" where
  "delete_run e rid = exec (delete_patch_run e rid)"

section \<open>Every operation\<close>

datatype run_op =
    OpCreate run_request "create_opts option"
  | OpApprove string "string option" run_request "create_opts option"
  | OpReport string string string string string
  | OpItems string string bool "agent_item list"
  | OpReplaceItems string string "new_item list"
  | OpAbortItems "string list" string
  | OpFail string string
  | OpReboot string bool
  | OpActivate string
  | OpSkip string string
  | OpRequeue string bool
  | OpDispatched string
  | OpCancel string string
  | OpDisconnected string string
  | OpTimedOut "string option" int
  | OpUndispatched "string option" int
  | OpPolicy string "string option" "string option" "string option"
  | OpScheduledAt string int
  | OpClearScheduled string
  | OpDelete string

text \<open>The state after an operation, whatever it returned; \<open>OpRequeue\<close>'s flag is the task's \<open>DryRun\<close>.\<close>

fun exec_op :: "env \<Rightarrow> (string \<Rightarrow> string option) \<Rightarrow> run_op \<Rightarrow> store_db \<Rightarrow> store_db" where
  "exec_op e tm (OpCreate rq opts) db = snd (create_run e rq opts db)"
| "exec_op e tm (OpApprove v a rq opts) db = snd (approve_and_create_run e v a rq opts db)"
| "exec_op e tm (OpReport rid os stage out msg) db = snd (update_output e rid os stage out msg db)"
| "exec_op e tm (OpItems rid host allow its) db = snd (record_agent_items e tm rid host allow its db)"
| "exec_op e tm (OpReplaceItems rid host its) db = snd (replace_items e rid host its db)"
| "exec_op e tm (OpAbortItems ids msg) db = snd (abort_items e ids msg db)"
| "exec_op e tm (OpFail rid msg) db = snd (fail_run e rid msg db)"
| "exec_op e tm (OpReboot rid b) db = snd (set_run_reboot_required e rid b db)"
| "exec_op e tm (OpActivate rid) db = snd (activate_scheduled_run e rid db)"
| "exec_op e tm (OpSkip rid reason) db = snd (skip_scheduled_run e rid reason db)"
| "exec_op e tm (OpRequeue rid dry) db =
     snd (requeue e rid (if dry then ''pending_validation'' else ''queued'') db)"
| "exec_op e tm (OpDispatched rid) db = snd (mark_dispatched e rid db)"
| "exec_op e tm (OpCancel rid msg) db = snd (cancel_run e rid msg db)"
| "exec_op e tm (OpDisconnected host msg) db = snd (mark_host_disconnected e host msg db)"
| "exec_op e tm (OpTimedOut err before) db = snd (exec_rows (mark_runs_timed_out e err before) db)"
| "exec_op e tm (OpUndispatched err before) db = snd (exec_rows (mark_undispatched_timed_out e err before) db)"
| "exec_op e tm (OpPolicy rid p n s) db = snd (set_run_policy_snapshot e rid p n s db)"
| "exec_op e tm (OpScheduledAt rid t) db = snd (set_run_scheduled_at e rid t db)"
| "exec_op e tm (OpClearScheduled rid) db = snd (clear_run_scheduled_at e rid db)"
| "exec_op e tm (OpDelete rid) db = snd (delete_run e rid db)"

inductive reachable :: "store_db \<Rightarrow> bool" where
  reach_init: "reachable empty_db"
| reach_step: "reachable db \<Longrightarrow> reachable (exec_op e tm op db)"

section \<open>The constraints are kept\<close>

lemma snd_map_err [simp]: "snd (map_err f op db) = snd (op db)"
  by (auto simp: map_err_def split: prod.split sum.split)

lemma snd_with_true [simp]: "snd (with_true op db) = snd (op db)"
  by (auto simp: with_true_def split: prod.split sum.split)

context state_relation
begin

lemma within_map_err [keeps]: "within R op \<Longrightarrow> within R (map_err f op)"
  by (simp add: within_def)

lemma within_ignore_err [keeps]: "within R op \<Longrightarrow> within R (ignore_err op)"
  by (simp add: within_def ignore_err_def)

lemma within_with_true [keeps]: "within R op \<Longrightarrow> within R (with_true op)"
  by (simp add: within_def)

lemma within_plain [keeps]: "within R op \<Longrightarrow> within R (plain op)"
  unfolding plain_def by (intro within_bind within_ret)

lemma within_update_output:
  assumes "within R (update_windows_output e rid stage out msg)"
    and "within R (update_posix_output e rid os stage out msg)"
  shows "R db (snd (update_output e rid os stage out msg db))"
proof -
  let ?op = "if is_windows_os_type os then update_windows_output e rid stage out msg
             else plain (update_posix_output e rid os stage out msg)"
  have "within R ?op" using assms by (simp add: within_plain)
  moreover obtain r m where m: "?op db = (r, m)" by fastforce
  moreover have "snd (update_output e rid os stage out msg db) = m"
    using m unfolding update_output_def by (auto split: sum.splits)
  ultimately show ?thesis using withinD by metis
qed

end

lemmas statement_keeps [keeps] =
  st_approve.stmt_keeps st_validated.stmt_keeps st_started.stmt_keeps st_progress.stmt_keeps
  st_completed.stmt_keeps st_failed.stmt_keeps st_cancelled.stmt_keeps
  st_cancelled_output.stmt_keeps st_user_cancel.stmt_keeps st_affected.stmt_keeps
  st_activate.stmt_keeps st_skip.stmt_keeps st_requeue.stmt_keeps st_dispatched.stmt_keeps
  st_disconnected.stmt_keeps st_timed_out.stmt_keeps st_undispatched.stmt_keeps
  st_policy.stmt_keeps st_scheduled_at.stmt_keeps st_clear_scheduled.stmt_keeps
  st_reboot.stmt_keeps

lemma keeps_create_patch_run [keeps]: "within (kept db_inv) (exec (create_patch_run e params))"
  by (rule keeps_exec) (rule create_patch_run_inv)

lemma keeps_delete_run [keeps]: "within (kept db_inv) (delete_run e rid)"
  unfolding delete_run_def by (rule keeps_exec) (rule delete_patch_run_inv)

lemmas run_op_defs =
  create_run_def approve_and_create_run_def activate_scheduled_run_def skip_scheduled_run_def
  requeue_def mark_dispatched_def cancel_run_def mark_host_disconnected_def
  set_run_policy_snapshot_def set_run_scheduled_at_def clear_run_scheduled_at_def

lemmas report_defs =
  start_report_def progress_report_def record_affected_def windows_affected_def
  windows_terminal_def Let_def list_items_def

lemma keeps_posix [keeps]: "within (kept db_inv) (update_posix_output e rid os stage out msg)"
  unfolding update_posix_output_def report_defs by (intro keeps)

lemma keeps_windows [keeps]: "within (kept db_inv) (update_windows_output e rid stage out msg)"
  unfolding update_windows_output_def report_defs by (intro keeps)

lemma keeps_run_ops [keeps]:
  "within (kept db_inv) (create_run e rq opts)"
  "within (kept db_inv) (approve_and_create_run e v a rq opts)"
  "within (kept db_inv) (activate_scheduled_run e rid)"
  "within (kept db_inv) (skip_scheduled_run e rid reason)"
  "within (kept db_inv) (requeue e rid status)"
  "within (kept db_inv) (mark_dispatched e rid)"
  "within (kept db_inv) (cancel_run e rid msg)"
  "within (kept db_inv) (mark_host_disconnected e host msg)"
  "within (kept db_inv) (set_run_policy_snapshot e rid p n s)"
  "within (kept db_inv) (set_run_scheduled_at e rid t)"
  "within (kept db_inv) (clear_run_scheduled_at e rid)"
  unfolding run_op_defs Let_def by (intro keeps)+

lemma within_snd: "within R f \<Longrightarrow> R db (snd (f db))"
  by (simp add: within_def)

lemma exec_op_inv: "db_inv db \<Longrightarrow> db_inv (exec_op e tm op db)"
proof -
  have "kept db_inv db (exec_op e tm op db)"
  proof (cases op)
    case (OpReport rid os stage out msg)
    then show ?thesis by (simp add: kept.within_update_output keeps)
  qed (simp_all only: exec_op.simps, (rule within_snd, intro keeps)+)
  moreover assume "db_inv db"
  ultimately show ?thesis by (simp add: kept_def)
qed

section \<open>The life cycle of a run\<close>

text \<open>
  The abstract specification of a run's status.  The flag says whether a dry run report may be
  applied to the run: that statement has no status guard, so it leads from every status to
  \<open>validated\<close>.
\<close>

inductive run_life :: "bool \<Rightarrow> string \<Rightarrow> string \<Rightarrow> bool" where
  life_approve: "s \<in> {''validated'', ''pending_validation'', ''pending_approval''} \<Longrightarrow> run_life v s ''approved''"
| life_start: "s \<in> {''queued'', ''pending_validation'', ''running'', ''agent_disconnected''} \<Longrightarrow> run_life v s ''running''"
| life_finish: "s \<notin> {''cancelled'', ''completed'', ''failed'', ''validated'', ''dry_run_completed''}
    \<Longrightarrow> s' \<in> {''completed'', ''failed'', ''cancelled''} \<Longrightarrow> run_life v s s'"
| life_activate: "run_life v ''scheduled'' ''queued''"
| life_requeue: "s \<in> {''queued'', ''pending_validation''} \<Longrightarrow> s' \<in> {''queued'', ''pending_validation''} \<Longrightarrow> run_life v s s'"
| life_disconnect: "run_life v ''running'' ''agent_disconnected''"
| life_time_out: "s \<in> {''running'', ''scheduled'', ''queued'', ''pending_validation''} \<Longrightarrow> run_life v s ''timed_out''"
| life_validate: "run_life True s ''validated''"

inductive_cases run_life_falseE: "run_life False s s'"

definition life_rel :: "string set \<Rightarrow> store_db \<Rightarrow> store_db \<Rightarrow> bool" where
  "life_rel V db db' \<longleftrightarrow>
     (\<forall>rid s. status_of rid db = Some s \<longrightarrow>
        (\<exists>s'. status_of rid db' = Some s' \<and> (run_life (rid \<in> V))\<^sup>*\<^sup>* s s'))"

interpretation life: state_relation "life_rel V" for V
proof
  show "life_rel V db db" for db by (simp add: life_rel_def)
  show "life_rel V a c" if "life_rel V a b" and "life_rel V b c" for a b c
    using that unfolding life_rel_def by (meson rtranclp_trans)
qed

context run_statement
begin

lemma stmt_life:
  assumes "\<And>r. sel r \<Longrightarrow> (run_life (pr_id r \<in> V))\<^sup>*\<^sup>* (pr_status r) (pr_status (upd r))"
  shows "within (life_rel V) (exec_rows stmt)"
proof (rule life.within_exec_rows)
  fix db n db'
  assume st: "stmt db = Inr (n, db')"
  show "life_rel V db db'"
    unfolding life_rel_def
  proof (intro allI impI)
    fix rid s
    assume "status_of rid db = Some s"
    then obtain r where r: "find_run rid (runs db) = Some r" and s: "pr_status r = s"
      by (auto simp: status_of_def)
    then have "pr_id r = rid" by (simp add: find_run_Some)
    with assms [of r] s have "(run_life (rid \<in> V))\<^sup>*\<^sup>* s (pr_status (if sel r then upd r else r))" by auto
    with r stmt_status [OF st, of rid]
    show "\<exists>s'. status_of rid db' = Some s' \<and> (run_life (rid \<in> V))\<^sup>*\<^sup>* s s'" by simp
  qed
qed

end

lemma life_step: "run_life v s s' \<Longrightarrow> (run_life v)\<^sup>*\<^sup>* s s'"
  by blast

lemma report_life: "report_accepted s \<Longrightarrow> s' \<in> {''completed'', ''failed'', ''cancelled''} \<Longrightarrow> run_life v s s'"
  by (rule life_finish) (simp_all add: report_accepted_def)

lemma user_cancel_life:
  "s \<notin> {''cancelled'', ''timed_out'', ''completed'', ''failed'', ''validated'', ''dry_run_completed''}
     \<Longrightarrow> run_life v s ''cancelled''"
  by (rule life_finish) auto

lemma skip_life: "run_life v ''scheduled'' ''cancelled''"
  by (rule life_finish) auto

lemma stay_life [keeps]:
  "within (life_rel V) (exec_rows (update_patch_run_progress e rid chunk))"
  "within (life_rel V) (exec_rows (update_patch_run_cancelled_output e rid out err))"
  "within (life_rel V) (exec_rows (update_packages_affected e rid pkgs))"
  "within (life_rel V) (exec_rows (set_policy_snapshot e rid p n s))"
  "within (life_rel V) (exec_rows (set_scheduled_at e rid t))"
  "within (life_rel V) (exec_rows (clear_scheduled_at e rid))"
  "within (life_rel V) (exec_rows (set_reboot_required e rid b))"
  by (intro st_progress.stmt_life st_cancelled_output.stmt_life st_affected.stmt_life
      st_policy.stmt_life st_scheduled_at.stmt_life st_clear_scheduled.stmt_life
      st_reboot.stmt_life; simp)+

lemma approve_life [keeps]: "within (life_rel V) (exec_rows (mark_validation_approved e rid a))"
  by (rule st_approve.stmt_life) (auto simp: with_id_def intro: life_step life_approve)

lemma start_life [keeps]: "within (life_rel V) (exec_rows (update_patch_run_started e rid))"
  by (rule st_started.stmt_life) (auto simp: with_id_def intro: life_step life_start)

lemma dispatched_life [keeps]: "within (life_rel V) (exec_rows (mark_patch_run_dispatched e rid))"
  by (rule st_dispatched.stmt_life) (auto simp: with_id_def intro: life_step life_start)

lemma validated_life [keeps]:
  "rid \<in> V \<Longrightarrow> within (life_rel V) (exec_rows (update_patch_run_validated e rid out pkgs err))"
  by (rule st_validated.stmt_life) (auto simp: with_id_def intro: life_step life_validate)

lemma terminal_life [keeps]:
  "within (life_rel V) (exec_rows (update_patch_run_completed e rid out err))"
  "within (life_rel V) (exec_rows (update_patch_run_failed e rid out err))"
  "within (life_rel V) (exec_rows (update_patch_run_cancelled e rid out err))"
  by (intro st_completed.stmt_life st_failed.stmt_life st_cancelled.stmt_life;
      auto simp: with_id_def intro!: life_step report_life)+

lemma user_cancel_stmt_life [keeps]: "within (life_rel V) (exec_rows (mark_cancelled_by_user e rid err))"
  by (rule st_user_cancel.stmt_life) (auto simp: with_id_def intro!: life_step user_cancel_life)

lemma schedule_life [keeps]:
  "within (life_rel V) (exec_rows (activate_scheduled e rid))"
  "within (life_rel V) (exec_rows (skip_scheduled e rid err))"
  by (intro st_activate.stmt_life st_skip.stmt_life;
      auto simp: with_id_def intro: life_step life_activate skip_life)+

lemma requeue_life [keeps]:
  "status \<in> {''queued'', ''pending_validation''} \<Longrightarrow>
     within (life_rel V) (exec_rows (requeue_patch_run e rid status))"
  by (rule st_requeue.stmt_life) (auto simp: with_id_def intro: life_step life_requeue)

lemma sweep_life [keeps]:
  "within (life_rel V) (exec_rows (mark_runs_agent_disconnected e host err))"
  "within (life_rel V) (exec_rows (mark_runs_timed_out e err before))"
  "within (life_rel V) (exec_rows (mark_undispatched_timed_out e err before))"
  by (intro st_disconnected.stmt_life st_timed_out.stmt_life st_undispatched.stmt_life;
      auto simp: stalled_def undispatched_def intro: life_step life_disconnect life_time_out)+

lemma life_same_runs:
  "(\<And>db db'. q db = Inr db' \<Longrightarrow> runs db' = runs db) \<Longrightarrow> within (life_rel V) (exec q)"
  by (rule life.within_exec) (auto simp: life_rel_def status_of_def)

lemma create_life [keeps]: "within (life_rel V) (exec (create_patch_run e params))"
proof (rule life.within_exec)
  fix db db'
  assume "create_patch_run e params db = Inr db'"
  then have "runs db' = runs db @ [params\<lparr>pr_created_at := now e, pr_updated_at := now e\<rparr>]"
    by (auto dest: create_patch_run_Inr)
  then show "life_rel V db db'"
    by (auto simp: life_rel_def status_of_def find_run_append)
qed

lemma insert_run_items_life [keeps]: "within (life_rel V) (insert_run_items e run host its)"
  unfolding insert_run_items_def by (intro keeps life_same_runs) (rule insert_patch_run_items_runs)

lemma items_life [keeps]:
  "within (life_rel V) (abort_items e ids msg)"
  "within (life_rel V) (replace_items e run host its)"
  unfolding abort_items_def replace_items_def
  by (intro keeps life_same_runs, auto dest: abort_pending_items_Inr delete_items_runs)+

lemma record_items_life [keeps]: "within (life_rel V) (record_agent_items e tm run host allow its)"
  unfolding record_agent_items_def record_rows_def Let_def case_prod_beta
  by (split sum.split) (auto intro!: keeps life.within_exec_rows life_same_runs
      simp: life_rel_def status_of_def upsert_items_from_agent_runs update_items_from_agent_runs)

lemma posix_life:
  "(stage = ''dry_run_completed'' \<Longrightarrow> rid \<in> V)
     \<Longrightarrow> within (life_rel V) (update_posix_output e rid os stage out msg)"
  unfolding update_posix_output_def report_defs by (intro keeps) simp_all

lemma windows_life:
  "(stage = ''dry_run_completed'' \<Longrightarrow> rid \<in> V)
     \<Longrightarrow> within (life_rel V) (update_windows_output e rid stage out msg)"
  unfolding update_windows_output_def report_defs by (intro keeps) simp_all

lemma ops_life [keeps]:
  "within (life_rel V) (create_run e rq opts)"
  "within (life_rel V) (approve_and_create_run e v a rq opts)"
  "within (life_rel V) (fail_run e rid msg)"
  "within (life_rel V) (set_run_reboot_required e rid b)"
  "within (life_rel V) (activate_scheduled_run e rid)"
  "within (life_rel V) (skip_scheduled_run e rid reason)"
  "within (life_rel V) (mark_dispatched e rid)"
  "within (life_rel V) (cancel_run e rid msg)"
  "within (life_rel V) (mark_host_disconnected e host msg)"
  "within (life_rel V) (set_run_policy_snapshot e rid p n s)"
  "within (life_rel V) (set_run_scheduled_at e rid t)"
  "within (life_rel V) (clear_run_scheduled_at e rid)"
  unfolding run_op_defs fail_run_def set_run_reboot_required_def Let_def by (intro keeps)+

lemma requeue_op_life [keeps]:
  "status \<in> {''queued'', ''pending_validation''} \<Longrightarrow> within (life_rel V) (requeue e rid status)"
  unfolding requeue_def by (intro keeps)

text \<open>The runs an operation may validate, and those it deletes.\<close>

fun validates :: "run_op \<Rightarrow> string set" where
  "validates (OpReport rid os stage out msg) = (if stage = ''dry_run_completed'' then {rid} else {})"
| "validates _ = {}"

fun deletes :: "run_op \<Rightarrow> string set" where
  "deletes (OpDelete rid) = {rid}"
| "deletes _ = {}"

lemma exec_op_life:
  assumes "deletes op = {}"
  shows "life_rel (validates op) db (exec_op e tm op db)"
proof (cases op)
  case (OpReport rid os stage out msg)
  then show ?thesis by (simp add: life.within_update_output posix_life windows_life)
next
  case (OpRequeue rid dry)
  then show ?thesis by (simp only: exec_op.simps) (rule within_snd, intro keeps, simp)
next
  case (OpDelete rid)
  with assms show ?thesis by simp
qed (simp_all only: exec_op.simps, (rule within_snd, intro keeps)+)

lemma delete_run_status:
  assumes "rid \<noteq> other"
  shows "status_of rid (snd (delete_run e other db)) = status_of rid db"
  using assms
  by (auto simp: delete_run_def exec_def delete_patch_run_def guarded_def status_of_def
      find_run_update_where find_run_filter_other option.map_comp comp_def if_distrib
      cong: if_cong split: sum.splits)

lemma exec_op_status:
  assumes "rid \<notin> deletes op" and s: "status_of rid db = Some s"
  shows "\<exists>s'. status_of rid (exec_op e tm op db) = Some s' \<and> (run_life (rid \<in> validates op))\<^sup>*\<^sup>* s s'"
proof (cases "deletes op = {}")
  case True
  with exec_op_life [OF True, of db e tm] s show ?thesis by (auto simp: life_rel_def)
next
  case False
  then obtain other where "op = OpDelete other" by (cases op) auto
  with assms show ?thesis by (simp add: delete_run_status)
qed

text \<open>A history: operations, each with the environment it met.\<close>

fun exec_ops :: "(string \<Rightarrow> string option) \<Rightarrow> (env \<times> run_op) list \<Rightarrow> store_db \<Rightarrow> store_db" where
  "exec_ops tm [] db = db"
| "exec_ops tm ((e, op) # ops) db = exec_ops tm ops (exec_op e tm op db)"

text \<open>Operations that neither delete a run nor report a dry run for it.\<close>

definition leaves_validation :: "string \<Rightarrow> (env \<times> run_op) list \<Rightarrow> bool" where
  "leaves_validation rid ops \<longleftrightarrow> list_all (\<lambda>(e, op). rid \<notin> deletes op \<and> rid \<notin> validates op) ops"

lemma exec_ops_closed:
  assumes closed: "\<And>s s'. s \<in> S \<Longrightarrow> run_life False s s' \<Longrightarrow> s' \<in> S"
    and "status_of rid db = Some s" and "s \<in> S" and "leaves_validation rid ops"
  shows "\<exists>s'. status_of rid (exec_ops tm ops db) = Some s' \<and> s' \<in> S"
  using assms(2-)
proof (induction ops arbitrary: db s)
  case (Cons eop ops)
  obtain e op where eop: "eop = (e, op)" by fastforce
  then have "rid \<notin> deletes op" and "rid \<notin> validates op" using Cons.prems by (auto simp: leaves_validation_def)
  then obtain s' where s': "status_of rid (exec_op e tm op db) = Some s'" and life: "(run_life False)\<^sup>*\<^sup>* s s'"
    using exec_op_status [of rid op db s e tm] Cons.prems by auto
  from life have "s' \<in> S"
    by (induction rule: rtranclp_induct) (auto intro: closed Cons.prems(2))
  with Cons.IH [OF s'] Cons.prems eop show ?case by (simp add: leaves_validation_def)
qed (auto simp: leaves_validation_def)

definition finished :: "string \<Rightarrow> bool" where
  "finished s \<longleftrightarrow> s \<in> {''completed'', ''failed'', ''cancelled''}"

lemma finished_final: "finished s \<Longrightarrow> \<not> run_life False s s'"
  by (auto simp: finished_def elim!: run_life_falseE)

lemma approved_closed:
  "s \<in> {''approved'', ''completed'', ''failed'', ''cancelled''} \<Longrightarrow> run_life False s s'
     \<Longrightarrow> s' \<in> {''approved'', ''completed'', ''failed'', ''cancelled''}"
  by (auto elim!: run_life_falseE)

section \<open>Approval\<close>

lemma find_run_in: "distinct (map pr_id t) \<Longrightarrow> r \<in> set t \<Longrightarrow> find_run (pr_id r) t = Some r"
  by (induction t) (auto simp: find_run_def)

lemma exec_ops_inv: "db_inv db \<Longrightarrow> db_inv (exec_ops tm ops db)"
  by (induction tm ops db rule: exec_ops.induct) (simp_all add: exec_op_inv)

text \<open>A statement guarded by id and status hits exactly the run, and only if the guard holds.\<close>

lemma with_id_none:
  assumes "db_inv db" and "status_of rid db = Some s" and "\<not> g s"
  shows "filter (with_id rid g) (runs db) = []"
  using assms by (auto simp: filter_empty_conv with_id_def db_inv_def status_of_def dest: find_run_in)

context run_statement
begin

lemma stmt_hits:
  assumes st: "stmt db = Inr (n, db')" and sel: "\<And>r. sel r \<longleftrightarrow> with_id rid g r"
    and pos: "0 < n" and iv: "db_inv db"
  shows "\<exists>r. find_run rid (runs db) = Some r \<and> g (pr_status r) \<and> find_run rid (runs db') = Some (upd r)"
proof -
  obtain r where r: "r \<in> set (runs db)" and s: "sel r"
    using stmt_count_pos [OF st] pos by blast
  then have "pr_id r = rid" and "g (pr_status r)" using sel by (auto simp: with_id_def)
  moreover have "find_run (pr_id r) (runs db) = Some r"
    using iv r by (simp add: db_inv_def find_run_in)
  ultimately show ?thesis using stmt_find [OF st, of rid] s by simp
qed

end

lemma map_err_Inr: "map_err f op db = (Inr x, db') \<longleftrightarrow> op db = (Inr x, db')"
  by (auto simp: map_err_def split: prod.splits sum.splits)

definition run_params :: "env \<Rightarrow> string \<Rightarrow> string option \<Rightarrow> run_request \<Rightarrow> create_opts option \<Rightarrow> patch_run" where
  "run_params e v a rq opts =
     new_create_patch_run_params e (rq\<lparr>rq_dry_run := False\<rparr>) (Some (approve_opts v a opts))"

lemma run_params_simps [simp]:
  "pr_validation_run (run_params e v a rq opts) = Some v"
  "pr_approved_by (run_params e v a rq opts) = a"
  "pr_dry_run (run_params e v a rq opts) = False"
  "pr_host (run_params e v a rq opts) = rq_host rq"
  "pr_output (run_params e v a rq opts) = []"
  "pr_status (run_params e v a rq opts) = (if rq_scheduled_at rq = None then ''queued'' else ''scheduled'')"
  by (simp_all add: run_params_def new_create_patch_run_params_def approve_opts_def initial_status_def)

lemma approve_Inr:
  assumes ap: "approve_and_create_run e v a rq opts db = (Inr (), db')" and iv: "db_inv db"
  shows "\<exists>r. find_run v (runs db) = Some r
      \<and> pr_status r \<in> {''validated'', ''pending_validation'', ''pending_approval''}"
    and "status_of v db' = Some ''approved''"
    and "find_run (pr_id (run_params e v a rq opts)) (runs db)= None"
    and "find_run (pr_id (run_params e v a rq opts)) (runs db')
      = Some ((run_params e v a rq opts)\<lparr>pr_created_at := now e, pr_updated_at := now e\<rparr>)"
    and "items db' = items db @ map (\<lambda>(k, n). pending_item (item_ids e k) (pr_id (run_params e v a rq opts)) (rq_host rq) n)
           (enumerate 0 (co_items (approve_opts v a opts)))"
proof -
  let ?p = "run_params e v a rq opts" and ?its = "co_items (approve_opts v a opts)"
  obtain n m1 m2 where mark: "mark_validation_approved e v a db = Inr (n, m1)" and n: "0 < n"
    and cr: "create_patch_run e ?p m1 = Inr m2"
    and ins: "insert_run_items e (pr_id ?p) (rq_host rq) ?its m2 = (Inr (), db')"
    using ap unfolding approve_and_create_run_def Let_def run_params_def [symmetric]
    by (auto simp: op_Inr map_err_Inr split: if_splits)
  obtain r where r: "find_run v (runs db) = Some r"
    "pr_status r \<in> {''validated'', ''pending_validation'', ''pending_approval''}"
    "find_run v (runs m1) = Some (r\<lparr>pr_status := ''approved'', pr_approved_by := a, pr_updated_at := now e\<rparr>)"
    using st_approve.stmt_hits [OF mark refl n iv] by blast
  have m2: "runs m2 = runs m1 @ [?p\<lparr>pr_created_at := now e, pr_updated_at := now e\<rparr>]"
    "items m2 = items m1" "pr_id ?p \<notin> set (map pr_id (runs m1))"
    using create_patch_run_Inr [OF cr] by auto
  have rs: "runs db' = runs m2" and its: "items db' = items m2 @ map (\<lambda>(k, n). pending_item (item_ids e k) (pr_id ?p) (rq_host rq) n) (enumerate 0 ?its)"
    using ins by (auto simp: insert_run_items_def exec_Inr insert_patch_run_items_def guarded_Inr
        insert_items_Inr split: if_splits)
  show "\<exists>r. find_run v (runs db) = Some r
      \<and> pr_status r \<in> {''validated'', ''pending_validation'', ''pending_approval''}" using r by blast
  show "status_of v db' = Some ''approved''"
    using r(3) by (simp add: status_of_def rs m2 find_run_append)
  show "find_run (pr_id ?p) (runs db) = None"
    using m2(3) st_approve.stmt_ids [OF mark] by (simp add: find_run_None_iff)
  show "find_run (pr_id ?p) (runs db') = Some (?p\<lparr>pr_created_at := now e, pr_updated_at := now e\<rparr>)"
    using m2 find_run_None_iff [of "pr_id ?p" "runs m1"] by (simp add: rs find_run_append)
  show "items db' = items db @ map (\<lambda>(k, n). pending_item (item_ids e k) (pr_id ?p) (rq_host rq) n) (enumerate 0 ?its)"
    using its m2 st_approve.stmt_items [OF mark] by simp
qed

lemma approve_refused:
  assumes iv: "db_inv db" and s: "status_of v db = Some s"
    and closed: "s \<in> {''approved'', ''completed'', ''failed'', ''cancelled''}"
  shows "\<exists>err. approve_and_create_run e v a rq opts db = (Inl err, db)"
    and "\<not> q_fails e QBegin \<Longrightarrow> \<not> q_fails e QMarkValidationApproved
      \<Longrightarrow> approve_and_create_run e v a rq opts db = (Inl ErrValidationNotApprovable, db)"
proof -
  have none: "filter (with_id v (\<lambda>s. s \<in> {''validated'', ''pending_validation'', ''pending_approval''})) (runs db) = []"
    by (rule with_id_none [OF iv s]) (use closed in auto)
  obtain r m where rm: "approve_and_create_run e v a rq opts db = (r, m)" by fastforce
  show "\<exists>err. approve_and_create_run e v a rq opts db = (Inl err, db)"
  proof (cases r)
    case (Inl err)
    with rm show ?thesis
      using in_tx_error unfolding approve_and_create_run_def Let_def by metis
  next
    case (Inr u)
    with rm s closed approve_Inr(1) [of e v a rq opts db m] iv show ?thesis
      by (auto simp: status_of_def)
  qed
  assume q: "\<not> q_fails e QBegin" "\<not> q_fails e QMarkValidationApproved"
  have "mark_validation_approved e v a db = Inr (0, db)"
    using none q(2) iv unfolding mark_validation_approved_def guarded_def update_runs_def Let_def
    by (simp add: db_inv_def)
  then show "approve_and_create_run e v a rq opts db = (Inl ErrValidationNotApprovable, db)"
    using q(1) by (simp add: approve_and_create_run_def Let_def in_tx_def bind_op_def exec_rows_def)
qed

section \<open>Reports that end a run\<close>

definition ended :: "string \<Rightarrow> string \<Rightarrow> string \<Rightarrow> store_db \<Rightarrow> bool" where
  "ended rid stage out db \<longleftrightarrow>
     (\<exists>r. find_run rid (runs db) = Some r \<and> pr_status r = stage \<and> pr_output r = out)"

lemma terminal_ended:
  assumes "db_inv db" and "0 < n"
  shows "update_patch_run_completed e rid out err db = Inr (n, m) \<Longrightarrow> ended rid ''completed'' out m"
    and "update_patch_run_failed e rid out err db = Inr (n, m) \<Longrightarrow> ended rid ''failed'' out m"
    and "update_patch_run_cancelled e rid out err db = Inr (n, m) \<Longrightarrow> ended rid ''cancelled'' out m"
    and "update_patch_run_cancelled_output e rid out err db = Inr (n, m) \<Longrightarrow> ended rid ''cancelled'' out m"
  using st_completed.stmt_hits [OF _ refl assms(2,1)] st_failed.stmt_hits [OF _ refl assms(2,1)]
    st_cancelled.stmt_hits [OF _ refl assms(2,1)] st_cancelled_output.stmt_hits [OF _ refl assms(2,1)]
  by (fastforce simp: ended_def)+

lemma affected_keeps_ended: "within (kept (ended rid stage out)) (exec_rows (update_packages_affected e r pkgs))"
proof (rule kept.within_exec_rows)
  fix db n db'
  assume st: "update_packages_affected e r pkgs db = Inr (n, db')"
  show "kept (ended rid stage out) db db'"
    unfolding kept_def ended_def
  proof
    assume "\<exists>x. find_run rid (runs db) = Some x \<and> pr_status x = stage \<and> pr_output x = out"
    then show "\<exists>x. find_run rid (runs db') = Some x \<and> pr_status x = stage \<and> pr_output x = out"
      using st_affected.stmt_find [OF st, of rid] by fastforce
  qed
qed

lemma record_affected_ended: "within (kept (ended rid stage out)) (record_affected e r pkgs)"
  unfolding record_affected_def by (intro keeps affected_keeps_ended)

lemma windows_terminal_true:
  assumes "windows_terminal e rid stage tr db = (Inr (True, err), db')"
  obtains n m where "tr db = (Inr n, m)" and "0 < n" and "kept (ended rid stage out) m db'"
proof -
  let ?tail = "bind_op (windows_affected e rid stage) (\<lambda>b. case b of None \<Rightarrow> ret ()
              | Some pkgs \<Rightarrow> then_op (exec_rows (update_packages_affected e rid (Some pkgs))) (ret ()))"
  obtain n m where "tr db = (Inr n, m)" and "0 < n" and t: "with_true ?tail m = (Inr (True, err), db')"
    using assms unfolding windows_terminal_def by (auto simp: bind_op_Inr split: if_splits)
  moreover have "within (kept (ended rid stage out)) (with_true ?tail)"
    unfolding windows_affected_def Let_def list_items_def by (intro keeps affected_keeps_ended)
  then have "kept (ended rid stage out) m db'" using t withinD by metis
  ultimately show thesis using that by blast
qed

lemma posix_true:
  assumes rep: "update_posix_output e rid os stage out msg db = (Inr True, db')" and iv: "db_inv db"
  shows "stage \<in> {''completed'', ''failed'', ''cancelled''} \<and> ended rid stage out db'"
proof -
  have fin: "then_op (record_affected e rid pkgs) (ret b) m = (Inr True, db') \<Longrightarrow> ended rid stage out m
      \<Longrightarrow> ended rid stage out db'" for pkgs b m
    using keptD [OF record_affected_ended] by (auto simp: then_op_Inr)
  have c: "stage \<in> {''completed'', ''failed'', ''cancelled''}"
    using rep unfolding update_posix_output_def
    by (auto simp: start_report_def progress_report_def then_op_Inr split: if_splits option.splits)
  consider "stage = ''completed''" | "stage = ''failed''" | "stage = ''cancelled''" using c by auto
  then show ?thesis
  proof cases
    case 1
    with rep obtain n m where "update_patch_run_completed e rid out None db = Inr (n, m)" "0 < n"
      "then_op (record_affected e rid (parse_real_output os out)) (ret (n > 0)) m = (Inr True, db')"
      by (auto simp: update_posix_output_def bind_op_Inr exec_rows_Inr then_op_Inr)
    with 1 fin terminal_ended(1) [OF iv] show ?thesis by blast
  next
    case 2
    with rep obtain n where "update_patch_run_failed e rid out (Some msg) db = Inr (n, db')" "0 < n"
      by (auto simp: update_posix_output_def bind_op_Inr exec_rows_Inr)
    with 2 terminal_ended(2) [OF iv] show ?thesis by blast
  next
    case 3
    with rep obtain n m where can: "update_patch_run_cancelled e rid out (non_empty msg) db = Inr (n, m)"
      and rest: "(if n = 0 then
               bind_op (exec_rows (update_patch_run_cancelled_output e rid out (non_empty msg))) (\<lambda>k.
                 if k = 0 then ret False else then_op (record_affected e rid (parse_real_output os out)) (ret True))
             else then_op (record_affected e rid (parse_real_output os out)) (ret True)) m = (Inr True, db')"
      by (auto simp: update_posix_output_def bind_op_Inr exec_rows_Inr Let_def)
    show ?thesis
    proof (cases "n = 0")
      case True
      with rest obtain k m' where "update_patch_run_cancelled_output e rid out (non_empty msg) m = Inr (k, m')"
        "0 < k" "then_op (record_affected e rid (parse_real_output os out)) (ret True) m' = (Inr True, db')"
        by (auto simp: bind_op_Inr exec_rows_Inr split: if_splits)
      with 3 fin terminal_ended(4) [OF st_cancelled.stmt_inv [OF can iv]] show ?thesis by blast
    next
      case False
      with rest 3 fin terminal_ended(3) [OF iv _ can] show ?thesis by simp
    qed
  qed
qed

lemma windows_true:
  assumes rep: "update_windows_output e rid stage out msg db = (Inr (True, err), db')" and iv: "db_inv db"
  shows "stage \<in> {''completed'', ''failed'', ''cancelled''} \<and> ended rid stage out db'"
proof -
  have c: "stage \<in> {''completed'', ''failed'', ''cancelled''}"
    using rep unfolding update_windows_output_def
    by (auto simp: start_report_def progress_report_def then_op_Inr bind_op_Inr plain_def Let_def
        split: if_splits)
  have one: "tr db = (Inr n, m) \<Longrightarrow> 0 < n \<Longrightarrow> ended rid stage out m" if
    "tr = (if stage = ''completed'' then exec_rows (update_patch_run_completed e rid out (non_empty msg))
       else if stage = ''failed'' then exec_rows (update_patch_run_failed e rid out (Some msg))
       else bind_op (exec_rows (update_patch_run_cancelled e rid out (non_empty msg))) (\<lambda>n.
             if n = 0 then exec_rows (update_patch_run_cancelled_output e rid out (non_empty msg)) else ret n))"
    for tr n m
    using that c terminal_ended [OF iv] terminal_ended(4) [OF st_cancelled.stmt_inv [OF _ iv]]
    by (auto simp: exec_rows_Inr bind_op_Inr split: if_splits)
  obtain tr where tr: "tr = (if stage = ''completed'' then exec_rows (update_patch_run_completed e rid out (non_empty msg))
       else if stage = ''failed'' then exec_rows (update_patch_run_failed e rid out (Some msg))
       else bind_op (exec_rows (update_patch_run_cancelled e rid out (non_empty msg))) (\<lambda>n.
             if n = 0 then exec_rows (update_patch_run_cancelled_output e rid out (non_empty msg)) else ret n))"
    and w: "windows_terminal e rid stage tr db = (Inr (True, err), db')"
    using rep c unfolding update_windows_output_def by auto
  from w show ?thesis
    by (rule windows_terminal_true [where out = out]) (use one [OF tr] c in \<open>auto simp: kept_def\<close>)
qed

section \<open>Windows and other hosts make the same transitions\<close>

definition skel :: "store_db \<Rightarrow> (string \<times> string \<times> string) list" where
  "skel db = map (\<lambda>r. (pr_id r, pr_host r, pr_status r)) (runs db)"

definition same_rows :: "db_error + nat \<times> store_db \<Rightarrow> db_error + nat \<times> store_db \<Rightarrow> bool" where
  "same_rows x y \<longleftrightarrow>
     (case x of
        Inl a \<Rightarrow> y = Inl a
      | Inr (n, m) \<Rightarrow> (\<exists>m'. y = Inr (n, m') \<and> skel m' = skel m))"

lemma one_active_skel:
  "map (\<lambda>r. (pr_id r, pr_host r, pr_status r)) s = map (\<lambda>r. (pr_id r, pr_host r, pr_status r)) t
     \<Longrightarrow> one_active_per_host s = one_active_per_host t"
proof -
  assume eq: "map (\<lambda>r. (pr_id r, pr_host r, pr_status r)) s = map (\<lambda>r. (pr_id r, pr_host r, pr_status r)) t"
  have hosts: "map pr_host (filter is_active u)
      = map (fst \<circ> snd) (filter (\<lambda>(i, h, st). st \<in> set active_statuses) (map (\<lambda>r. (pr_id r, pr_host r, pr_status r)) u))" for u
    by (induction u) (auto simp: is_active_def)
  show ?thesis unfolding one_active_per_host_def hosts eq ..
qed

lemma same_rows_update:
  assumes "\<And>r. (pr_id (u r), pr_host (u r), pr_status (u r)) = (pr_id (u' r), pr_host (u' r), pr_status (u' r))"
  shows "same_rows (guarded e q (update_runs p u) db) (guarded e q (update_runs p u') db)"
proof -
  have sk: "map (\<lambda>r. (pr_id r, pr_host r, pr_status r)) (update_where p u (runs db))
      = map (\<lambda>r. (pr_id r, pr_host r, pr_status r)) (update_where p u' (runs db))"
    using assms by (simp add: update_where_def)
  from one_active_skel [OF sk] sk show ?thesis
    by (simp add: same_rows_def guarded_def update_runs_def Let_def skel_def)
qed

lemma same_rows_reports:
  "same_rows (update_patch_run_completed e rid out err db) (update_patch_run_completed e rid out err' db)"
  "same_rows (update_patch_run_validated e rid out pkgs err db) (update_patch_run_validated e rid out pkgs' err' db)"
  unfolding update_patch_run_completed_def update_patch_run_validated_def
  by (rule same_rows_update, simp)+

lemma affected_skel: "update_packages_affected e rid pkgs db = Inr (n, m) \<Longrightarrow> skel m = skel db"
  using st_affected.stmt_result [of e rid pkgs db n m] by (simp add: skel_def update_where_def)

lemma record_affected_skel: "\<exists>m. record_affected e rid pkgs db = (Inr (), m) \<and> skel m = skel db"
  by (auto simp: record_affected_def ignore_err_def exec_rows_def affected_skel split: sum.split)

lemma affected_succeeds:
  assumes "\<not> q_fails e QPackagesAffected" and "one_active_per_host (runs db)"
  shows "\<exists>n m. update_packages_affected e rid pkgs db = Inr (n, m) \<and> skel m = skel db"
proof -
  have "map (\<lambda>r. (pr_id r, pr_host r, pr_status r)) (update_where (with_id rid any_status)
            (\<lambda>r. r\<lparr>pr_affected := pkgs, pr_updated_at := now e\<rparr>) (runs db))
      = map (\<lambda>r. (pr_id r, pr_host r, pr_status r)) (runs db)"
    by (simp add: update_where_def)
  from one_active_skel [OF this] this assms show ?thesis
    by (simp add: update_packages_affected_def guarded_def update_runs_def Let_def skel_def)
qed

lemma windows_tail:
  assumes "\<not> q_fails e QPackagesAffected" and "\<not> q_fails e QListItems" and "one_active_per_host (runs db)"
  shows "\<exists>m. with_true (bind_op (windows_affected e rid stage) (\<lambda>b. case b of None \<Rightarrow> ret ()
              | Some pkgs \<Rightarrow> then_op (exec_rows (update_packages_affected e rid (Some pkgs))) (ret ()))) db
           = (Inr (True, None), m) \<and> skel m = skel db"
proof -
  obtain b where b: "windows_affected e rid stage db = (Inr b, db)"
    using assms(2) by (simp add: windows_affected_def list_items_def query_op_def
        list_patch_run_items_def guarded_def bind_op_def Let_def)
  show ?thesis
  proof (cases b)
    case None
    with b show ?thesis by (simp add: with_true_def bind_op_def)
  next
    case (Some pkgs)
    obtain n m where "update_packages_affected e rid (Some pkgs) db = Inr (n, m)" "skel m = skel db"
      using affected_succeeds [OF assms(1,3), of rid "Some pkgs"] by blast
    with b Some show ?thesis by (simp add: with_true_def bind_op_def then_op_def exec_rows_def)
  qed
qed

definition observed :: "(bool \<times> store_error option) \<times> store_db \<Rightarrow> bool \<times> store_error option \<times> (string \<times> string \<times> string) list" where
  "observed r = (fst (fst r), snd (fst r), skel (snd r))"


lemma windows_terminal_obs:
  assumes q: "\<not> q_fails e QPackagesAffected" "\<not> q_fails e QListItems"
    and tr: "tr db = (Inr n, m)" and one: "one_active_per_host (runs m)"
  shows "\<exists>m'. windows_terminal e rid stage tr db = (Inr (n \<noteq> 0, None), m') \<and> skel m' = skel m"
  using windows_tail [OF q one, of rid stage] tr
  by (auto simp: windows_terminal_def bind_op_def)

lemma posix_tail: "\<exists>m'. then_op (record_affected e rid pkgs) (ret b) m = (Inr b, m') \<and> skel m' = skel m"
  using record_affected_skel [of e rid pkgs m] by (auto simp: then_op_def bind_op_def)

lemma bind_rows:
  "bind_op (exec_rows q) f db = (case q db of Inl err \<Rightarrow> (Inl (DbErr err), db) | Inr (n, m) \<Rightarrow> f n m)"
  by (auto simp: bind_op_def exec_rows_def split: sum.split)

lemma observed_cong: "skel m = skel m' \<Longrightarrow> observed (r, m) = observed (r, m')"
  by (simp add: observed_def)

lemma completed_same:
  assumes q: "\<not> q_fails e QPackagesAffected" "\<not> q_fails e QListItems"
    and w: "is_windows_os_type wos" and p: "\<not> is_windows_os_type pos"
  shows "observed (update_output e rid wos ''completed'' out msg db)
    = observed (update_output e rid pos ''completed'' out msg db)"
proof -
  note same = same_rows_reports(1) [of e rid out "non_empty msg" db None]
  show ?thesis
  proof (cases "update_patch_run_completed e rid out (non_empty msg) db")
    case (Inl err)
    with same w p show ?thesis
      by (simp add: same_rows_def update_output_def update_windows_output_def update_posix_output_def
          windows_terminal_def bind_rows plain_def bind_op_def exec_rows_def)
  next
    case (Inr nm)
    obtain n m where wm: "update_patch_run_completed e rid out (non_empty msg) db = Inr (n, m)"
      using Inr by (cases nm) auto
    obtain m' where pm: "update_patch_run_completed e rid out None db = Inr (n, m')" "skel m' = skel m"
      using same wm by (auto simp: same_rows_def)
    have tr: "exec_rows (update_patch_run_completed e rid out (non_empty msg)) db = (Inr n, m)"
      using wm by (simp add: exec_rows_def)
    have one: "one_active_per_host (runs m)"
      using st_completed.stmt_result [OF wm] by blast
    obtain w' where w': "windows_terminal e rid ''completed'' (exec_rows (update_patch_run_completed e rid out (non_empty msg))) db
        = (Inr (n \<noteq> 0, None), w')" "skel w' = skel m"
      by (rule exE [OF windows_terminal_obs [where tr = "exec_rows _" and db = db and stage = "''completed''" and rid = rid, OF q tr one]]) blast
    obtain p' where p': "then_op (record_affected e rid (parse_real_output pos out)) (ret (n > 0)) m' = (Inr (n > 0), p')"
      "skel p' = skel m'"
      using posix_tail [of e rid "parse_real_output pos out" "n > 0" m'] by blast
    have "update_output e rid wos ''completed'' out msg db = ((n \<noteq> 0, None), w')"
      using w w'(1) by (simp add: update_output_def update_windows_output_def)
    moreover have "update_output e rid pos ''completed'' out msg db = ((n > 0, None), p')"
      using p p'(1) pm(1) by (simp add: update_output_def update_posix_output_def bind_rows plain_def bind_op_def exec_rows_def)
    ultimately show ?thesis using w'(2) p'(2) pm(2) by (simp add: observed_def)
  qed
qed

lemma failed_same:
  assumes q: "\<not> q_fails e QPackagesAffected" "\<not> q_fails e QListItems"
    and w: "is_windows_os_type wos" and p: "\<not> is_windows_os_type pos"
  shows "observed (update_output e rid wos ''failed'' out msg db)
    = observed (update_output e rid pos ''failed'' out msg db)"
proof (cases "update_patch_run_failed e rid out (Some msg) db")
  case (Inl err)
  with w p show ?thesis
    by (simp add: update_output_def update_windows_output_def update_posix_output_def
        windows_terminal_def bind_rows plain_def bind_op_def exec_rows_def)
next
  case (Inr nm)
  obtain n m where wm: "update_patch_run_failed e rid out (Some msg) db = Inr (n, m)"
    using Inr by (cases nm) auto
  have tr: "exec_rows (update_patch_run_failed e rid out (Some msg)) db = (Inr n, m)"
    using wm by (simp add: exec_rows_def)
  have one: "one_active_per_host (runs m)"
    using st_failed.stmt_result [OF wm] by blast
  obtain w' where w': "windows_terminal e rid ''failed'' (exec_rows (update_patch_run_failed e rid out (Some msg))) db
      = (Inr (n \<noteq> 0, None), w')" "skel w' = skel m"
    by (rule exE [OF windows_terminal_obs [where tr = "exec_rows _" and db = db and stage = "''failed''" and rid = rid, OF q tr one]]) blast
  have "update_output e rid wos ''failed'' out msg db = ((n \<noteq> 0, None), w')"
    using w w'(1) by (simp add: update_output_def update_windows_output_def)
  moreover have "update_output e rid pos ''failed'' out msg db = ((n > 0, None), m)"
    using p wm by (simp add: update_output_def update_posix_output_def bind_rows plain_def bind_op_def exec_rows_def)
  ultimately show ?thesis using w'(2) by (simp add: observed_def)
qed

lemma dry_run_same:
  assumes q: "\<not> q_fails e QListItems"
    and w: "is_windows_os_type wos" and p: "\<not> is_windows_os_type pos"
    and pkgs: "parse_dry_run_output pos out = Some pkgs"
  shows "observed (update_output e rid wos ''dry_run_completed'' out msg db)
    = observed (update_output e rid pos ''dry_run_completed'' out msg db)"
proof -
  obtain b where b: "windows_affected e rid ''dry_run_completed'' db = (Inr b, db)"
    using q by (simp add: windows_affected_def list_items_def query_op_def
        list_patch_run_items_def guarded_def bind_op_def Let_def)
  have same: "same_rows (update_patch_run_validated e rid out b (non_empty msg) db)
     (update_patch_run_validated e rid out (if pkgs = [] then None else Some pkgs) None db)"
    by (rule same_rows_reports(2))
  have W: "update_output e rid wos ''dry_run_completed'' out msg db
      = (case update_patch_run_validated e rid out b (non_empty msg) db of
           Inl err \<Rightarrow> ((False, Some (DbErr err)), db) | Inr (n, m) \<Rightarrow> ((False, None), m))"
    using w b by (simp add: update_output_def update_windows_output_def plain_def bind_op_def then_op_def
        exec_rows_def split: sum.split)
  have P: "update_output e rid pos ''dry_run_completed'' out msg db
      = (case update_patch_run_validated e rid out (if pkgs = [] then None else Some pkgs) None db of
           Inl err \<Rightarrow> ((False, Some (DbErr err)), db) | Inr (n, m) \<Rightarrow> ((False, None), m))"
    using p pkgs by (simp add: update_output_def update_posix_output_def plain_def bind_op_def then_op_def
        exec_rows_def split: sum.split)
  show ?thesis
    unfolding W P using same
    by (cases "update_patch_run_validated e rid out b (non_empty msg) db")
      (auto simp: same_rows_def observed_def)
qed

lemma cancelled_same:
  assumes q: "\<not> q_fails e QPackagesAffected" "\<not> q_fails e QListItems"
    and w: "is_windows_os_type wos" and p: "\<not> is_windows_os_type pos"
  shows "observed (update_output e rid wos ''cancelled'' out msg db)
    = observed (update_output e rid pos ''cancelled'' out msg db)"
proof -
  let ?c = "exec_rows (update_patch_run_cancelled e rid out (non_empty msg))"
    and ?o = "exec_rows (update_patch_run_cancelled_output e rid out (non_empty msg))"
  let ?tr = "bind_op ?c (\<lambda>n. if n = 0 then ?o else ret n)"
  have W: "update_windows_output e rid ''cancelled'' out msg db = windows_terminal e rid ''cancelled'' ?tr db"
    by (simp add: update_windows_output_def)
  let ?fin = "then_op (record_affected e rid (parse_real_output pos out)) (ret True)"
  have P: "update_posix_output e rid pos ''cancelled'' out msg db
      = bind_op ?tr (\<lambda>k. if k = 0 then ret False else ?fin) db"
    by (auto simp: update_posix_output_def bind_op_def Let_def split: prod.split sum.split)
  obtain r m where rm: "?tr db = (r, m)" by fastforce
  show ?thesis
  proof (cases r)
    case (Inl err)
    with rm have "windows_terminal e rid ''cancelled'' ?tr db = (Inl err, m)"
      and "bind_op ?tr (\<lambda>k. if k = 0 then ret False else ?fin) db = (Inl err, m)"
      unfolding windows_terminal_def bind_op_def [of ?tr] by simp_all
    with w p W P show ?thesis by (simp add: update_output_def plain_def bind_op_def [of "update_posix_output e rid pos ''cancelled'' out msg"])
  next
    case (Inr n)
    with rm have tr: "?tr db = (Inr n, m)" by simp
    then have one: "one_active_per_host (runs m)"
      by (auto simp: bind_op_Inr exec_rows_Inr dest: st_cancelled.stmt_result st_cancelled_output.stmt_result
          split: if_splits)
    obtain w' where w': "windows_terminal e rid ''cancelled'' ?tr db = (Inr (n \<noteq> 0, None), w')" "skel w' = skel m"
      using windows_terminal_obs [where tr = ?tr and db = db and stage = "''cancelled''" and rid = rid, OF q tr one] by blast
    obtain p' where p': "?fin m = (Inr True, p')" "skel p' = skel m"
      using posix_tail [of e rid "parse_real_output pos out" True m] by blast
    have "bind_op ?tr (\<lambda>k. if k = 0 then ret False else ?fin) db = (if n = 0 then (Inr False, m) else (Inr True, p'))"
      using tr p'(1) unfolding bind_op_def [of ?tr] by simp
    with w p W P w' p'(2) show ?thesis
      by (simp add: update_output_def plain_def bind_op_def [of "update_posix_output e rid pos ''cancelled'' out msg"] observed_def)
  qed
qed

lemma other_stages_same:
  assumes "is_windows_os_type wos" and "\<not> is_windows_os_type pos"
    and "stage \<notin> {''completed'', ''failed'', ''cancelled'', ''dry_run_completed''}"
  shows "update_output e rid wos stage out msg db = update_output e rid pos stage out msg db"
  using assms by (auto simp: update_output_def update_windows_output_def update_posix_output_def plain_def bind_op_def
      split: prod.split sum.split)

section \<open>A sample approval\<close>

definition sample_request :: "string \<Rightarrow> run_request" where
  "sample_request rid =
     \<lparr>rq_id = rid, rq_host = ''h'', rq_job = ''j'', rq_type = ''patch_all'', rq_package_name = None,
      rq_package_names = [], rq_triggered_by = None, rq_dry_run = False, rq_scheduled_at = None,
      rq_policy_id = None, rq_policy_name = None, rq_policy_snapshot = None\<rparr>"

definition sample_approved :: "(store_error + unit) \<times> store_db" where
  "sample_approved = approve_and_create_run sample_env ''r'' (Some ''admin'') (sample_request ''n'') None
     (sample_db ''validated'')"

lemma sample_approved_ok: "fst sample_approved = Inr ()"
  by code_simp

lemma sample_approved_eq:
  "approve_and_create_run sample_env ''r'' (Some ''admin'') (sample_request ''n'') None (sample_db ''validated'')
     = (Inr (), snd sample_approved)"
  using sample_approved_ok unfolding sample_approved_def by (metis prod.collapse)

lemma sample_validated_inv: "db_inv (sample_db ''validated'')"
  by code_simp

section \<open>Properties\<close>

text \<open>
  Whatever sequence of store operations the server runs, under any database failures, no host
  ever has two queued, validating or running patch runs, run ids and item targets stay unique, and
  every item has a known kind and status.
\<close>

lemma reachable_inv:
  assumes "reachable db"
  shows "db_inv db"
  using assms
proof induction
  case reach_init
  show ?case by (simp add: db_inv_def empty_db_def one_active_per_host_def)
qed (rule exec_op_inv)

text \<open>
  C2: Every operation moves every run it does not delete along the run life cycle; only a dry run
  report for that very run may take the unguarded step to validated.
\<close>

theorem operations_follow_life_cycle:
  assumes "rid \<notin> deletes op" and "status_of rid db = Some s"
  shows "\<exists>s'. status_of rid (exec_op e tm op db) = Some s' \<and> (run_life (rid \<in> validates op))\<^sup>*\<^sup>* s s'"
  using assms by (rule exec_op_status)

theorem operations_follow_life_cycle_witness:
  "\<exists>s'. status_of ''r'' (exec_op sample_env (\<lambda>_. None) (OpDispatched ''r'') (sample_db ''queued'')) = Some s'
     \<and> (run_life False)\<^sup>*\<^sup>* ''queued'' s'"
proof -
  have s: "status_of ''r'' (sample_db ''queued'') = Some ''queued''" by code_simp
  show ?thesis
    using operations_follow_life_cycle [of "''r''" "OpDispatched ''r''", OF _ s] by simp
qed

text \<open>
  C3: A run that is completed, failed or cancelled keeps that status through any operations that
  neither delete it nor apply a dry run report to it.
\<close>

theorem finished_run_stays_finished:
  assumes "finished s" and "status_of rid db = Some s" and "leaves_validation rid ops"
  shows "status_of rid (exec_ops tm ops db) = Some s"
  using exec_ops_closed [of "{s}" rid db s ops tm] assms finished_final by blast

theorem finished_run_stays_finished_witness:
  "status_of ''r'' (exec_ops (\<lambda>_. None)
     [(sample_env, OpReport ''r'' ''ubuntu'' ''completed'' ''done'' ''''), (sample_env, OpDispatched ''r'')]
     (sample_db ''cancelled'')) = Some ''cancelled''"
  by (rule finished_run_stays_finished) (simp_all add: finished_def leaves_validation_def, code_simp)

text \<open>
  C1: An approval is consumed once: after a validation run has been approved, no later approval of
  it succeeds or changes anything, whatever happened in between, unless the run was deleted or
  validated again; without database failures it is refused as no longer awaiting approval.
\<close>

theorem approval_consumed_once:
  assumes iv: "db_inv db" and ap: "approve_and_create_run e v a rq opts db = (Inr (), db1)"
    and ops: "leaves_validation v ops"
  shows "\<exists>err. approve_and_create_run e' v a' rq' opts' (exec_ops tm ops db1) = (Inl err, exec_ops tm ops db1)
    \<and> (\<not> q_fails e' QBegin \<and> \<not> q_fails e' QMarkValidationApproved \<longrightarrow> err = ErrValidationNotApprovable)"
proof -
  have iv1: "db_inv db1" using keeps_run_ops(2) iv ap by (rule keptD)
  obtain s where s: "status_of v (exec_ops tm ops db1) = Some s"
    "s \<in> {''approved'', ''completed'', ''failed'', ''cancelled''}"
    using exec_ops_closed [of "{''approved'', ''completed'', ''failed'', ''cancelled''}" v db1 "''approved''" ops tm]
      approved_closed approve_Inr(2) [OF ap iv] ops by blast
  show ?thesis
    using approve_refused [OF exec_ops_inv [OF iv1] s, of e' a' rq' opts'] by auto
qed

theorem approval_consumed_once_witness:
  "\<exists>err. approve_and_create_run sample_env ''r'' None (sample_request ''m'') None
      (exec_ops (\<lambda>_. None) [(sample_env, OpReport ''n'' ''ubuntu'' ''started'' '''' '''')] (snd sample_approved))
    = (Inl err, exec_ops (\<lambda>_. None) [(sample_env, OpReport ''n'' ''ubuntu'' ''started'' '''' '''')] (snd sample_approved))"
proof -
  have "leaves_validation ''r'' [(sample_env, OpReport ''n'' ''ubuntu'' ''started'' '''' '''')]"
    by (simp add: leaves_validation_def)
  then show ?thesis
    using approval_consumed_once [OF sample_validated_inv sample_approved_eq] by blast
qed

text \<open>
  C4: Approving is atomic: a refused or failed approval, wherever it fails, changes nothing; a
  successful one marks an approvable validation run approved and, in the same step, creates a new
  run that is no dry run, is queued or scheduled, links back to the validation run and its
  approver, and owns exactly the given targets as pending items.
\<close>

theorem approval_atomic:
  assumes iv: "db_inv db" and ap: "approve_and_create_run e v a rq opts db = (r, db')"
  shows "(\<forall>err. r = Inl err \<longrightarrow> db' = db)
    \<and> (r = Inr () \<longrightarrow>
        (\<exists>old. find_run v (runs db) = Some old
           \<and> pr_status old \<in> {''validated'', ''pending_validation'', ''pending_approval''})
        \<and> status_of v db' = Some ''approved''
        \<and> (\<exists>new. find_run (pr_id new) (runs db) = None \<and> find_run (pr_id new) (runs db') = Some new
             \<and> pr_validation_run new = Some v \<and> pr_approved_by new = a \<and> \<not> pr_dry_run new
             \<and> pr_host new = rq_host rq \<and> pr_status new \<in> {''queued'', ''scheduled''}
             \<and> items db' = items db @ map (\<lambda>(k, n). pending_item (item_ids e k) (pr_id new) (rq_host rq) n)
                 (enumerate 0 (case opts of None \<Rightarrow> [] | Some c \<Rightarrow> co_items c))))"
proof (intro conjI allI impI)
  fix err
  assume "r = Inl err"
  with ap show "db' = db" unfolding approve_and_create_run_def Let_def by (blast dest: in_tx_error)
next
  assume "r = Inr ()"
  with ap have ok: "approve_and_create_run e v a rq opts db = (Inr (), db')" by simp
  let ?new = "(run_params e v a rq opts)\<lparr>pr_created_at := now e, pr_updated_at := now e\<rparr>"
  note facts = approve_Inr [OF ok iv]
  show "\<exists>old. find_run v (runs db) = Some old
      \<and> pr_status old \<in> {''validated'', ''pending_validation'', ''pending_approval''}" by (rule facts(1))
  show "status_of v db' = Some ''approved''" by (rule facts(2))
  have its: "co_items (approve_opts v a opts) = (case opts of None \<Rightarrow> [] | Some c \<Rightarrow> co_items c)"
    by (simp add: approve_opts_def no_opts_def split: option.split)
  show "\<exists>new. find_run (pr_id new) (runs db) = None \<and> find_run (pr_id new) (runs db') = Some new
             \<and> pr_validation_run new = Some v \<and> pr_approved_by new = a \<and> \<not> pr_dry_run new
             \<and> pr_host new = rq_host rq \<and> pr_status new \<in> {''queued'', ''scheduled''}
             \<and> items db' = items db @ map (\<lambda>(k, n). pending_item (item_ids e k) (pr_id new) (rq_host rq) n)
                 (enumerate 0 (case opts of None \<Rightarrow> [] | Some c \<Rightarrow> co_items c))"
    by (rule exI [of _ ?new]) (use facts(3-5) its in simp)
qed

theorem approval_atomic_witness: "status_of ''r'' (snd sample_approved) = Some ''approved''"
  using approval_atomic [OF sample_validated_inv sample_approved_eq] by blast

text \<open>The items and the id a new run gets, and when a host is busy.\<close>

definition new_run_items :: "create_opts option \<Rightarrow> new_item list" where
  "new_run_items opts = (case opts of Some c \<Rightarrow> co_items c | None \<Rightarrow> [])"

definition new_run_id :: "env \<Rightarrow> run_request \<Rightarrow> string" where
  "new_run_id e rq = (if rq_id rq = [] then fresh_id e else rq_id rq)"

definition host_busy :: "store_db \<Rightarrow> string \<Rightarrow> bool" where
  "host_busy db host \<longleftrightarrow> (\<exists>r \<in> set (runs db). is_active r \<and> pr_host r = host)"

lemma create_statement:
  assumes "one_active_per_host (runs db)"
  shows "map_err map_active_run_conflict (exec (create_patch_run e p)) db =
    (if q_fails e QCreatePatchRun then (Inl (DbErr (QueryFailed QCreatePatchRun)), db)
     else if pr_id p \<in> pr_id ` set (runs db) then (Inl (DbErr UniqueViolation), db)
     else if pr_status p \<in> set active_statuses \<and> host_busy db (pr_host p) then (Inl ErrHostHasActivePatchRun, db)
     else (Inr (), db\<lparr>runs := runs db @ [p\<lparr>pr_created_at := now e, pr_updated_at := now e\<rparr>]\<rparr>))"
proof -
  have "one_active_per_host (runs db @ [p\<lparr>pr_created_at := now e, pr_updated_at := now e\<rparr>])
      \<longleftrightarrow> \<not> (pr_status p \<in> set active_statuses \<and> host_busy db (pr_host p))"
    using assms unfolding one_active_per_host_def is_active_def host_busy_def by (auto simp: image_iff)
  then show ?thesis
    by (simp add: map_err_def exec_def create_patch_run_def guarded_def map_active_run_conflict_def Let_def)
qed

lemma map_enumerate:
  "(\<And>k n. f (g k n) = h n) \<Longrightarrow> map f (map (\<lambda>(k, n). g k n) (enumerate j xs)) = map h xs"
  by (induction xs arbitrary: j) simp_all

lemma insert_run_items_new:
  "insert_run_items e run host its db = (x, db') \<Longrightarrow>
     (case x of Inl err \<Rightarrow> db' = db \<and> (\<exists>q. err = DbErr q)
      | Inr _ \<Rightarrow> \<exists>new. db' = db\<lparr>items := items db @ new\<rparr> \<and> map it_run new = map (\<lambda>_. run) its
          \<and> map it_kind new = map ni_kind its \<and> map it_identifier new = map ni_identifier its)"
proof -
  assume run: "insert_run_items e run host its db = (x, db')"
  let ?new = "map (\<lambda>(k, n). pending_item (item_ids e k) run host n) (enumerate 0 its)"
  have fields: "map it_run ?new = map (\<lambda>_. run) its" "map it_kind ?new = map ni_kind its" "map it_identifier ?new = map ni_identifier its"
    by (rule map_enumerate; simp add: pending_item_def)+
  show ?thesis
  proof (cases "its = []")
    case True
    then show ?thesis using run by (auto simp: insert_run_items_def intro: exI [of _ "[]"])
  next
    case False
    then show ?thesis using run fields
      by (auto simp: insert_run_items_def exec_def insert_patch_run_items_def guarded_def insert_items_def Let_def
          split: if_splits intro!: exI [of _ ?new])
  qed
qed

text \<open>
  C5: Creating a run answers the busy error exactly when the run would be active, its host has an active run and
  the insert was reached with an unused id.  Every error leaves the store as it was, also when inserting the
  targets or the commit fails.  Otherwise exactly the new run and its targets are added, and the host was not busy
  if the run is active.
\<close>

theorem create_run_exclusive:
  assumes "db_inv db"
  shows "(fst (create_run e rq opts db) = Inl ErrHostHasActivePatchRun
      \<longleftrightarrow> initial_status rq opts \<in> set active_statuses \<and> host_busy db (rq_host rq) \<and> new_run_id e rq \<notin> pr_id ` set (runs db)
          \<and> \<not> q_fails e QCreatePatchRun \<and> (new_run_items opts = [] \<or> \<not> q_fails e QBegin))
    \<and> (case create_run e rq opts db of
        (Inl err, db') \<Rightarrow> db' = db
      | (Inr i, db') \<Rightarrow> i = new_run_id e rq \<and> (initial_status rq opts \<in> set active_statuses \<longrightarrow> \<not> host_busy db (rq_host rq))
          \<and> (\<exists>r new. db' = db\<lparr>runs := runs db @ [r], items := items db @ new\<rparr>
               \<and> pr_id r = new_run_id e rq \<and> pr_host r = rq_host rq \<and> pr_status r = initial_status rq opts
               \<and> map it_run new = map (\<lambda>_. new_run_id e rq) (new_run_items opts)
               \<and> map it_identifier new = map ni_identifier (new_run_items opts)))"
proof -
  let ?rid = "new_run_id e rq"
  let ?p = "new_create_patch_run_params e rq opts"
  let ?r = "?p\<lparr>pr_created_at := now e, pr_updated_at := now e\<rparr>"
  let ?insert = "map_err map_active_run_conflict (exec (create_patch_run e ?p))"
  have p: "pr_id ?p = ?rid" "pr_host ?p = rq_host rq" "pr_status ?p = initial_status rq opts"
    by (simp_all add: new_create_patch_run_params_def new_run_id_def)
  have one: "one_active_per_host (runs db)" using assms(1) by (simp add: db_inv_def)
  note insert = create_statement [OF one, of e ?p, unfolded p]
  have items: "(case opts of Some c \<Rightarrow> co_items c | None \<Rightarrow> []) = new_run_items opts" by (simp add: new_run_items_def)
  show ?thesis
  proof (cases "new_run_items opts = []")
    case True
    then have run: "create_run e rq opts = then_op ?insert (ret ?rid)"
      by (simp add: create_run_def items p Let_def)
    show ?thesis
      unfolding run then_op_def bind_op_def insert using True p
      by (auto intro!: exI [of _ ?r] exI [of _ "[]"])
  next
    case False
    let ?rest = "then_op (insert_run_items e ?rid (rq_host rq) (new_run_items opts)) (ret ?rid)"
    have run: "create_run e rq opts = in_tx e (then_op ?insert ?rest)"
      using False by (simp add: create_run_def items p Let_def)
    obtain x db2 where x: "insert_run_items e ?rid (rq_host rq) (new_run_items opts) (db\<lparr>runs := runs db @ [?r]\<rparr>) = (x, db2)"
      by fastforce
    note new = insert_run_items_new [OF x]
    have rest: "?rest (db\<lparr>runs := runs db @ [?r]\<rparr>) = (case x of Inl err \<Rightarrow> (Inl err, db2) | Inr _ \<Rightarrow> (Inr ?rid, db2))"
      by (simp add: then_op_def bind_op_def x split: sum.split)
    show ?thesis
    proof (cases x)
      case (Inl err)
      then show ?thesis
        unfolding run in_tx_def then_op_def [of ?insert] bind_op_def [of ?insert] insert using False new by (auto simp: rest)
    next
      case (Inr u)
      then obtain added where "db2 = db\<lparr>runs := runs db @ [?r], items := items db @ added\<rparr>"
          "map it_run added = map (\<lambda>_. ?rid) (new_run_items opts)"
          "map it_identifier added = map ni_identifier (new_run_items opts)"
        using new by auto
      then show ?thesis
        unfolding run in_tx_def then_op_def [of ?insert] bind_op_def [of ?insert] insert
        using False Inr p by (auto simp: rest intro!: exI [of _ ?r] exI [of _ added])
    qed
  qed
qed

theorem create_run_exclusive_witness:
  "create_run sample_env (sample_request ''n'') None (sample_db ''running'')
     = (Inl ErrHostHasActivePatchRun, sample_db ''running'')"
proof -
  have iv: "db_inv (sample_db ''running'')" by code_simp
  have "initial_status (sample_request ''n'') None \<in> set active_statuses" by code_simp
  moreover have "rq_id (sample_request ''n'') \<notin> pr_id ` set (runs (sample_db ''running''))" by code_simp
  moreover have "host_busy (sample_db ''running'') (rq_host (sample_request ''n''))" by code_simp
  moreover have "rq_id (sample_request ''n'') \<noteq> []" by code_simp
  ultimately show ?thesis
    using create_run_exclusive [OF iv, of sample_env "sample_request ''n''" None]
    by (cases "create_run sample_env (sample_request ''n'') None (sample_db ''running'')")
       (auto simp: sample_env_def new_run_items_def new_run_id_def)
qed

text \<open>
  A Windows host's report and any other host's make the same status transitions, with the same
  flag and error, when listing items and recording packages do not fail.
\<close>

lemma windows_and_posix_reports_agree:
  assumes "\<not> q_fails e QPackagesAffected" and "\<not> q_fails e QListItems"
    and "is_windows_os_type wos" and "\<not> is_windows_os_type pos"
  shows "observed (update_output e rid wos stage out msg db) = observed (update_output e rid pos stage out msg db)"
proof -
  obtain pkgs where "parse_dry_run_output pos out = Some pkgs"
    using parse_dry_run_output_Some by blast
  then show ?thesis
    using completed_same [OF assms] failed_same [OF assms] cancelled_same [OF assms]
      dry_run_same [OF assms(2-4)] other_stages_same [OF assms(3,4)]
    by (cases "stage \<in> {''completed'', ''failed'', ''cancelled'', ''dry_run_completed''}") auto
qed

lemma windows_and_posix_reports_agree_witness:
  "observed (update_output sample_env ''r'' ''windows'' ''completed'' ''done'' '''' (sample_db ''running''))
     = observed (update_output sample_env ''r'' ''ubuntu'' ''completed'' ''done'' '''' (sample_db ''running''))"
  by (rule windows_and_posix_reports_agree) code_simp+

text \<open>
  C6: When a report's flag says it ended a run, the stage was completed, failed or cancelled, the
  run now has exactly that status, and its stored output is the report's, nothing streamed before.
\<close>

theorem ending_report_is_recorded:
  assumes iv: "db_inv db" and rep: "update_output e rid os stage out msg db = ((True, err), db')"
  shows "finished stage
    \<and> (\<exists>r. find_run rid (runs db') = Some r \<and> pr_status r = stage \<and> pr_output r = out)"
proof -
  have "stage \<in> {''completed'', ''failed'', ''cancelled''} \<and> ended rid stage out db'"
  proof (cases "is_windows_os_type os")
    case True
    with rep have "update_windows_output e rid stage out msg db = (Inr (True, err), db')"
      by (auto simp: update_output_def split: sum.splits prod.splits)
    then show ?thesis using iv by (rule windows_true)
  next
    case False
    with rep have "update_posix_output e rid os stage out msg db = (Inr True, db')"
      by (auto simp: update_output_def plain_def bind_op_def split: sum.splits prod.splits)
    then show ?thesis using iv by (rule posix_true)
  qed
  then show ?thesis by (simp add: finished_def ended_def)
qed

theorem ending_report_is_recorded_witness:
  "finished ''completed''"
proof -
  have iv: "db_inv (sample_db ''running'')" by code_simp
  have "fst (update_output sample_env ''r'' ''windows'' ''completed'' ''done'' '''' (sample_db ''running'')) = (True, None)"
    by code_simp
  then show ?thesis
    using ending_report_is_recorded [OF iv, of sample_env "''r''" "''windows''" "''completed''" "''done''" "''''"]
    by (metis prod.collapse)
qed

text \<open>A statement that ends the run it is for changes exactly that run.\<close>

lemma ending_statement:
  assumes inv: "db_inv db" and r: "find_run rid (runs db) = Some r" and guard: "g (pr_status r)"
    and u: "\<And>r. \<not> is_active (u r) \<and> pr_id (u r) = pr_id r"
  shows "update_runs (with_id rid g) u db = Inr (1, db\<lparr>runs := update_where (with_id rid g) u (runs db)\<rparr>)"
    and "find_run rid (update_where (with_id rid g) u (runs db)) = Some (u r)"
proof -
  have "one_active_per_host (update_where (with_id rid g) u (runs db))"
    using inv u by (intro one_active_ending) (simp_all add: db_inv_def)
  moreover have "filter (with_id rid g) t = [r]" if "distinct (map pr_id t)" "find_run rid t = Some r" for t
    using that
  proof (induction t)
    case (Cons q t)
    have none: "filter (with_id rid g) t = []" if "rid \<notin> pr_id ` set t" using that by (auto simp: filter_empty_conv with_id_def)
    show ?case
    proof (cases "pr_id q = rid")
      case True
      then have "q = r" "with_id rid g q" using Cons.prems guard by (simp_all add: find_run_def with_id_def)
      then show ?thesis using none Cons.prems(1) True by auto
    next
      case False
      then show ?thesis using Cons by (simp add: find_run_def with_id_def)
    qed
  qed (simp add: find_run_def)
  ultimately show "update_runs (with_id rid g) u db = Inr (1, db\<lparr>runs := update_where (with_id rid g) u (runs db)\<rparr>)"
    using inv r by (simp add: update_runs_def Let_def db_inv_def)
  show "find_run rid (update_where (with_id rid g) u (runs db)) = Some (u r)"
    using r find_run_Some [OF r] guard u by (simp add: find_run_update_where with_id_def)
qed

lemma validated_effect:
  assumes "db_inv db" and "find_run rid (runs db) = Some r" and "\<not> q_fails e QValidated"
  shows "\<exists>db'. update_patch_run_validated e rid out affected err db = Inr (1, db') \<and> db_inv db'
    \<and> status_of rid db' = Some ''validated''"
proof -
  let ?u = "\<lambda>r. r\<lparr>pr_status := ''validated'', pr_output := out, pr_affected := affected,
    pr_error := coalesce err (pr_error r), pr_completed_at := Some (now e), pr_updated_at := now e\<rparr>"
  have u: "\<not> is_active (?u r) \<and> pr_id (?u r) = pr_id r" for r by (simp add: is_active_def active_statuses_def)
  note effect = ending_statement [OF assms(1,2), of any_status ?u, OF TrueI u]
  have run: "update_patch_run_validated e rid out affected err db
      = Inr (1, db\<lparr>runs := update_where (with_id rid any_status) ?u (runs db)\<rparr>)"
    using effect(1) assms(3) by (simp add: update_patch_run_validated_def guarded_def)
  then show ?thesis using effect(2) st_validated.stmt_inv [OF run assms(1)] by (simp add: status_of_def)
qed

lemma approval_effect:
  assumes "db_inv db" and "status_of rid db = Some ''validated''" and "\<not> q_fails e QMarkValidationApproved"
  shows "\<exists>db'. mark_validation_approved e rid approver db = Inr (1, db')"
proof -
  obtain r where r: "find_run rid (runs db) = Some r" "pr_status r = ''validated''" using assms(2) by (auto simp: status_of_def)
  have "update_runs (with_id rid (\<lambda>s. s \<in> {''validated'', ''pending_validation'', ''pending_approval''}))
      (\<lambda>r. r\<lparr>pr_status := ''approved'', pr_approved_by := approver, pr_updated_at := now e\<rparr>) db
    = Inr (1, db\<lparr>runs := update_where (with_id rid (\<lambda>s. s \<in> {''validated'', ''pending_validation'', ''pending_approval''}))
      (\<lambda>r. r\<lparr>pr_status := ''approved'', pr_approved_by := approver, pr_updated_at := now e\<rparr>) (runs db)\<rparr>)"
    by (rule ending_statement(1) [OF assms(1) r(1)]) (simp_all add: r(2) is_active_def active_statuses_def)
  then show ?thesis using assms(3) by (simp add: mark_validation_approved_def guarded_def)
qed

text \<open>
  C29: The dry run report has no status guard: on every host, whatever the stored run is, be it cancelled by a user,
  timed out or finished, and whatever the report's output, a dry run report that reaches the database leaves the run
  validated, and the approval then accepts it.
\<close>

theorem late_dry_run_report_revives_run:
  assumes "db_inv db" and "status_of rid db = Some s"
    and "\<not> q_fails e QValidated" and "\<not> q_fails e QListItems" and "\<not> q_fails e' QMarkValidationApproved"
  shows "\<exists>db'. update_output e rid os ''dry_run_completed'' out msg db = ((False, None), db')
    \<and> status_of rid db' = Some ''validated''
    \<and> (\<exists>db''. mark_validation_approved e' rid approver db' = Inr (1, db''))"
proof -
  obtain r where r: "find_run rid (runs db) = Some r" using assms(2) by (auto simp: status_of_def)
  have settled: ?thesis if "\<And>db'. update_patch_run_validated e rid out affected err db = Inr (1, db') \<Longrightarrow>
      update_output e rid os ''dry_run_completed'' out msg db = ((False, None), db')" for affected err
    using that validated_effect [OF assms(1) r assms(3), of out affected err] approval_effect assms(5) by blast
  show ?thesis
  proof (cases "is_windows_os_type os")
    case True
    obtain b where "windows_affected e rid ''dry_run_completed'' db = (Inr b, db)"
      using assms(4) by (simp add: windows_affected_def list_items_def query_op_def list_patch_run_items_def guarded_def
          bind_op_def Let_def)
    then show ?thesis using True
      by (intro settled [of b "non_empty msg"])
         (simp add: update_output_def update_windows_output_def plain_def bind_op_def then_op_def exec_rows_def)
  next
    case False
    obtain pkgs where "parse_dry_run_output os out = Some pkgs" using parse_dry_run_output_Some by blast
    then show ?thesis using False
      by (intro settled [of "if pkgs = [] then None else Some pkgs" None])
         (simp add: update_output_def update_posix_output_def plain_def bind_op_def then_op_def exec_rows_def)
  qed
qed

theorem late_dry_run_report_revives_run_witness:
  "status_of ''r'' (snd (cancel_run sample_env ''r'' ''Cancelled by user'' (sample_db ''running''))) = Some ''cancelled''
   \<and> (\<exists>db'. update_output sample_env ''r'' ''ubuntu'' ''dry_run_completed'' [] []
        (snd (cancel_run sample_env ''r'' ''Cancelled by user'' (sample_db ''running''))) = ((False, None), db')
      \<and> status_of ''r'' db' = Some ''validated'')"
proof -
  let ?db = "snd (cancel_run sample_env ''r'' ''Cancelled by user'' (sample_db ''running''))"
  have "db_inv ?db" and s: "status_of ''r'' ?db = Some ''cancelled''" by code_simp+
  then show ?thesis
    using late_dry_run_report_revives_run [of ?db "''r''" "''cancelled''" sample_env sample_env "''ubuntu''" "[]" "[]" None]
    by (auto simp: sample_env_def)
qed

text \<open>
  A completed report that the status guard rejects still rewrites the packages of the run on
  hosts that are not Windows hosts, where the Windows path leaves the run as it is.
\<close>

lemma rejected_report_rewrites_packages:
  "let report = (\<lambda>os. update_output sample_env ''r'' os ''completed''
                  ''Unpacking curl (8.5) over (8.4) ...'' '''' (sample_db ''cancelled''))
   in fst (report ''ubuntu'') = (False, None) \<and> fst (report ''windows'') = (False, None)
      \<and> snd (report ''windows'') = sample_db ''cancelled''
      \<and> map pr_affected (runs (snd (report ''ubuntu''))) = [Some [''curl'']]"
  by code_simp

end
