(* ===== verification/PatchTasks.thy ===== *)
theory PatchTasks
  imports PatchRuns
begin

text \<open>
  The code around the patch run store: the queue task that dispatches a run to its agent
  (\<open>internal/queue/jobs.go\<close>), the sweep for stalled runs (\<open>internal/queue/workers.go\<close>), and the
  handlers for agent reports, stopping and deleting a run (\<open>internal/handler/patching.go\<close>,
  \<open>patching_stream.go\<close>).

  The hosts table and the agent registry are outside the model: a run's host is described by the
  parameters of the operations (its OS type, its package manager, whether its agent is connected,
  whether a send succeeds).  Logging and metrics are left out.
\<close>

section \<open>Dispatching a run\<close>

record run_payload =
  rp_run :: string
  rp_type :: string
  rp_package_name :: "string option"
  rp_package_names :: "string list"
  rp_dry_run :: bool
  rp_reboot_if_required :: bool

text \<open>The message sent to the agent; \<open>None\<close> is a key the JSON object does not have.\<close>

record run_message =
  rm_run :: string
  rm_type :: string
  rm_dry_run :: bool
  rm_reboot_if_required :: bool
  rm_package_name :: "string option"
  rm_package_names :: "string list option"
  rm_targets :: "(string \<times> string) list option"
  rm_include_updates :: "bool option"
  rm_include_apps :: "bool option"

definition unset_or_true :: "bool option \<Rightarrow> bool" where
  "unset_or_true b \<longleftrightarrow> b \<noteq> Some False"

definition build_run_patch_message :: "run_payload \<Rightarrow> patch_run \<Rightarrow> bool \<Rightarrow> run_item list \<Rightarrow> run_message" where
  "build_run_patch_message p run windows pending =
     (let msg = \<lparr>rm_run = rp_run p, rm_type = rp_type p, rm_dry_run = rp_dry_run p,
                 rm_reboot_if_required = (rp_reboot_if_required p \<and> \<not> rp_dry_run p),
                 rm_package_name = None, rm_package_names = None, rm_targets = None,
                 rm_include_updates = None, rm_include_apps = None\<rparr>
      in if \<not> windows then
           msg\<lparr>rm_package_name := rp_package_name p,
               rm_package_names := (if rp_package_names p = [] then None else Some (rp_package_names p))\<rparr>
         else if rp_type p = ''patch_package'' then
           msg\<lparr>rm_targets := Some (map (\<lambda>i. (it_kind i, it_identifier i)) pending)\<rparr>
         else if rp_type p = ''patch_all'' then
           msg\<lparr>rm_include_updates := Some (unset_or_true (pr_win_updates run)),
               rm_include_apps := Some (unset_or_true (pr_win_apps run))\<rparr>
         else msg)"

definition dispatchable :: "run_item \<Rightarrow> bool" where
  "dispatchable i \<longleftrightarrow>
     it_kind i = ''wua'' \<and> is_valid_wua_guid (it_identifier i)
     \<or> it_kind i = ''winget'' \<and> is_valid_winget_id (it_identifier i)"

definition split_dispatchable_items :: "run_item list \<Rightarrow> run_item list \<times> string list" where
  "split_dispatchable_items its = (filter dispatchable its, map it_id (filter (Not \<circ> dispatchable) its))"

definition no_targets_message :: "nat \<Rightarrow> string" where
  "no_targets_message bad =
     (if bad = 0 then ''No patch targets: none of the selected updates or apps are pending on this host''
      else if bad = 1 then ''No valid patch targets: 1 item had an invalid identifier''
      else ''No valid patch targets: '' @ decimal bad @ '' items had an invalid identifier'')"

definition refuses_selected_patch :: "string option \<Rightarrow> string \<Rightarrow> bool" where
  "refuses_selected_patch package_manager patch_type \<longleftrightarrow>
     package_manager = Some ''pacman'' \<and> patch_type = ''patch_package''"

definition pacman_unsupported :: string where
  "pacman_unsupported = ''Arch Linux does not support partial upgrades, so PatchMon cannot patch selected packages on this host. Use Patch all.''"

definition scheduled_run_skipped_reason :: string where
  "scheduled_run_skipped_reason =
     ''Skipped: another patch run was in progress on this host when the scheduled window arrived''"

definition activate_if_scheduled :: "env \<Rightarrow> string \<Rightarrow> bool store_op" where
  "activate_if_scheduled e rid =
     bind_op (get_run e rid) (\<lambda>run.
       case run of
         None \<Rightarrow> ret True
       | Some r \<Rightarrow>
           if pr_status r \<noteq> ''scheduled'' then ret True
           else (\<lambda>db. case activate_scheduled_run e rid db of
               (Inl err, db') \<Rightarrow>
                 (if err = ErrHostHasActivePatchRun
                  then then_op (skip_scheduled_run e rid scheduled_run_skipped_reason) (ret False)
                  else throw err) db'
             | (Inr b, db') \<Rightarrow> ret b db'))"

text \<open>What a task did: nothing, put a retry in the queue, failed the run, or sent the message.\<close>

datatype task_outcome = TaskDropped | TaskRequeued string | TaskFailedRun | TaskSent run_message

definition retry_task_ids :: "string \<Rightarrow> string \<times> string" where
  "retry_task_ids rid = (let base = ''patch-run-'' @ rid @ ''-retry'' in (base, base @ ''-2''))"

definition next_retry_task_id :: "string \<Rightarrow> string \<Rightarrow> string" where
  "next_retry_task_id rid current =
     (let (a, b) = retry_task_ids rid in if current = a then b else a)"

definition requeue_offline :: "env \<Rightarrow> run_payload \<Rightarrow> string \<Rightarrow> task_outcome store_op" where
  "requeue_offline e p task_id = (\<lambda>db.
     case get_run e (rp_run p) db of
       (Inl err, db') \<Rightarrow> ret TaskDropped db'
     | (Inr None, db') \<Rightarrow> ret TaskDropped db'
     | (Inr (Some run), db') \<Rightarrow>
         let status = (if rp_dry_run p then ''pending_validation'' else ''queued'')
         in if pr_status run \<noteq> status \<and> pr_status run \<noteq> ''queued'' \<and> pr_status run \<noteq> ''pending_validation''
            then ret TaskDropped db'
            else bind_op (requeue e (rp_run p) status) (\<lambda>ok.
                   if ok then ret (TaskRequeued (next_retry_task_id (rp_run p) task_id))
                   else ret TaskDropped) db')"

definition send_run ::
  "env \<Rightarrow> run_payload \<Rightarrow> patch_run \<Rightarrow> bool \<Rightarrow> run_item list \<Rightarrow> bool \<Rightarrow> task_outcome store_op" where
  "send_run e p run windows pending send_ok =
     (if \<not> send_ok then throw SendFailed
      else then_op (ignore_err (mark_dispatched e (rp_run p)))
             (ret (TaskSent (build_run_patch_message p run windows pending))))"

definition dispatch_run ::
  "env \<Rightarrow> (string \<Rightarrow> string option) \<Rightarrow> (string \<Rightarrow> string option) \<Rightarrow> run_payload \<Rightarrow> bool \<Rightarrow> task_outcome store_op" where
  "dispatch_run e os_of pm_of p send_ok =
     bind_op (get_run e (rp_run p)) (\<lambda>found.
     case found of
       None \<Rightarrow> ret TaskDropped
     | Some run \<Rightarrow>
       if pr_status run \<noteq> ''queued'' \<and> pr_status run \<noteq> ''pending_validation'' then ret TaskDropped
       else if refuses_selected_patch (pm_of (pr_host run)) (pr_type run) then
         then_op (fail_run e (rp_run p) pacman_unsupported) (ret TaskFailedRun)
       else
         let windows = (case os_of (pr_host run) of None \<Rightarrow> False | Some os \<Rightarrow> is_windows_os_type os)
         in if windows \<and> rp_type p = ''patch_package'' then
              bind_op (list_pending e (rp_run p)) (\<lambda>listed.
                let (pending, bad) = split_dispatchable_items listed
                in then_op (abort_items e bad ''Invalid target identifier'')
                     (if pending = [] then
                        then_op (fail_run e (rp_run p) (no_targets_message (length bad))) (ret TaskFailedRun)
                      else send_run e p run windows pending send_ok))
            else send_run e p run windows [] send_ok)"

definition process_task ::
  "env \<Rightarrow> (string \<Rightarrow> string option) \<Rightarrow> (string \<Rightarrow> string option) \<Rightarrow> run_payload \<Rightarrow> string \<Rightarrow> bool \<Rightarrow> bool
     \<Rightarrow> task_outcome store_op" where
  "process_task e os_of pm_of p task_id connected send_ok =
     bind_op (activate_if_scheduled e (rp_run p)) (\<lambda>go.
       if \<not> go then ret TaskDropped
       else if \<not> connected then requeue_offline e p task_id
       else dispatch_run e os_of pm_of p send_ok)"

section \<open>The stall sweep\<close>

text \<open>Times are in seconds; \<open>None\<close> is a nil callback.\<close>

definition resolve_stall_timeout_min :: "int option \<Rightarrow> int" where
  "resolve_stall_timeout_min v = (case v of None \<Rightarrow> 30 | Some n \<Rightarrow> if n < 5 then 5 else n)"

definition undispatched_expiry :: int where "undispatched_expiry = 24 * 60 * 60"

text \<open>
  \<open>time.Now().Add(-time.Duration(stallMin) * time.Minute)\<close>.  The product is in nanoseconds and wraps; as the
  times of runs are whole seconds, the threshold is the first whole second not before it.
\<close>

definition stall_threshold :: "env \<Rightarrow> int \<Rightarrow> int" where
  "stall_threshold e stall_min = now e - (- go_minutes (- stall_min)) div 1000000000"

definition cleanup_db :: "env \<Rightarrow> int \<Rightarrow> unit store_op" where
  "cleanup_db e stall_min =
     bind_op (exec_rows (mark_runs_timed_out e
         (Some (''Marked as timed_out after '' @ decimal (nat stall_min) @ '' minutes with no progress from the agent''))
         (stall_threshold e stall_min))) (\<lambda>_.
       then_op (exec_rows (mark_undispatched_timed_out e
           (Some ''Marked as timed_out: the run was not dispatched to the agent within 24 hours of becoming due'')
           (now e - undispatched_expiry))) (ret ()))"

section \<open>Handlers\<close>

text \<open>The HTTP status a request is answered with.\<close>

type_synonym http = nat

definition is_terminal_patch_status :: "string \<Rightarrow> bool" where
  "is_terminal_patch_status s \<longleftrightarrow>
     s \<in> {''completed'', ''failed'', ''cancelled'', ''timed_out'', ''agent_disconnected'', ''validated'',
          ''dry_run_completed''}"

text \<open>
  \<open>StopRun\<close> from the read of the run on: \<open>e\<close> is the environment of the read, \<open>e2\<close> that of the update, and
  \<open>other\<close> what other requests do to the tables in between.  The answer and whether a stop signal
  was sent.
\<close>

definition stop_run ::
  "env \<Rightarrow> env \<Rightarrow> (store_db \<Rightarrow> store_db) \<Rightarrow> bool \<Rightarrow> bool \<Rightarrow> bool \<Rightarrow> string \<Rightarrow> store_db \<Rightarrow> (http \<times> bool) \<times> store_db" where
  "stop_run e e2 other host_known connected send_ok rid db =
     (case get_run e rid db of
        (Inl _, db) \<Rightarrow> ((404, False), db)
      | (Inr None, db) \<Rightarrow> ((404, False), db)
      | (Inr (Some run), db) \<Rightarrow>
          if is_terminal_patch_status (pr_status run) then ((409, False), db)
          else if \<not> host_known then ((404, False), db)
          else (case cancel_run e2 rid ''Cancelled by user'' (other db) of
                  (Inl _, db') \<Rightarrow> ((500, False), db')
                | (Inr n, db') \<Rightarrow> if n = 0 then ((409, False), db') else ((200, connected \<and> send_ok), db')))"

definition deletable_patch_run_statuses :: "string list" where
  "deletable_patch_run_statuses =
     [''queued'', ''pending_validation'', ''pending_approval'', ''validated'', ''approved'', ''scheduled'']"

definition delete_run_request :: "env \<Rightarrow> string \<Rightarrow> store_db \<Rightarrow> http \<times> store_db" where
  "delete_run_request e rid db =
     (case get_run e rid db of
        (Inl _, db) \<Rightarrow> (500, db)
      | (Inr None, db) \<Rightarrow> (404, db)
      | (Inr (Some run), db) \<Rightarrow>
          if pr_status run \<notin> set deletable_patch_run_statuses then (400, db)
          else (case delete_run e rid db of (Inl _, db') \<Rightarrow> (500, db') | (Inr _, db') \<Rightarrow> (200, db')))"

text \<open>The live stream events \<open>ServePatchOutput\<close> publishes for a report.\<close>

datatype stream_event = EventStarted string | EventChunk string string | EventDone string string string

definition stream_event_of :: "string \<Rightarrow> string \<Rightarrow> string \<Rightarrow> string \<Rightarrow> stream_event option" where
  "stream_event_of rid stage out msg =
     (if stage = ''running'' then Some (EventStarted rid)
      else if stage = ''progress'' then (if out = [] then None else Some (EventChunk rid out))
      else if stage \<in> {''completed'', ''failed'', ''cancelled'', ''validated'', ''dry_run_completed''}
      then Some (EventDone rid stage msg) else None)"

definition notifies_run_end :: "string \<Rightarrow> bool \<Rightarrow> bool" where
  "notifies_run_end stage run_ended \<longleftrightarrow> run_ended \<and> (stage = ''completed'' \<or> stage = ''failed'')"

record report_body =
  rb_stage :: string
  rb_output :: string
  rb_error :: string
  rb_reboot :: "bool option"

text \<open>What a report leaves behind besides the tables.\<close>

record report_effects =
  ef_status :: http
  ef_event :: "stream_event option"
  ef_awaits_report :: bool
  ef_notify_started :: bool
  ef_notify_end :: bool
  ef_flag_host :: bool

definition report_reboot :: "env \<Rightarrow> string \<Rightarrow> patch_run \<Rightarrow> bool option \<Rightarrow> store_db \<Rightarrow> bool option \<times> store_db" where
  "report_reboot e os run reboot db =
     (let required =
        (if is_windows_os_type os \<and> reboot \<noteq> Some True then
           (case run_items_need_reboot e (pr_id run) db of
              (Inl _, _) \<Rightarrow> reboot
            | (Inr need, _) \<Rightarrow> if need then Some True else reboot)
         else reboot)
      in case required of
           None \<Rightarrow> (None, db)
         | Some b \<Rightarrow> (Some b, snd (set_run_reboot_required e (pr_id run) b db)))"

definition serve_patch_output ::
  "env \<Rightarrow> string \<Rightarrow> patch_run \<Rightarrow> report_body \<Rightarrow> store_db \<Rightarrow> report_effects \<times> store_db" where
  "serve_patch_output e os run body db =
     (let rid = pr_id run;
          ((run_ended, err), db1) = update_output e rid os (rb_stage body) (rb_output body) (rb_error body) db
      in if err \<noteq> None \<and> err \<noteq> Some ErrHostHasActivePatchRun then
           (\<lparr>ef_status = 500, ef_event = None, ef_awaits_report = False, ef_notify_started = False,
             ef_notify_end = False, ef_flag_host = False\<rparr>, db1)
         else
           let (reboot, db2) =
                 (if run_ended \<and> \<not> pr_dry_run run \<and> pr_reboot_required run = None
                  then report_reboot e os run (rb_reboot body) db1 else (None, db1))
           in (\<lparr>ef_status = 200,
                ef_event = stream_event_of rid (rb_stage body) (rb_output body) (rb_error body),
                ef_awaits_report = (run_ended \<and> rb_stage body = ''completed'' \<and> \<not> pr_dry_run run),
                ef_notify_started = (rb_stage body = ''running''),
                ef_notify_end = notifies_run_end (rb_stage body) run_ended,
                ef_flag_host = (reboot = Some True)\<rparr>, db2))"

section \<open>A task keeps the constraints and the life cycle\<close>

lemma snd_case_err:
  "snd (case op db of (Inl err, db') \<Rightarrow> f err db' | (Inr b, db') \<Rightarrow> g b db')
     = (case fst (op db) of Inl err \<Rightarrow> snd (f err (snd (op db))) | Inr b \<Rightarrow> snd (g b (snd (op db))))"
  by (simp split: prod.split sum.split)

context state_relation
begin

text \<open>Handling an error where it occurs.\<close>

lemma within_handle [keeps]:
  assumes op: "within R op" and f: "\<And>err. within R (f err)" and g: "\<And>b. within R (g b)"
  shows "within R (\<lambda>db. case op db of (Inl err, db') \<Rightarrow> f err db' | (Inr b, db') \<Rightarrow> g b db')"
  unfolding within_def snd_case_err
proof
  fix db
  show "R db (case fst (op db) of Inl err \<Rightarrow> snd (f err (snd (op db))) | Inr b \<Rightarrow> snd (g b (snd (op db))))"
    using op f g unfolding within_def by (cases "fst (op db)") (auto intro: R_trans)
qed

lemma within_requeue_offline:
  assumes "\<And>st. st \<in> {''queued'', ''pending_validation''} \<Longrightarrow> within R (requeue e (rp_run p) st)"
  shows "within R (requeue_offline e p task_id)"
proof -
  have eq: "requeue_offline e p task_id =
     (\<lambda>db. case get_run e (rp_run p) db of
        (Inl err, db') \<Rightarrow> ret TaskDropped db'
      | (Inr found, db') \<Rightarrow> (case found of None \<Rightarrow> ret TaskDropped | Some run \<Rightarrow>
          if pr_status run \<noteq> (if rp_dry_run p then ''pending_validation'' else ''queued'')
             \<and> pr_status run \<noteq> ''queued'' \<and> pr_status run \<noteq> ''pending_validation''
          then ret TaskDropped
          else bind_op (requeue e (rp_run p) (if rp_dry_run p then ''pending_validation'' else ''queued'')) (\<lambda>ok.
                   if ok then ret (TaskRequeued (next_retry_task_id (rp_run p) task_id))
                   else ret TaskDropped)) db')"
    unfolding requeue_offline_def Let_def
    by (rule ext) (auto split: prod.split sum.split option.split)
  show ?thesis
    unfolding eq get_run_def
    by (intro within_handle within_query within_ret within_case_option within_if within_bind) (simp add: assms)
qed

lemma within_process_task:
  assumes rq: "\<And>st. st \<in> {''queued'', ''pending_validation''} \<Longrightarrow> within R (requeue e (rp_run p) st)"
    and ops: "\<And>rid. within R (activate_scheduled_run e rid)" "\<And>rid s. within R (skip_scheduled_run e rid s)"
      "\<And>rid s. within R (fail_run e rid s)" "\<And>ids s. within R (abort_items e ids s)"
      "\<And>rid. within R (mark_dispatched e rid)"
  shows "within R (process_task e os_of pm_of p task_id connected send_ok)"
proof -
  have act: "within R (activate_if_scheduled e rid)" for rid
    unfolding activate_if_scheduled_def get_run_def
    by (intro within_bind within_query within_case_option within_ret within_if within_handle ops within_then
        within_throw)
  have send: "within R (send_run e p run w its send_ok)" for run w its
    unfolding send_run_def by (intro within_if within_throw within_then within_ignore_err ops within_ret)
  have "within R (dispatch_run e os_of pm_of p send_ok)"
    unfolding dispatch_run_def get_run_def list_pending_def Let_def split_dispatchable_items_def case_prod_beta
    by (intro within_bind within_query within_case_option within_ret within_if within_then ops send)
  then show ?thesis
    unfolding process_task_def
    by (intro within_bind act within_if within_ret within_requeue_offline rq)
qed

end

lemma process_task_keeps [keeps]: "within (kept db_inv) (process_task e os_of pm_of p task_id connected send_ok)"
  by (intro kept.within_process_task keeps)

lemma process_task_life [keeps]: "within (life_rel {}) (process_task e os_of pm_of p task_id connected send_ok)"
  by (intro life.within_process_task keeps)

lemma life_finished:
  assumes "life_rel {} db db'" and "status_of rid db = Some s" and "finished s"
  shows "status_of rid db' = Some s"
proof -
  obtain s' where "status_of rid db' = Some s'" and "(run_life False)\<^sup>*\<^sup>* s s'"
    using assms unfolding life_rel_def by fastforce
  then show ?thesis using finished_final [OF assms(3)] by (metis converse_rtranclpE)
qed

section \<open>What a sent message says\<close>

lemma send_run_Inr:
  "send_run e p run w its send_ok db = (Inr out, db') \<longleftrightarrow>
     send_ok \<and> out = TaskSent (build_run_patch_message p run w its) \<and> db' = snd (mark_dispatched e (rp_run p) db)"
  by (auto simp: send_run_def then_op_def bind_op_def ignore_err_def)

lemma fail_not_sent: "then_op (fail_run e rid s) (ret TaskFailedRun) db \<noteq> (Inr (TaskSent m), db')"
  by (auto simp: then_op_Inr)

lemma abort_items_runs: "abort_items e ids s db = (r, db') \<Longrightarrow> runs db' = runs db"
  by (auto simp: abort_items_def exec_def dest: abort_pending_items_Inr split: if_splits sum.splits)

text \<open>What was true when the message went out.\<close>

definition sent_ok :: "env \<Rightarrow> run_payload \<Rightarrow> run_message \<Rightarrow> store_db \<Rightarrow> store_db \<Rightarrow> bool" where
  "sent_ok e p m db db' \<longleftrightarrow>
     (\<exists>mid run w its. find_run (rp_run p) (runs mid) = Some run
        \<and> pr_status run \<in> {''queued'', ''pending_validation''} \<and> runs mid = runs db
        \<and> list_all dispatchable its \<and> (w \<and> rp_type p = ''patch_package'' \<longrightarrow> its \<noteq> [])
        \<and> m = build_run_patch_message p run w its \<and> db' = snd (mark_dispatched e (rp_run p) mid))"

lemma dispatch_run_sent:
  assumes "dispatch_run e os_of pm_of p send_ok db = (Inr (TaskSent m), db')"
  shows "sent_ok e p m db db'"
proof -
  obtain run where run: "find_run (rp_run p) (runs db) = Some run"
    and st: "pr_status run \<in> {''queued'', ''pending_validation''}"
    and rest: "(let windows = (case os_of (pr_host run) of None \<Rightarrow> False | Some os \<Rightarrow> is_windows_os_type os)
         in if windows \<and> rp_type p = ''patch_package'' then
              bind_op (list_pending e (rp_run p)) (\<lambda>listed.
                let (pending, bad) = split_dispatchable_items listed
                in then_op (abort_items e bad ''Invalid target identifier'')
                     (if pending = [] then
                        then_op (fail_run e (rp_run p) (no_targets_message (length bad))) (ret TaskFailedRun)
                      else send_run e p run windows pending send_ok))
            else send_run e p run windows [] send_ok) db = (Inr (TaskSent m), db')"
    using assms fail_not_sent unfolding dispatch_run_def get_run_def
    by (fastforce simp: bind_op_Inr query_op_Inr get_patch_run_def guarded_Inr split: option.splits if_splits)
  define w where "w = (case os_of (pr_host run) of None \<Rightarrow> False | Some os \<Rightarrow> is_windows_os_type os)"
  show ?thesis
  proof (cases "w \<and> rp_type p = ''patch_package''")
    case False
    then have "send_run e p run w [] send_ok db = (Inr (TaskSent m), db')"
      using rest unfolding Let_def w_def [symmetric] by (simp only: if_False)
    then show ?thesis
      unfolding sent_ok_def send_run_Inr using run st False
      by (intro exI [of _ db] exI [of _ run] exI [of _ w] exI [of _ "[]"]) auto
  next
    case True
    then obtain listed mid where
      ab: "abort_items e (map it_id (filter (Not \<circ> dispatchable) listed)) ''Invalid target identifier'' db = (Inr (), mid)"
      and its: "filter dispatchable listed \<noteq> []"
      and snd: "send_run e p run w (filter dispatchable listed) send_ok mid = (Inr (TaskSent m), db')"
      using rest fail_not_sent
      by (fastforce simp: Let_def w_def [symmetric] bind_op_Inr then_op_Inr list_pending_def query_op_Inr
          split_dispatchable_items_def split: if_splits)
    have "runs mid = runs db" by (rule abort_items_runs [OF ab])
    then show ?thesis
      using snd run st its unfolding sent_ok_def send_run_Inr
      by (intro exI [of _ mid] exI [of _ run] exI [of _ w] exI [of _ "filter dispatchable listed"])
        (auto simp: list_all_iff)
  qed
qed

lemma process_task_sent:
  assumes "process_task e os_of pm_of p task_id connected send_ok db = (Inr (TaskSent m), db')"
  obtains mid where "connected" and "activate_if_scheduled e (rp_run p) db = (Inr True, mid)"
    and "sent_ok e p m mid db'"
proof -
  have off: "requeue_offline e p task_id d \<noteq> (Inr (TaskSent m), db')" for d
    by (auto simp: requeue_offline_def Let_def bind_op_Inr split: prod.split sum.split option.split if_splits)
  from assms off obtain mid where "connected" "activate_if_scheduled e (rp_run p) db = (Inr True, mid)"
    "dispatch_run e os_of pm_of p send_ok mid = (Inr (TaskSent m), db')"
    unfolding process_task_def by (fastforce simp: bind_op_Inr split: if_splits)
  with that dispatch_run_sent show thesis by blast
qed

lemma activate_if_scheduled_True:
  assumes "activate_if_scheduled e rid db = (Inr True, mid)"
  shows "mid = db \<or> (\<exists>r. find_run rid (runs db) = Some r \<and> pr_status r = ''scheduled'')"
  using assms unfolding activate_if_scheduled_def get_run_def
  by (auto simp: bind_op_Inr query_op_Inr get_patch_run_def guarded_Inr split: option.splits if_splits)

lemma mark_dispatched_runs:
  assumes run: "find_run rid (runs db) = Some run" and st: "pr_status run \<in> {''queued'', ''pending_validation''}"
    and iv: "db_inv db" and q: "\<not> q_fails e QDispatched"
  shows "status_of rid (snd (mark_dispatched e rid db)) = Some ''running''"
proof -
  let ?t = "update_where (with_id rid (\<lambda>s. s \<in> {''queued'', ''pending_validation''}))
        (\<lambda>r. r\<lparr>pr_status := ''running'', pr_updated_at := now e\<rparr>) (runs db)"
  have "map pr_host (filter is_active (update_where (with_id rid (\<lambda>s. s \<in> {''queued'', ''pending_validation''}))
        (\<lambda>r. r\<lparr>pr_status := ''running'', pr_updated_at := now e\<rparr>) t)) = map pr_host (filter is_active t)" for t
    by (induction t) (auto simp: is_active_def active_statuses_def with_id_def)
  then have one: "one_active_per_host ?t" using iv by (simp add: one_active_per_host_def db_inv_def)
  then have "mark_patch_run_dispatched e rid db = Inr (length (filter (with_id rid (\<lambda>s. s \<in> {''queued'', ''pending_validation''})) (runs db)), db\<lparr>runs := ?t\<rparr>)"
    using q by (simp add: mark_patch_run_dispatched_def guarded_def update_runs_def Let_def)
  then have "snd (mark_dispatched e rid db) = db\<lparr>runs := ?t\<rparr>"
    by (simp add: mark_dispatched_def then_op_def bind_op_def exec_rows_def)
  then show ?thesis
    using run st find_run_Some [OF run]
    by (simp add: status_of_def find_run_update_where with_id_def)
qed

section \<open>Properties\<close>


text \<open>
  Running a task keeps every constraint of the tables, and never changes the status of a run
  that is completed, failed or cancelled.
\<close>

lemma task_keeps_finished_runs:
  assumes "process_task e os_of pm_of p task_id connected send_ok db = (r, db')" and "db_inv db"
  shows "db_inv db' \<and> (\<forall>rid s. status_of rid db = Some s \<and> finished s \<longrightarrow> status_of rid db' = Some s)"
  using keptD [OF process_task_keeps assms(2,1)] withinD [OF process_task_life assms(1)] life_finished by blast

definition sample_payload :: run_payload where
  "sample_payload = \<lparr>rp_run = ''r'', rp_type = ''patch_all'', rp_package_name = None,
     rp_package_names = [], rp_dry_run = False, rp_reboot_if_required = True\<rparr>"

definition sample_task :: "(store_error + task_outcome) \<times> store_db" where
  "sample_task = process_task sample_env (\<lambda>_. Some ''ubuntu'') (\<lambda>_. None) sample_payload ''t'' True True
     (sample_db ''queued'')"

lemma sample_queued_inv: "db_inv (sample_db ''queued'')"
  by code_simp


lemma task_keeps_finished_runs_witness: "db_inv (snd sample_task)"
  using task_keeps_finished_runs [OF prod.collapse [symmetric] sample_queued_inv]
  unfolding sample_task_def by blast

section \<open>The sweep, stopping and deleting\<close>

lemma cleanup_stages:
  assumes "cleanup_db e stall db = (Inr (), db')"
  obtains n m k msg1 msg2 where "mark_runs_timed_out e msg1 (stall_threshold e stall) db = Inr (n, m)"
    and "mark_undispatched_timed_out e msg2 (now e - undispatched_expiry) m = Inr (k, db')"
  using assms unfolding cleanup_db_def by (auto simp: bind_op_Inr then_op_Inr exec_rows_Inr)

definition spared :: "string \<Rightarrow> (patch_run \<Rightarrow> bool) \<Rightarrow> store_db \<Rightarrow> bool" where
  "spared rid P db \<longleftrightarrow> (\<exists>r. find_run rid (runs db) = Some r \<and> P r)"

lemma cleanup_spares:
  assumes "\<And>r. P r \<Longrightarrow> \<not> stalled (stall_threshold e stall) r \<and> \<not> undispatched (now e - undispatched_expiry) r"
  shows "within (kept (spared rid P)) (cleanup_db e stall)"
proof -
  have a: "within (kept (spared rid P)) (exec_rows (mark_runs_timed_out e msg (stall_threshold e stall)))" for msg
    by (rule kept.within_exec_rows) (use assms in \<open>fastforce simp: kept_def spared_def st_timed_out.stmt_find\<close>)
  have b: "within (kept (spared rid P)) (exec_rows (mark_undispatched_timed_out e msg (now e - undispatched_expiry)))" for msg
    by (rule kept.within_exec_rows) (use assms in \<open>fastforce simp: kept_def spared_def st_undispatched.stmt_find\<close>)
  show ?thesis unfolding cleanup_db_def by (intro keeps a b)
qed

lemma stall_threshold_minutes: "0 \<le> m \<Longrightarrow> m \<le> 153722867 \<Longrightarrow> stall_threshold e m = now e - m * 60"
  by (simp add: stall_threshold_def go_minutes_id)

lemma stall_threshold_wrapped:
  assumes "153722867 < m" and "m \<le> 307445734"
  shows "now e < stall_threshold e m"
proof -
  have "go_minutes (- m) = 18446744073709551616 - m * 60000000000"
  proof -
    let ?x = "- (m * 60000000000) + 9223372036854775808"
    have "?x mod 18446744073709551616 = (?x + 18446744073709551616) mod 18446744073709551616" by (rule mod_add_self2 [symmetric])
    also have "\<dots> = ?x + 18446744073709551616" using assms by (intro mod_pos_pos_trivial) simp_all
    finally have x: "?x mod 18446744073709551616 = ?x + 18446744073709551616" .
    show ?thesis unfolding go_minutes_def int64_wrap_def mult_minus_left x by simp
  qed
  moreover have "(m * 60000000000 - 18446744073709551616) div 1000000000 < 0"
    using assms by (intro div_neg_pos_less0) simp_all
  ultimately show ?thesis by (simp add: stall_threshold_def)
qed

text \<open>
  C31: For a stall timeout of up to 153722867 minutes, the sweep leaves alone every run that made progress within the
  timeout, which is never less than five minutes, and every waiting run due less than a day ago; and after a sweep
  that succeeds no run is stalled or overdue.  Above that bound the product with \<open>time.Minute\<close> wraps.
\<close>

theorem sweep_times_out_exactly_the_dead:
  assumes small: "resolve_stall_timeout_min v \<le> 153722867"
    and sweep: "cleanup_db e (resolve_stall_timeout_min v) db = (res, db')"
  shows "5 \<le> resolve_stall_timeout_min v
    \<and> (\<forall>rid r. find_run rid (runs db) = Some r
        \<and> (pr_status r = ''running'' \<and> now e - resolve_stall_timeout_min v * 60 \<le> pr_updated_at r
           \<or> pr_status r \<in> {''scheduled'', ''queued'', ''pending_validation''}
             \<and> now e - 86400 \<le> (case pr_scheduled_at r of None \<Rightarrow> pr_created_at r | Some t \<Rightarrow> t))
        \<longrightarrow> find_run rid (runs db') = Some r)
    \<and> (res = Inr () \<longrightarrow> (\<forall>r \<in> set (runs db').
        \<not> stalled (now e - resolve_stall_timeout_min v * 60) r \<and> \<not> undispatched (now e - 86400) r))"
proof (intro conjI allI impI)
  show five: "5 \<le> resolve_stall_timeout_min v"
    by (simp add: resolve_stall_timeout_min_def split: option.split)
  have threshold: "stall_threshold e (resolve_stall_timeout_min v) = now e - resolve_stall_timeout_min v * 60"
    by (rule stall_threshold_minutes [OF _ small]) (use five in simp)
  {
    fix rid r
    assume a: "find_run rid (runs db) = Some r
        \<and> (pr_status r = ''running'' \<and> now e - resolve_stall_timeout_min v * 60 \<le> pr_updated_at r
           \<or> pr_status r \<in> {''scheduled'', ''queued'', ''pending_validation''}
             \<and> now e - 86400 \<le> (case pr_scheduled_at r of None \<Rightarrow> pr_created_at r | Some t \<Rightarrow> t))"
    have "\<not> stalled (stall_threshold e (resolve_stall_timeout_min v)) r \<and> \<not> undispatched (now e - undispatched_expiry) r"
      using a by (auto simp: threshold stalled_def undispatched_def undispatched_expiry_def)
    then have "within (kept (spared rid (\<lambda>x. x = r))) (cleanup_db e (resolve_stall_timeout_min v))"
      by (intro cleanup_spares) simp
    then have "spared rid (\<lambda>x. x = r) db'"
      using keptD [where I = "spared rid (\<lambda>x. x = r)" and f = "cleanup_db e (resolve_stall_timeout_min v)", OF _ _ sweep] a
      by (simp add: spared_def)
    then show "find_run rid (runs db') = Some r" by (simp add: spared_def)
  }
  assume "res = Inr ()"
  with sweep obtain n m k msg1 msg2 where one: "mark_runs_timed_out e msg1 (now e - resolve_stall_timeout_min v * 60) db = Inr (n, m)"
    and two: "mark_undispatched_timed_out e msg2 (now e - undispatched_expiry) m = Inr (k, db')"
    unfolding threshold [symmetric] by (auto elim: cleanup_stages)
  note r1 = st_timed_out.stmt_result [OF one] and r2 = st_undispatched.stmt_result [OF two]
  have m: "\<not> stalled (now e - resolve_stall_timeout_min v * 60) r" if "r \<in> set (runs m)" for r
    using that unfolding r1 [THEN conjunct2, THEN conjunct1]
    by (rule update_where_all) (simp_all add: stalled_def)
  show "\<forall>r \<in> set (runs db').
        \<not> stalled (now e - resolve_stall_timeout_min v * 60) r \<and> \<not> undispatched (now e - 86400) r"
  proof
    fix r
    assume "r \<in> set (runs db')"
    then show "\<not> stalled (now e - resolve_stall_timeout_min v * 60) r \<and> \<not> undispatched (now e - 86400) r"
      unfolding r2 [THEN conjunct2, THEN conjunct1] undispatched_expiry_def
      by (rule update_where_all) (simp_all add: m, simp add: stalled_def undispatched_def)
  qed
qed

theorem sweep_times_out_exactly_the_dead_witness:
  "find_run ''r'' (runs (snd (cleanup_db sample_env (resolve_stall_timeout_min (Some 1)) (sample_db ''running''))))
     = Some (sample_run ''r'' ''running'')"
proof -
  have "find_run ''r'' (runs (sample_db ''running'')) = Some (sample_run ''r'' ''running'')" by code_simp
  moreover have "now sample_env - 300 \<le> pr_updated_at (sample_run ''r'' ''running'')"
    and "pr_status (sample_run ''r'' ''running'') = ''running''" by code_simp+
  moreover have "resolve_stall_timeout_min (Some 1) = 5" by code_simp
  ultimately show ?thesis
    using sweep_times_out_exactly_the_dead [of "Some 1" sample_env "sample_db ''running''", OF _ prod.collapse [symmetric]]
    by simp
qed

text \<open>
  A stall timeout beyond that bound, which no setting forbids, puts the threshold into the future: the sweep times
  out every running run, however recent its progress.
\<close>

lemma huge_timeout_sweeps_every_run:
  assumes "153722867 < m" and "m \<le> 307445734" and "cleanup_db e m db = (Inr (), db')"
    and "pr_status r = ''running''" and "pr_updated_at r \<le> now e"
  shows "r \<notin> set (runs db')"
proof
  assume r: "r \<in> set (runs db')"
  obtain n d k msg1 msg2 where one: "mark_runs_timed_out e msg1 (stall_threshold e m) db = Inr (n, d)"
    and two: "mark_undispatched_timed_out e msg2 (now e - undispatched_expiry) d = Inr (k, db')"
    using assms(3) by (auto elim: cleanup_stages)
  note r1 = st_timed_out.stmt_result [OF one] and r2 = st_undispatched.stmt_result [OF two]
  have d: "\<not> stalled (stall_threshold e m) q" if "q \<in> set (runs d)" for q
    using that unfolding r1 [THEN conjunct2, THEN conjunct1] by (rule update_where_all) (simp_all add: stalled_def)
  have "\<not> stalled (stall_threshold e m) r"
    using r unfolding r2 [THEN conjunct2, THEN conjunct1]
    by (rule update_where_all) (simp_all add: d, simp add: stalled_def)
  then show False using assms(4,5) stall_threshold_wrapped [OF assms(1,2), of e] by (simp add: stalled_def)
qed

text \<open>
  Stopping a run answers 200 only when this request cancelled it, whatever other requests did
  between the read and the update; any other answer leaves the tables as the others left them, and
  the stop signal is only sent for a run this request cancelled.
\<close>

lemma stop_run_cancels_or_leaves:
  assumes iv: "db_inv (other db)"
    and stop: "stop_run e e2 other host_known connected send_ok rid db = ((code, signalled), db')"
  shows "(code = 200 \<longrightarrow> status_of rid db' = Some ''cancelled''
        \<and> (\<exists>s. status_of rid db = Some s \<and> \<not> is_terminal_patch_status s)
        \<and> (\<exists>s. status_of rid (other db) = Some s \<and> \<not> finished s))
    \<and> (code \<noteq> 200 \<longrightarrow> db' = db \<or> db' = other db) \<and> (signalled \<longrightarrow> code = 200)"
proof -
  have get: "snd (get_run e rid db) = db" by (simp add: get_run_def query_op_def split: sum.split)
  show ?thesis
  proof (cases "code = 200")
    case True
    with stop obtain run n where run: "find_run rid (runs db) = Some run"
      and t: "\<not> is_terminal_patch_status (pr_status run)"
      and c: "cancel_run e2 rid ''Cancelled by user'' (other db) = (Inr n, db')" and n: "0 < n"
      unfolding stop_run_def get_run_def
      by (auto simp: query_op_def get_patch_run_def guarded_def split: prod.splits sum.splits option.splits if_splits)
    have st: "mark_cancelled_by_user e2 rid (non_empty ''Cancelled by user'') (other db) = Inr (n, db')"
      using c by (simp add: cancel_run_def exec_rows_Inr)
    from st_user_cancel.stmt_hits [OF st refl n iv] True run t show ?thesis
      by (auto simp: status_of_def finished_def)
  next
    case False
    with stop get show ?thesis
      unfolding stop_run_def
      by (auto simp: cancel_run_def exec_rows_def dest: st_user_cancel.stmt_none
          split: prod.splits sum.splits option.splits if_splits)
  qed
qed

lemma stop_run_cancels_or_leaves_witness:
  "status_of ''r'' (snd (stop_run sample_env sample_env (\<lambda>db. db) True True True ''r'' (sample_db ''running''))) = Some ''cancelled''"
proof -
  let ?r = "stop_run sample_env sample_env (\<lambda>db. db) True True True ''r'' (sample_db ''running'')"
  have iv: "db_inv ((\<lambda>db. db) (sample_db ''running''))" by code_simp
  have "fst ?r = (200, True)" by code_simp
  then have "?r = ((200, True), snd ?r)" by (metis prod.collapse)
  from stop_run_cancels_or_leaves [OF iv this] show ?thesis by blast
qed

text \<open>
  C32: Deleting answers 200 only for a run that was not executing or finished; the run and all its
  items are gone, no item of another run is touched, and every other run keeps its status.
\<close>

theorem delete_removes_only_unstarted_runs:
  assumes del: "delete_run_request e rid db = (code, db')"
  shows "(code = 200 \<longrightarrow>
        (\<exists>s. status_of rid db = Some s \<and> s \<in> set deletable_patch_run_statuses)
        \<and> status_of rid db' = None \<and> items_of rid (items db') = []
        \<and> (\<forall>other. other \<noteq> rid \<longrightarrow> status_of other db' = status_of other db
              \<and> items_of other (items db') = items_of other (items db)))
    \<and> (code \<noteq> 200 \<longrightarrow> db' = db)"
proof (cases "code = 200")
  case True
  with del obtain run where run: "find_run rid (runs db) = Some run"
    and s: "pr_status run \<in> set deletable_patch_run_statuses"
    and d: "delete_run e rid db = (Inr (), db')"
    unfolding delete_run_request_def get_run_def
    by (auto simp: query_op_def get_patch_run_def guarded_def split: prod.splits sum.splits option.splits if_splits)
  note facts = delete_patch_run_Inr [of e rid db db']
  have f: "delete_patch_run e rid db = Inr db'" using d by (simp add: delete_run_def exec_Inr)
  have gone: "status_of rid db' = None"
    using facts [OF f] by (simp add: status_of_def find_run_update_where find_run_filter_other)
  have others: "status_of other db' = status_of other db" if "other \<noteq> rid" for other
    using delete_run_status [OF that, of e db] d by simp
  have its: "items_of rid (items db') = []" "other \<noteq> rid \<Longrightarrow> items_of other (items db') = items_of other (items db)" for other
    using facts [OF f] by (auto simp: items_of_def filter_empty_conv intro!: filter_cong)
  show ?thesis using True run s gone others its by (simp add: status_of_def)
next
  case False
  with del show ?thesis
    unfolding delete_run_request_def get_run_def
    by (auto simp: query_op_def delete_run_def exec_def split: prod.splits sum.splits option.splits if_splits)
qed

theorem delete_removes_only_unstarted_runs_witness:
  "status_of ''r'' (snd (delete_run_request sample_env ''r'' (sample_db ''queued''))) = None"
proof -
  let ?r = "delete_run_request sample_env ''r'' (sample_db ''queued'')"
  have "fst ?r = 200" by code_simp
  then have "?r = (200, snd ?r)" by (metis prod.collapse)
  from delete_removes_only_unstarted_runs [OF this] show ?thesis by blast
qed

section \<open>A scheduled run on a busy host\<close>

lemma one_active_inj:
  assumes "one_active_per_host t" and "r \<in> set t" and "q \<in> set t" and "is_active r" and "is_active q"
    and "pr_host r = pr_host q"
  shows "r = q"
  using assms unfolding one_active_per_host_def
  by (metis (mono_tags, lifting) distinct_map inj_onD mem_Collect_eq set_filter)

text \<open>
  When the window of a scheduled run arrives while another run of its host is active, the task
  sends nothing and the run ends as cancelled with the reason recorded; the other run is untouched.
\<close>

lemma busy_host_skips_scheduled_run:
  assumes iv: "db_inv db" and run: "find_run (rp_run p) (runs db) = Some r" "pr_status r = ''scheduled''"
    and busy: "q \<in> set (runs db)" "is_active q" "pr_host q = pr_host r"
    and ok: "\<not> q_fails e QGet" "\<not> q_fails e QActivate" "\<not> q_fails e QSkip"
  shows "\<exists>db'. process_task e os_of pm_of p task_id connected send_ok db = (Inr TaskDropped, db')
    \<and> find_run (rp_run p) (runs db') = Some (r\<lparr>pr_status := ''cancelled'',
         pr_error := Some scheduled_run_skipped_reason, pr_completed_at := Some (now e), pr_updated_at := now e\<rparr>)
    \<and> find_run (pr_id q) (runs db') = Some q"
proof -
  let ?rid = "rp_run p"
  let ?sel = "with_id ?rid (\<lambda>s. s = ''scheduled'')"
  let ?act = "\<lambda>r. r\<lparr>pr_status := ''queued'', pr_updated_at := now e\<rparr>"
  let ?skip = "\<lambda>r. r\<lparr>pr_status := ''cancelled'', pr_error := Some scheduled_run_skipped_reason,
       pr_completed_at := Some (now e), pr_updated_at := now e\<rparr>"
  have rin: "r \<in> set (runs db)" and rid: "pr_id r = ?rid" using find_run_Some [OF run(1)] by auto
  have qn: "pr_id q \<noteq> ?rid"
    using iv run busy rid find_run_in [of "runs db" q] by (auto simp: db_inv_def is_active_def active_statuses_def)
  have "\<not> one_active_per_host (update_where ?sel ?act (runs db))"
  proof
    assume one: "one_active_per_host (update_where ?sel ?act (runs db))"
    have "?act r \<in> set (update_where ?sel ?act (runs db))"
      using rin run(2) rid by (auto simp: in_update_where with_id_def intro!: bexI [of _ r])
    moreover have "q \<in> set (update_where ?sel ?act (runs db))"
      using busy qn by (auto simp: in_update_where with_id_def intro!: bexI [of _ q])
    ultimately have "?act r = q"
      by (rule one_active_inj [OF one]) (use busy in \<open>simp_all add: is_active_def active_statuses_def\<close>)
    then have "pr_id q = pr_id r" by (metis st_activate.upd_id)
    with qn rid show False by simp
  qed
  then have act: "activate_scheduled_run e ?rid db = (Inl ErrHostHasActivePatchRun, db)"
    using ok by (simp add: activate_scheduled_run_def bind_op_def map_err_def exec_rows_def
        activate_scheduled_def guarded_def update_runs_def Let_def map_active_run_conflict_def)
  have off: "filter is_active (update_where ?sel ?skip t) = filter is_active t" for t
    by (induction t) (auto simp: is_active_def active_statuses_def with_id_def)
  have one: "one_active_per_host (update_where ?sel ?skip (runs db))"
    using iv off by (simp add: one_active_per_host_def db_inv_def)
  let ?db' = "db\<lparr>runs := update_where ?sel ?skip (runs db)\<rparr>"
  have skip: "skip_scheduled_run e ?rid scheduled_run_skipped_reason db = (Inr (), ?db')"
    using ok one by (simp add: skip_scheduled_run_def then_op_def bind_op_def exec_rows_def skip_scheduled_def
        guarded_def update_runs_def Let_def)
  have "process_task e os_of pm_of p task_id connected send_ok db = (Inr TaskDropped, ?db')"
    using ok run act skip
    by (simp add: process_task_def activate_if_scheduled_def get_run_def get_patch_run_def guarded_def
        bind_op_def query_op_def then_op_def)
  moreover have "find_run ?rid (runs ?db') = Some (?skip r)"
    using run rid by (simp add: find_run_update_where with_id_def)
  moreover have "find_run (pr_id q) (runs ?db') = Some q"
    using iv busy qn by (simp add: find_run_update_where find_run_in db_inv_def with_id_def)
  ultimately show ?thesis by blast
qed

definition sample_busy :: store_db where
  "sample_busy = \<lparr>runs = [sample_run ''r'' ''scheduled'', sample_run ''q'' ''running''], items = []\<rparr>"

lemma busy_host_skips_scheduled_run_witness:
  "status_of ''r'' (snd (process_task sample_env (\<lambda>_. None) (\<lambda>_. None) sample_payload ''t'' True True sample_busy))
     = Some ''cancelled''"
proof -
  have iv: "db_inv sample_busy" by code_simp
  have run: "find_run (rp_run sample_payload) (runs sample_busy) = Some (sample_run ''r'' ''scheduled'')" by code_simp
  have busy: "sample_run ''q'' ''running'' \<in> set (runs sample_busy)" by (simp add: sample_busy_def)
  have rest: "pr_status (sample_run ''r'' ''scheduled'') = ''scheduled''"
    "is_active (sample_run ''q'' ''running'')"
    "pr_host (sample_run ''q'' ''running'') = pr_host (sample_run ''r'' ''scheduled'')" by code_simp+
  have ok: "\<not> q_fails sample_env x" for x by (simp add: sample_env_def)
  have r: "rp_run sample_payload = ''r''" by (simp add: sample_payload_def)
  from busy_host_skips_scheduled_run [OF iv run rest(1) busy rest(2,3) ok ok ok,
      of "\<lambda>_. None" "\<lambda>_. None" "''t''" True True]
  show ?thesis unfolding r by (auto simp: status_of_def)
qed

section \<open>Notifications and stream events\<close>

lemma posix_terminal_from:
  assumes "update_posix_output e rid os stage out msg db = (Inr True, db')" and "db_inv db"
    and "stage = ''completed'' \<or> stage = ''failed''"
  shows "\<exists>s. status_of rid db = Some s \<and> report_accepted s"
  using assms st_completed.stmt_hits [OF _ refl _ assms(2)] st_failed.stmt_hits [OF _ refl _ assms(2)]
  unfolding update_posix_output_def
  by (fastforce simp: bind_op_Inr then_op_Inr exec_rows_Inr status_of_def)

lemma windows_terminal_from:
  assumes "update_windows_output e rid stage out msg db = (Inr (True, err), db')" and "db_inv db"
    and "stage = ''completed'' \<or> stage = ''failed''"
  shows "\<exists>s. status_of rid db = Some s \<and> report_accepted s"
proof -
  from assms(3) show ?thesis
  proof
    assume s: "stage = ''completed''"
    then have "windows_terminal e rid stage (exec_rows (update_patch_run_completed e rid out (non_empty msg))) db
        = (Inr (True, err), db')" using assms(1) by (simp add: update_windows_output_def)
    then show ?thesis
      by (rule windows_terminal_true [where out = out])
        (use st_completed.stmt_hits [OF _ refl _ assms(2)] in \<open>fastforce simp: exec_rows_Inr status_of_def\<close>)
  next
    assume s: "stage = ''failed''"
    then have "windows_terminal e rid stage (exec_rows (update_patch_run_failed e rid out (Some msg))) db
        = (Inr (True, err), db')" using assms(1) by (simp add: update_windows_output_def)
    then show ?thesis
      by (rule windows_terminal_true [where out = out])
        (use st_failed.stmt_hits [OF _ refl _ assms(2)] in \<open>fastforce simp: exec_rows_Inr status_of_def\<close>)
  qed
qed

lemma update_output_true_from:
  assumes rep: "update_output e rid os stage out msg db = ((True, err), db')" and iv: "db_inv db"
    and "stage = ''completed'' \<or> stage = ''failed''"
  shows "\<exists>s. status_of rid db = Some s \<and> report_accepted s"
proof (cases "is_windows_os_type os")
  case True
  with rep have "update_windows_output e rid stage out msg db = (Inr (True, err), db')"
    by (auto simp: update_output_def split: sum.splits prod.splits)
  then show ?thesis using iv assms(3) by (rule windows_terminal_from)
next
  case False
  with rep have "update_posix_output e rid os stage out msg db = (Inr True, db')"
    by (auto simp: update_output_def plain_def bind_op_def split: sum.splits prod.splits)
  then show ?thesis using iv assms(3) by (rule posix_terminal_from)
qed

text \<open>
  C33: The end of a run is notified only for the report that ended it: the run had not finished
  before, so a replayed report never notifies again, and a host only awaits its post-patch report
  for such a report too.
\<close>

theorem run_end_notified_once:
  assumes iv: "db_inv db" and serve: "serve_patch_output e os run body db = (ef, db')"
    and told: "ef_notify_end ef \<or> ef_awaits_report ef"
  shows "\<exists>s. status_of (pr_id run) db = Some s \<and> \<not> finished s"
proof -
  obtain ended_flag err db1 where up: "update_output e (pr_id run) os (rb_stage body) (rb_output body) (rb_error body) db
      = ((ended_flag, err), db1)" by (metis prod.collapse)
  have "ended_flag \<and> (rb_stage body = ''completed'' \<or> rb_stage body = ''failed'')"
    using serve told unfolding serve_patch_output_def Let_def up
    by (auto simp: notifies_run_end_def split: if_splits prod.splits)
  with up iv obtain s where "status_of (pr_id run) db = Some s" "report_accepted s"
    using update_output_true_from [of e "pr_id run" os "rb_stage body" "rb_output body" "rb_error body" db err db1]
    by auto
  then show ?thesis by (auto simp: finished_def report_accepted_def)
qed

definition sample_body :: report_body where
  "sample_body = \<lparr>rb_stage = ''failed'', rb_output = ''boom'', rb_error = ''exit 1'', rb_reboot = None\<rparr>"

theorem run_end_notified_once_witness:
  "\<exists>s. status_of ''r'' (sample_db ''running'') = Some s \<and> \<not> finished s"
proof -
  have iv: "db_inv (sample_db ''running'')" by code_simp
  let ?r = "serve_patch_output sample_env ''ubuntu'' (sample_run ''r'' ''running'') sample_body (sample_db ''running'')"
  have "ef_notify_end (fst ?r)" by code_simp
  with run_end_notified_once [OF iv, of sample_env "''ubuntu''" "sample_run ''r'' ''running''" sample_body "fst ?r" "snd ?r"]
  show ?thesis by (simp add: sample_run_def)
qed

text \<open>
  The report agents send when they begin, stage started, publishes no stream event and no
  started notification; the handler only recognises a stage called running.
\<close>

lemma started_report_is_silent:
  assumes "serve_patch_output e os run body db = (ef, db')" and "rb_stage body = ''started''"
  shows "ef_event ef = None \<and> \<not> ef_notify_started ef"
  using assms unfolding serve_patch_output_def
  by (auto simp: Let_def stream_event_of_def split: if_splits prod.splits)

lemma started_report_is_silent_witness:
  "ef_event (fst (serve_patch_output sample_env ''ubuntu'' (sample_run ''r'' ''queued'')
     (sample_body\<lparr>rb_stage := ''started''\<rparr>) (sample_db ''queued''))) = None"
  by (rule started_report_is_silent [OF prod.collapse [symmetric], THEN conjunct1]) simp

end
