(* ===== verification/PatchHub.thy ===== *)
theory PatchHub
  imports PatchTasks "HOL-Library.Sublist"
begin

text \<open>
  Live output of a patch run: the in-process hub that fans events out to browsers
  (\<open>internal/patchstream/hub.go\<close>) and the stream handler that reads it (\<open>ServeRunStream\<close>,
  \<open>internal/handler/patching_stream.go\<close>).

  A subscriber is a number, the identity of its channel; a channel is its buffer and whether it is
  open.  A send on a closed channel and a second close panic, which is the value \<open>None\<close>.  The hub's
  sets are lists.

  The hub's lock covers only the maps: \<open>Publish\<close> reads the set of a run under it and sends after
  releasing it, \<open>Unsubscribe\<close> leaves the set under it and closes the channel after.  A state therefore
  also holds the goroutines inside these two functions, and each section under the lock and each
  channel operation is a step of its own, interleaved with all others.
\<close>

section \<open>The hub\<close>

record channel =
  ch_buf :: "stream_event list"
  ch_open :: bool

record hub =
  hb_subs :: "string \<Rightarrow> nat list option"
  hb_chans :: "nat \<Rightarrow> channel option"
  hb_next :: nat

definition new_hub :: hub where
  "new_hub = \<lparr>hb_subs = Map.empty, hb_chans = Map.empty, hb_next = 0\<rparr>"

definition channel_capacity :: nat where "channel_capacity = 256"

fun event_run :: "stream_event \<Rightarrow> string" where
  "event_run (EventStarted rid) = rid"
| "event_run (EventChunk rid out) = rid"
| "event_run (EventDone rid stage msg) = rid"

definition subs_of :: "hub \<Rightarrow> string \<Rightarrow> nat list" where
  "subs_of h rid = (case hb_subs h rid of None \<Rightarrow> [] | Some ss \<Rightarrow> ss)"

definition subscribe :: "string \<Rightarrow> hub \<Rightarrow> nat \<times> hub" where
  "subscribe rid h =
     (let s = hb_next h
      in (s, h\<lparr>hb_subs := (hb_subs h)(rid \<mapsto> subs_of h rid @ [s]),
               hb_chans := (hb_chans h)(s \<mapsto> \<lparr>ch_buf = [], ch_open = True\<rparr>), hb_next := Suc s\<rparr>))"

text \<open>Unsubscribing: leaving the set under the lock, then closing the channel.\<close>

definition leave :: "string \<Rightarrow> nat \<Rightarrow> hub \<Rightarrow> hub" where
  "leave rid s h =
     (case hb_subs h rid of
        None \<Rightarrow> h
      | Some ss \<Rightarrow> let rest = removeAll s ss
                   in h\<lparr>hb_subs := (hb_subs h)(rid := (if rest = [] then None else Some rest))\<rparr>)"

definition close_channel :: "nat \<Rightarrow> hub \<Rightarrow> hub option" where
  "close_channel s h =
     (case hb_chans h s of
        None \<Rightarrow> None
      | Some c \<Rightarrow> if ch_open c then Some (h\<lparr>hb_chans := (hb_chans h)(s \<mapsto> c\<lparr>ch_open := False\<rparr>)\<rparr>) else None)"

text \<open>\<open>select\<close> with a default: a full buffer drops the event.\<close>

definition send_one :: "stream_event \<Rightarrow> nat \<Rightarrow> hub \<Rightarrow> hub option" where
  "send_one ev s h =
     (case hb_chans h s of
        None \<Rightarrow> None
      | Some c \<Rightarrow>
          if \<not> ch_open c then None
          else if length (ch_buf c) < channel_capacity
          then Some (h\<lparr>hb_chans := (hb_chans h)(s \<mapsto> c\<lparr>ch_buf := ch_buf c @ [ev]\<rparr>)\<rparr>)
          else Some h)"

definition has_subscribers :: "hub \<Rightarrow> string \<Rightarrow> bool" where
  "has_subscribers h rid = (case hb_subs h rid of None \<Rightarrow> False | Some ss \<Rightarrow> 0 < length ss)"

text \<open>Reading: an event, the end of a closed channel, or waiting.\<close>

datatype received = Got stream_event | Ended | Waits

definition receive :: "nat \<Rightarrow> hub \<Rightarrow> received \<times> hub" where
  "receive s h =
     (case hb_chans h s of
        None \<Rightarrow> (Waits, h)
      | Some c \<Rightarrow> (case ch_buf c of
                     ev # rest \<Rightarrow> (Got ev, h\<lparr>hb_chans := (hb_chans h)(s \<mapsto> c\<lparr>ch_buf := rest\<rparr>)\<rparr>)
                   | [] \<Rightarrow> (if ch_open c then Waits else Ended, h)))"

section \<open>The stream handler\<close>

datatype frame =
    Snapshot string string string string
  | EventFrame stream_event
  | DoneFrame string string

definition opening_frames :: "patch_run \<Rightarrow> frame list" where
  "opening_frames run =
     Snapshot (pr_id run) (pr_status run) (pr_output run) (case pr_error run of None \<Rightarrow> [] | Some m \<Rightarrow> m)
       # (if is_terminal_patch_status (pr_status run) then [DoneFrame (pr_id run) (pr_status run)] else [])"

fun is_done :: "stream_event \<Rightarrow> bool" where
  "is_done (EventDone rid stage msg) \<longleftrightarrow> True"
| "is_done _ \<longleftrightarrow> False"

text \<open>The loop over the channel while every write succeeds: it ends after a done event.\<close>

fun forward_events :: "stream_event list \<Rightarrow> frame list" where
  "forward_events [] = []"
| "forward_events (ev # evs) = EventFrame ev # (if is_done ev then [] else forward_events evs)"

definition stream_frames :: "patch_run \<Rightarrow> stream_event list \<Rightarrow> frame list" where
  "stream_frames run evs =
     opening_frames run @ (if is_terminal_patch_status (pr_status run) then [] else forward_events evs)"

section \<open>Interleaved goroutines\<close>

text \<open>
  The goroutines inside the hub: a publisher with the subscribers of its snapshot it has yet to send
  to, and the subscribers that left their set and have yet to close their channel.
\<close>

record live =
  lv_hub :: hub
  lv_pubs :: "(stream_event \<times> nat list) list"
  lv_leaving :: "nat list"

definition idle :: live where
  "idle = \<lparr>lv_hub = new_hub, lv_pubs = [], lv_leaving = []\<rparr>"

text \<open>
  \<open>Publish\<close>: the section under the read lock, which copies the set in the order \<open>ss\<close> the map is iterated
  in, and one turn of the loop over the copy.
\<close>

definition publish_snapshot :: "stream_event \<Rightarrow> nat list \<Rightarrow> live \<Rightarrow> live" where
  "publish_snapshot ev ss w = w\<lparr>lv_pubs := lv_pubs w @ [(ev, ss)]\<rparr>"

definition publish_send :: "nat \<Rightarrow> live \<Rightarrow> live option" where
  "publish_send p w =
     (case lv_pubs w ! p of
        (ev, []) \<Rightarrow> Some w
      | (ev, s # ss) \<Rightarrow>
          map_option (\<lambda>h. w\<lparr>lv_hub := h, lv_pubs := (lv_pubs w)[p := (ev, ss)]\<rparr>) (send_one ev s (lv_hub w)))"

text \<open>\<open>Unsubscribe\<close>: the section under the lock, and the close.\<close>

definition unsubscribe_leave :: "string \<Rightarrow> nat \<Rightarrow> live \<Rightarrow> live" where
  "unsubscribe_leave rid s w = w\<lparr>lv_hub := leave rid s (lv_hub w), lv_leaving := lv_leaving w @ [s]\<rparr>"

definition unsubscribe_close :: "nat \<Rightarrow> live \<Rightarrow> live option" where
  "unsubscribe_close s w =
     map_option (\<lambda>h. w\<lparr>lv_hub := h, lv_leaving := remove1 s (lv_leaving w)\<rparr>) (close_channel s (lv_hub w))"

datatype hub_op =
    OpSubscribe string
  | OpLeave string nat
  | OpClose nat
  | OpPublish stream_event "nat list"
  | OpSend nat
  | OpReceive nat

text \<open>The state after a step, \<open>None\<close> after a panic, and what was read.\<close>

fun hub_step :: "hub_op \<Rightarrow> live \<Rightarrow> (live \<times> (nat \<times> stream_event) list) option" where
  "hub_step (OpSubscribe rid) w = Some (w\<lparr>lv_hub := snd (subscribe rid (lv_hub w))\<rparr>, [])"
| "hub_step (OpLeave rid s) w = Some (unsubscribe_leave rid s w, [])"
| "hub_step (OpClose s) w = map_option (\<lambda>w'. (w', [])) (unsubscribe_close s w)"
| "hub_step (OpPublish ev ss) w = Some (publish_snapshot ev ss w, [])"
| "hub_step (OpSend p) w = map_option (\<lambda>w'. (w', [])) (publish_send p w)"
| "hub_step (OpReceive s) w =
     (case receive s (lv_hub w) of
        (Got ev, h) \<Rightarrow> Some (w\<lparr>lv_hub := h\<rparr>, [(s, ev)])
      | (_, h) \<Rightarrow> Some (w\<lparr>lv_hub := h\<rparr>, []))"

text \<open>
  Which steps can come next.  The closure \<open>Subscribe\<close> returns is deferred once by its caller, so a
  subscriber leaves the run it subscribed to, only while it is in that run's set, and closes its
  channel after; a snapshot is the set in some order; a send is by a publisher inside its loop.
\<close>

fun fits :: "live \<Rightarrow> hub_op \<Rightarrow> bool" where
  "fits w (OpLeave rid s) \<longleftrightarrow> s \<in> set (subs_of (lv_hub w) rid)"
| "fits w (OpClose s) \<longleftrightarrow> s \<in> set (lv_leaving w)"
| "fits w (OpPublish ev ss) \<longleftrightarrow> mset ss = mset (subs_of (lv_hub w) (event_run ev))"
| "fits w (OpSend p) \<longleftrightarrow> p < length (lv_pubs w) \<and> snd (lv_pubs w ! p) \<noteq> []"
| "fits w _ \<longleftrightarrow> True"

text \<open>Runs of the hub in which every step also has the property \<open>extra\<close>.\<close>

inductive hub_trace ::
  "(live \<Rightarrow> hub_op \<Rightarrow> bool) \<Rightarrow> live \<Rightarrow> hub_op list \<Rightarrow> live \<Rightarrow> (nat \<times> stream_event) list \<Rightarrow> bool" for extra where
  finished: "hub_trace extra w [] w []"
| next_op: "fits w op \<Longrightarrow> extra w op \<Longrightarrow> hub_step op w = Some (w1, log) \<Longrightarrow> hub_trace extra w1 ops w2 log'
    \<Longrightarrow> hub_trace extra w (op # ops) w2 (log @ log')"

inductive_simps hub_trace_Nil [simp]: "hub_trace extra w [] w' log"
inductive_simps hub_trace_Cons: "hub_trace extra w (op # ops) w' log"

definition any_step :: "live \<Rightarrow> hub_op \<Rightarrow> bool" where "any_step w op \<longleftrightarrow> True"

text \<open>The events of the publishers that still have to send to a subscriber.\<close>

definition waiting :: "nat \<Rightarrow> live \<Rightarrow> stream_event list" where
  "waiting s w = map fst (filter (\<lambda>(ev, ss). s \<in> set ss) (lv_pubs w))"

text \<open>A publisher is overtaken when a subscriber it still has to send to leaves.\<close>

fun not_overtaking :: "live \<Rightarrow> hub_op \<Rightarrow> bool" where
  "not_overtaking w (OpLeave rid s) \<longleftrightarrow> waiting s w = []"
| "not_overtaking w _ \<longleftrightarrow> True"

definition channel_closed :: "live \<Rightarrow> nat \<Rightarrow> bool" where
  "channel_closed w s \<longleftrightarrow> (case hb_chans (lv_hub w) s of None \<Rightarrow> False | Some c \<Rightarrow> \<not> ch_open c)"

section \<open>What every operation keeps\<close>

text \<open>No run has an empty set, no subscriber is in two sets, and who is in a set has an open channel.\<close>

definition hub_ok :: "hub \<Rightarrow> bool" where
  "hub_ok h \<longleftrightarrow>
     (\<forall>rid ss. hb_subs h rid = Some ss \<longrightarrow> ss \<noteq> [] \<and> distinct ss)
     \<and> (\<forall>rid rid' s. s \<in> set (subs_of h rid) \<longrightarrow> s \<in> set (subs_of h rid') \<longrightarrow> rid = rid')
     \<and> (\<forall>rid s. s \<in> set (subs_of h rid) \<longrightarrow> (\<exists>c. hb_chans h s = Some c \<and> ch_open c))
     \<and> (\<forall>s c. hb_chans h s = Some c \<longrightarrow> s < hb_next h \<and> length (ch_buf c) \<le> channel_capacity)"

lemma hub_okD:
  assumes "hub_ok h"
  shows "distinct (subs_of h rid)"
    and "s \<in> set (subs_of h rid) \<Longrightarrow> s \<in> set (subs_of h rid') \<Longrightarrow> rid = rid'"
    and "s \<in> set (subs_of h rid) \<Longrightarrow> \<exists>c. hb_chans h s = Some c \<and> ch_open c"
    and "hb_chans h s = Some c \<Longrightarrow> s < hb_next h \<and> length (ch_buf c) \<le> channel_capacity"
    and "hb_subs h rid \<noteq> Some []"
proof -
  note ok = assms [unfolded hub_ok_def]
  show "distinct (subs_of h rid)" using ok by (auto simp: subs_of_def split: option.split)
  show "s \<in> set (subs_of h rid) \<Longrightarrow> s \<in> set (subs_of h rid') \<Longrightarrow> rid = rid'" using ok by blast
  show "s \<in> set (subs_of h rid) \<Longrightarrow> \<exists>c. hb_chans h s = Some c \<and> ch_open c" using ok by blast
  show "hb_chans h s = Some c \<Longrightarrow> s < hb_next h \<and> length (ch_buf c) \<le> channel_capacity" using ok by blast
  show "hb_subs h rid \<noteq> Some []" using ok by blast
qed

lemma new_hub_ok: "hub_ok new_hub"
  by (simp add: hub_ok_def new_hub_def subs_of_def)

lemma subs_of_leave: "subs_of (leave rid s h) rid' = (if rid' = rid then removeAll s (subs_of h rid) else subs_of h rid')"
  by (auto simp: leave_def subs_of_def Let_def split: option.split)

lemma leave_chans [simp]: "hb_chans (leave rid s h) = hb_chans h" "hb_next (leave rid s h) = hb_next h"
  by (simp_all add: leave_def Let_def split: option.split)

text \<open>Setting the contents of one channel.\<close>

definition set_chan :: "nat \<Rightarrow> channel \<Rightarrow> hub \<Rightarrow> hub" where
  "set_chan s c h = h\<lparr>hb_chans := (hb_chans h)(s \<mapsto> c)\<rparr>"

lemma set_chan_simps [simp]:
  "hb_subs (set_chan s c h) = hb_subs h" "subs_of (set_chan s c h) = subs_of h" "hb_next (set_chan s c h) = hb_next h"
  "hb_chans (set_chan s c h) = (hb_chans h)(s \<mapsto> c)"
  by (simp_all add: set_chan_def subs_of_def fun_eq_iff)

lemma hub_ok_set_chan:
  assumes "hub_ok h" and "hb_chans h s = Some c" and "length (ch_buf c') \<le> channel_capacity"
    and "ch_open c' \<or> (\<forall>rid. s \<notin> set (subs_of h rid))"
  shows "hub_ok (set_chan s c' h)"
  using assms unfolding hub_ok_def by (auto; metis)

lemma subscribe_ok: "hub_ok h \<Longrightarrow> hub_ok (snd (subscribe rid h))"
proof -
  assume ok: "hub_ok h"
  have fresh: "hb_chans h (hb_next h) = None" using hub_okD(4) [OF ok, of "hb_next h"] by fastforce
  then have notin: "hb_next h \<notin> set (subs_of h rid')" for rid' using hub_okD(3) [OF ok] by fastforce
  have subs: "subs_of (snd (subscribe rid h)) rid' = subs_of h rid' @ (if rid' = rid then [hb_next h] else [])" for rid'
    by (simp add: subscribe_def Let_def subs_of_def)
  show ?thesis
    unfolding hub_ok_def
  proof (intro conjI allI impI)
    fix rid' ss
    assume "hb_subs (snd (subscribe rid h)) rid' = Some ss"
    then show "ss \<noteq> []" and "distinct ss"
      using ok notin [of rid] hub_okD(1) [OF ok, of rid] by (auto simp: subscribe_def Let_def hub_ok_def split: if_splits)
  next
    fix rid1 rid2 s
    assume "s \<in> set (subs_of (snd (subscribe rid h)) rid1)" "s \<in> set (subs_of (snd (subscribe rid h)) rid2)"
    then show "rid1 = rid2" using notin hub_okD(2) [OF ok] by (auto simp: subs split: if_splits)
  next
    fix rid' s
    assume "s \<in> set (subs_of (snd (subscribe rid h)) rid')"
    then have "s = hb_next h \<or> s \<in> set (subs_of h rid')" by (auto simp: subs split: if_splits)
    then show "\<exists>c. hb_chans (snd (subscribe rid h)) s = Some c \<and> ch_open c"
      using hub_okD(3) [OF ok, of s rid'] by (auto simp: subscribe_def Let_def)
  next
    fix s c
    assume "hb_chans (snd (subscribe rid h)) s = Some c"
    then show "s < hb_next (snd (subscribe rid h))" and "length (ch_buf c) \<le> channel_capacity"
      using hub_okD(4) [OF ok, of s c] by (auto simp: subscribe_def Let_def split: if_splits)
  qed
qed

lemma leave_ok:
  assumes ok: "hub_ok h"
  shows "hub_ok (leave rid s h)"
  unfolding hub_ok_def
proof (intro conjI allI impI)
  have sub: "set (subs_of (leave rid s h) rid') \<subseteq> set (subs_of h rid')" for rid' by (auto simp: subs_of_leave)
  fix rid' ss
  assume "hb_subs (leave rid s h) rid' = Some ss"
  then show "ss \<noteq> []" and "distinct ss"
    using hub_okD(1) [OF ok, of rid'] hub_okD(5) [OF ok, of rid']
    by (auto simp: leave_def Let_def subs_of_def distinct_removeAll split: if_splits option.splits)
next
  fix rid1 rid2 u
  assume "u \<in> set (subs_of (leave rid s h) rid1)" "u \<in> set (subs_of (leave rid s h) rid2)"
  then show "rid1 = rid2" using hub_okD(2) [OF ok] by (auto simp: subs_of_leave split: if_splits)
next
  fix rid' u
  assume "u \<in> set (subs_of (leave rid s h) rid')"
  then have "u \<in> set (subs_of h rid')" by (auto simp: subs_of_leave split: if_splits)
  then show "\<exists>c. hb_chans (leave rid s h) u = Some c \<and> ch_open c" using hub_okD(3) [OF ok] by simp
next
  fix u c
  assume "hb_chans (leave rid s h) u = Some c"
  then show "u < hb_next (leave rid s h)" and "length (ch_buf c) \<le> channel_capacity"
    using hub_okD(4) [OF ok] by auto
qed

lemma receive_ok: "hub_ok h \<Longrightarrow> hub_ok (snd (receive s h))"
proof (cases "hb_chans h s")
  case (Some c)
  assume ok: "hub_ok h"
  show ?thesis
  proof (cases "ch_buf c")
    case (Cons ev rest)
    then have "hub_ok (set_chan s (c\<lparr>ch_buf := rest\<rparr>) h)"
      using Some ok hub_okD(3,4) [OF ok] by (intro hub_ok_set_chan [OF ok Some]) fastforce+
    with Some Cons show ?thesis by (simp add: receive_def set_chan_def)
  qed (use Some ok in \<open>simp add: receive_def\<close>)
qed (simp add: receive_def)


text \<open>The goroutines: whom a publisher has yet to send to, and who has yet to close a channel.\<close>

definition pub_ok :: "hub \<Rightarrow> stream_event \<times> nat list \<Rightarrow> bool" where
  "pub_ok h p \<longleftrightarrow> distinct (snd p) \<and>
     (\<forall>s \<in> set (snd p). hb_chans h s \<noteq> None \<and> (\<forall>rid. s \<in> set (subs_of h rid) \<longrightarrow> rid = event_run (fst p)))"

definition leaving_ok :: "hub \<Rightarrow> nat list \<Rightarrow> bool" where
  "leaving_ok h ss \<longleftrightarrow> distinct ss \<and>
     (\<forall>s \<in> set ss. (\<exists>c. hb_chans h s = Some c \<and> ch_open c) \<and> (\<forall>rid. s \<notin> set (subs_of h rid)))"

definition live_ok :: "live \<Rightarrow> bool" where
  "live_ok w \<longleftrightarrow> hub_ok (lv_hub w) \<and> (\<forall>p \<in> set (lv_pubs w). pub_ok (lv_hub w) p) \<and> leaving_ok (lv_hub w) (lv_leaving w)"

lemma idle_ok: "live_ok idle"
  by (simp add: live_ok_def idle_def new_hub_ok leaving_ok_def)

lemma live_okD:
  assumes "live_ok w"
  shows "hub_ok (lv_hub w)" "p < length (lv_pubs w) \<Longrightarrow> pub_ok (lv_hub w) (lv_pubs w ! p)"
    "leaving_ok (lv_hub w) (lv_leaving w)"
  using assms by (simp_all add: live_ok_def)

lemma hub_ok_fresh: "hub_ok h \<Longrightarrow> hb_chans h (hb_next h) = None"
  using hub_okD(4) [of h "hb_next h"] by fastforce

lemma subs_of_subscribe: "subs_of (snd (subscribe rid h)) rid' = subs_of h rid' @ (if rid' = rid then [hb_next h] else [])"
  by (simp add: subscribe_def Let_def subs_of_def)

lemma chans_subscribe:
  "hb_chans (snd (subscribe rid h)) = (hb_chans h)(hb_next h \<mapsto> \<lparr>ch_buf = [], ch_open = True\<rparr>)"
  by (simp add: subscribe_def Let_def)

lemma pub_ok_subscribe: "hub_ok h \<Longrightarrow> pub_ok h p \<Longrightarrow> pub_ok (snd (subscribe rid h)) p"
  using hub_ok_fresh [of h] by (fastforce simp: pub_ok_def subs_of_subscribe chans_subscribe split: if_splits)

lemma leaving_ok_subscribe: "hub_ok h \<Longrightarrow> leaving_ok h ss \<Longrightarrow> leaving_ok (snd (subscribe rid h)) ss"
  using hub_ok_fresh [of h] by (fastforce simp: leaving_ok_def subs_of_subscribe chans_subscribe split: if_splits)

lemma pub_ok_leave: "pub_ok h p \<Longrightarrow> pub_ok (leave rid s h) p"
  by (auto simp: pub_ok_def subs_of_leave split: if_splits)

lemma leaving_ok_leave:
  assumes ok: "hub_ok h" and l: "leaving_ok h ss" and s: "s \<in> set (subs_of h rid)"
  shows "leaving_ok (leave rid s h) (ss @ [s])"
proof -
  have "s \<notin> set ss" using l s by (auto simp: leaving_ok_def)
  moreover have "s \<notin> set (subs_of (leave rid s h) rid')" for rid'
    using hub_okD(2) [OF ok s] by (auto simp: subs_of_leave)
  ultimately show ?thesis using l hub_okD(3) [OF ok s] by (auto simp: leaving_ok_def subs_of_leave split: if_splits)
qed

text \<open>Writing one channel leaves both in place, as long as no goroutine is about to close it.\<close>

lemma pub_ok_set_chan: "pub_ok h p \<Longrightarrow> pub_ok (set_chan s c h) p"
  by (auto simp: pub_ok_def)

lemma leaving_ok_set_chan: "leaving_ok h ss \<Longrightarrow> ch_open c \<or> s \<notin> set ss \<Longrightarrow> leaving_ok (set_chan s c h) ss"
  by (auto simp: leaving_ok_def)

lemma close_channel_leaving:
  assumes ok: "hub_ok h" and l: "leaving_ok h ss" and s: "s \<in> set ss"
  obtains c where "close_channel s h = Some (set_chan s (c\<lparr>ch_open := False\<rparr>) h)"
    and "hb_chans h s = Some c" and "ch_open c"
    and "hub_ok (set_chan s (c\<lparr>ch_open := False\<rparr>) h)" and "leaving_ok (set_chan s (c\<lparr>ch_open := False\<rparr>) h) (remove1 s ss)"
proof -
  obtain c where c: "hb_chans h s = Some c" "ch_open c" and no: "\<forall>rid. s \<notin> set (subs_of h rid)"
    using l s by (auto simp: leaving_ok_def)
  show thesis
  proof (rule that [OF _ c])
    show "close_channel s h = Some (set_chan s (c\<lparr>ch_open := False\<rparr>) h)" using c by (simp add: close_channel_def set_chan_def)
    show "hub_ok (set_chan s (c\<lparr>ch_open := False\<rparr>) h)"
      using no hub_okD(4) [OF ok c(1)] by (intro hub_ok_set_chan [OF ok c(1)]) simp_all
    show "leaving_ok (set_chan s (c\<lparr>ch_open := False\<rparr>) h) (remove1 s ss)"
      using l by (auto simp: leaving_ok_def)
  qed
qed

text \<open>A turn of a publisher's loop: a panic when the channel is closed, else at most one more event in it.\<close>

lemma send_one_cases:
  assumes ok: "hub_ok h" and c: "hb_chans h s = Some c"
  shows "\<not> ch_open c \<Longrightarrow> send_one ev s h = None"
    and "ch_open c \<Longrightarrow> \<exists>b. length b \<le> channel_capacity
      \<and> b = (if length (ch_buf c) < channel_capacity then ch_buf c @ [ev] else ch_buf c)
      \<and> send_one ev s h = Some (set_chan s \<lparr>ch_buf = b, ch_open = True\<rparr> h)
      \<and> hub_ok (set_chan s \<lparr>ch_buf = b, ch_open = True\<rparr> h)"
proof -
  show "\<not> ch_open c \<Longrightarrow> send_one ev s h = None" using c by (simp add: send_one_def)
next
  assume op: "ch_open c"
  let ?b = "if length (ch_buf c) < channel_capacity then ch_buf c @ [ev] else ch_buf c"
  have len: "length ?b \<le> channel_capacity" using hub_okD(4) [OF ok c] by simp
  moreover have "hub_ok (set_chan s \<lparr>ch_buf = ?b, ch_open = True\<rparr> h)"
    using len by (intro hub_ok_set_chan [OF ok c]) simp_all
  moreover have "send_one ev s h = Some (set_chan s \<lparr>ch_buf = ?b, ch_open = True\<rparr> h)"
  proof (cases "length (ch_buf c) < channel_capacity")
    case True
    then show ?thesis using c op by (cases c) (simp add: send_one_def set_chan_def)
  next
    case False
    moreover have "h\<lparr>hb_chans := (hb_chans h)(s \<mapsto> c)\<rparr> = h" using c by (simp add: fun_upd_idem)
    ultimately show ?thesis using c op by (cases c) (simp add: send_one_def set_chan_def)
  qed
  ultimately show "\<exists>b. length b \<le> channel_capacity
      \<and> b = (if length (ch_buf c) < channel_capacity then ch_buf c @ [ev] else ch_buf c)
      \<and> send_one ev s h = Some (set_chan s \<lparr>ch_buf = b, ch_open = True\<rparr> h)
      \<and> hub_ok (set_chan s \<lparr>ch_buf = b, ch_open = True\<rparr> h)" by blast
qed

lemma next_receiver:
  assumes ok: "live_ok w" and p: "p < length (lv_pubs w)" and pub: "lv_pubs w ! p = (ev, s # ss)"
  obtains c where "hb_chans (lv_hub w) s = Some c" and "s \<notin> set ss" and "distinct ss"
  using live_okD(2) [OF ok p] pub by (auto simp: pub_ok_def)

text \<open>The only step that panics is a send to a channel that has been closed.\<close>

lemma hub_step_panics:
  assumes ok: "live_ok w" and fit: "fits w op"
  shows "hub_step op w = None \<longleftrightarrow>
    (\<exists>p ev s ss. op = OpSend p \<and> lv_pubs w ! p = (ev, s # ss) \<and> channel_closed w s)"
proof (cases op)
  case (OpSend p)
  then have p: "p < length (lv_pubs w)" and "snd (lv_pubs w ! p) \<noteq> []" using fit by simp_all
  then obtain ev s ss where pub: "lv_pubs w ! p = (ev, s # ss)" by (metis neq_Nil_conv surjective_pairing)
  obtain c where c: "hb_chans (lv_hub w) s = Some c" using next_receiver [OF ok p pub] .
  show ?thesis
    using send_one_cases [OF live_okD(1) [OF ok] c, of ev] OpSend pub c
    by (auto simp: publish_send_def channel_closed_def)
next
  case (OpClose s)
  then obtain c where "close_channel s (lv_hub w) = Some c"
    using close_channel_leaving [OF live_okD(1,3) [OF ok], of s] fit by auto
  then show ?thesis using OpClose by (simp add: unsubscribe_close_def)
next
  case (OpReceive s)
  show ?thesis
  proof (cases "receive s (lv_hub w)")
    case (Pair r h)
    then show ?thesis using OpReceive by (cases r) auto
  qed
qed auto

lemma publish_send_ok:
  assumes ok: "live_ok w" and p: "p < length (lv_pubs w)" and pub: "lv_pubs w ! p = (ev, s # ss)"
    and send: "publish_send p w = Some w1"
  obtains c b where "hb_chans (lv_hub w) s = Some c" "ch_open c"
    and "b = (if length (ch_buf c) < channel_capacity then ch_buf c @ [ev] else ch_buf c)"
    and "w1 = w\<lparr>lv_hub := set_chan s \<lparr>ch_buf = b, ch_open = True\<rparr> (lv_hub w), lv_pubs := (lv_pubs w)[p := (ev, ss)]\<rparr>"
    and "live_ok w1"
proof -
  obtain c where c: "hb_chans (lv_hub w) s = Some c" and dist: "s \<notin> set ss" "distinct ss"
    using next_receiver [OF ok p pub] .
  note sc = send_one_cases [OF live_okD(1) [OF ok] c, of ev]
  have op: "ch_open c"
  proof (rule ccontr)
    assume "\<not> ch_open c"
    with sc(1) send pub show False by (simp add: publish_send_def)
  qed
  obtain b where b: "b = (if length (ch_buf c) < channel_capacity then ch_buf c @ [ev] else ch_buf c)"
    and one: "send_one ev s (lv_hub w) = Some (set_chan s \<lparr>ch_buf = b, ch_open = True\<rparr> (lv_hub w))"
    and hub: "hub_ok (set_chan s \<lparr>ch_buf = b, ch_open = True\<rparr> (lv_hub w))"
    using sc(2) [OF op] by blast
  let ?w = "w\<lparr>lv_hub := set_chan s \<lparr>ch_buf = b, ch_open = True\<rparr> (lv_hub w), lv_pubs := (lv_pubs w)[p := (ev, ss)]\<rparr>"
  have w1: "w1 = ?w" using send pub one by (simp add: publish_send_def)
  have new: "pub_ok (lv_hub w) (ev, ss)" using live_okD(2) [OF ok p] pub by (auto simp: pub_ok_def)
  have "pub_ok (lv_hub w1) q" if q: "q \<in> set (lv_pubs w1)" for q
  proof -
    have "q = (ev, ss) \<or> q \<in> set (lv_pubs w)"
      using q set_update_subset_insert [of "lv_pubs w" p "(ev, ss)"] by (auto simp: w1)
    then have "pub_ok (lv_hub w) q" using new ok by (auto simp: live_ok_def)
    then show ?thesis by (simp add: w1 pub_ok_set_chan)
  qed
  moreover have "leaving_ok (lv_hub w1) (lv_leaving w1)"
    using leaving_ok_set_chan [OF live_okD(3) [OF ok]] by (simp add: w1)
  ultimately have "live_ok w1" using hub by (simp add: live_ok_def w1)
  with c op b w1 show thesis by (rule that)
qed

lemma receive_hub:
  assumes "hub_step (OpReceive s) w = Some (w1, log)"
  shows "w1 = w\<lparr>lv_hub := snd (receive s (lv_hub w))\<rparr>"
  using assms by (auto split: prod.splits received.splits)

lemma receive_goroutines:
  assumes ok: "hub_ok h"
  shows "pub_ok h p \<Longrightarrow> pub_ok (snd (receive s h)) p" and "leaving_ok h ss \<Longrightarrow> leaving_ok (snd (receive s h)) ss"
  by (auto simp: receive_def pub_ok_def leaving_ok_def subs_of_def split: option.splits list.splits)

lemma hub_step_ok:
  assumes ok: "live_ok w" and fit: "fits w op" and step: "hub_step op w = Some (w1, log)"
  shows "live_ok w1"
proof (cases op)
  case (OpSubscribe rid)
  then show ?thesis using step ok subscribe_ok pub_ok_subscribe leaving_ok_subscribe by (auto simp: live_ok_def)
next
  case (OpLeave rid s)
  then show ?thesis
    using step fit ok leave_ok pub_ok_leave leaving_ok_leave by (auto simp: live_ok_def unsubscribe_leave_def)
next
  case (OpClose s)
  then have s: "s \<in> set (lv_leaving w)" using fit by simp
  obtain c where "close_channel s (lv_hub w) = Some (set_chan s (c\<lparr>ch_open := False\<rparr>) (lv_hub w))"
    and "hub_ok (set_chan s (c\<lparr>ch_open := False\<rparr>) (lv_hub w))"
    and "leaving_ok (set_chan s (c\<lparr>ch_open := False\<rparr>) (lv_hub w)) (remove1 s (lv_leaving w))"
    using close_channel_leaving [OF live_okD(1,3) [OF ok] s] .
  then show ?thesis using step OpClose ok pub_ok_set_chan by (auto simp: live_ok_def unsubscribe_close_def)
next
  case (OpPublish ev ss)
  then have m: "mset ss = mset (subs_of (lv_hub w) (event_run ev))" using fit by simp
  have set: "set ss = set (subs_of (lv_hub w) (event_run ev))" by (rule mset_eq_setD [OF m])
  have "distinct ss" using mset_eq_imp_distinct_iff [OF m] hub_okD(1) [OF live_okD(1) [OF ok]] by blast
  moreover have "hb_chans (lv_hub w) s \<noteq> None" if "s \<in> set ss" for s
    using hub_okD(3) [OF live_okD(1) [OF ok]] that set by fastforce
  moreover have "rid = event_run ev" if "s \<in> set ss" and "s \<in> set (subs_of (lv_hub w) rid)" for s rid
    using hub_okD(2) [OF live_okD(1) [OF ok] that(2), of "event_run ev"] that(1) set by simp
  ultimately have "pub_ok (lv_hub w) (ev, ss)" by (simp add: pub_ok_def)
  then show ?thesis using step OpPublish ok by (auto simp: live_ok_def publish_snapshot_def)
next
  case (OpSend p)
  then have p: "p < length (lv_pubs w)" and "snd (lv_pubs w ! p) \<noteq> []" using fit by simp_all
  then obtain ev s ss where pub: "lv_pubs w ! p = (ev, s # ss)" by (metis neq_Nil_conv surjective_pairing)
  have "publish_send p w = Some w1" using step OpSend by auto
  from publish_send_ok [OF ok p pub this] show ?thesis by blast
next
  case (OpReceive s)
  with step have "w1 = w\<lparr>lv_hub := snd (receive s (lv_hub w))\<rparr>" by (intro receive_hub) simp
  then show ?thesis using ok receive_ok receive_goroutines by (auto simp: live_ok_def)
qed

lemma hub_trace_ok: "hub_trace extra w ops w2 log \<Longrightarrow> live_ok w \<Longrightarrow> live_ok w2"
  by (induction rule: hub_trace.induct) (blast intro: hub_step_ok)+

section \<open>What a subscriber reads\<close>

text \<open>The events published on a run, in the order of their snapshots, and what one subscriber read.\<close>

fun published :: "string \<Rightarrow> hub_op list \<Rightarrow> stream_event list" where
  "published rid [] = []"
| "published rid (OpPublish ev ss # ops) = (if event_run ev = rid then ev # published rid ops else published rid ops)"
| "published rid (_ # ops) = published rid ops"

definition read_by :: "nat \<Rightarrow> (nat \<times> stream_event) list \<Rightarrow> stream_event list" where
  "read_by s log = map snd (filter (\<lambda>(u, _). u = s) log)"

lemma read_by_simps [simp]:
  "read_by s [] = []" "read_by s (log @ log') = read_by s log @ read_by s log'"
  "read_by s [(u, ev)] = (if u = s then [ev] else [])"
  by (simp_all add: read_by_def)

lemma published_Cons: "published rid (op # ops) = published rid [op] @ published rid ops"
  by (cases op) auto

text \<open>
  A reader keeps up when its buffer has room at every send to it; the publishers of a run take turns
  when each has sent to all before the next reads the set.
\<close>

fun keeps_up :: "nat \<Rightarrow> live \<Rightarrow> hub_op \<Rightarrow> bool" where
  "keeps_up s w (OpSend p) \<longleftrightarrow>
     (case lv_pubs w ! p of
        (ev, []) \<Rightarrow> True
      | (ev, u # ss) \<Rightarrow> u = s \<longrightarrow>
          (case hb_chans (lv_hub w) s of None \<Rightarrow> True | Some c \<Rightarrow> length (ch_buf c) < channel_capacity))"
| "keeps_up s w _ \<longleftrightarrow> True"

fun in_turn :: "string \<Rightarrow> live \<Rightarrow> hub_op \<Rightarrow> bool" where
  "in_turn rid w (OpPublish ev ss) \<longleftrightarrow>
     (event_run ev = rid \<longrightarrow> (\<forall>p \<in> set (lv_pubs w). event_run (fst p) = rid \<longrightarrow> snd p = []))"
| "in_turn rid w _ \<longleftrightarrow> True"

definition listens :: "hub \<Rightarrow> string \<Rightarrow> nat \<Rightarrow> stream_event list \<Rightarrow> bool" where
  "listens h rid s b \<longleftrightarrow> s \<in> set (subs_of h rid) \<and> hb_chans h s = Some \<lparr>ch_buf = b, ch_open = True\<rparr>"

lemma waiting_run:
  assumes "live_ok w" and "listens (lv_hub w) rid s b" and "(ev, ss) \<in> set (lv_pubs w)" and "s \<in> set ss"
  shows "event_run ev = rid"
  using assms by (fastforce simp: live_ok_def pub_ok_def listens_def)

text \<open>One more send: the event leaves the waiting ones when it is sent to the subscriber itself.\<close>

lemma waiting_send:
  assumes p: "p < length (lv_pubs w)" and pub: "lv_pubs w ! p = (ev, u # ss)" and dist: "u \<notin> set ss"
  shows "\<exists>before after. waiting s w = before @ (if u = s then [ev] else []) @ after
    \<and> waiting s (w\<lparr>lv_hub := h, lv_pubs := (lv_pubs w)[p := (ev, ss)]\<rparr>) = before @ after"
proof -
  let ?keep = "\<lambda>ps. map fst (filter (\<lambda>(ev, ss). s \<in> set ss) ps)"
  have pubs: "lv_pubs w = take p (lv_pubs w) @ (ev, u # ss) # drop (Suc p) (lv_pubs w)"
    using id_take_nth_drop [OF p] pub by simp
  have upd: "(lv_pubs w)[p := (ev, ss)] = take p (lv_pubs w) @ (ev, ss) # drop (Suc p) (lv_pubs w)"
    by (rule upd_conv_take_nth_drop [OF p])
  have "waiting s w = ?keep (take p (lv_pubs w)) @ (if u = s \<or> s \<in> set ss then [ev] else []) @ ?keep (drop (Suc p) (lv_pubs w))"
    unfolding waiting_def by (subst pubs) auto
  moreover have "waiting s (w\<lparr>lv_hub := h, lv_pubs := (lv_pubs w)[p := (ev, ss)]\<rparr>)
      = ?keep (take p (lv_pubs w)) @ (if s \<in> set ss then [ev] else []) @ ?keep (drop (Suc p) (lv_pubs w))"
    by (simp add: waiting_def upd)
  ultimately show ?thesis
    using dist
    by (intro exI [of _ "?keep (take p (lv_pubs w)) @ (if u \<noteq> s \<and> s \<in> set ss then [ev] else [])"]
        exI [of _ "?keep (drop (Suc p) (lv_pubs w))"]) auto
qed

text \<open>
  What a subscriber that stays has after some steps, against what it had: \<open>read\<close> it read, \<open>b'\<close> is in its
  buffer and \<open>q'\<close> is still to be sent to it; \<open>b\<close>, \<open>q\<close> and the events \<open>ps\<close> published since is what it can get.
\<close>

definition gets ::
  "(live \<Rightarrow> hub_op \<Rightarrow> bool) \<Rightarrow> nat \<Rightarrow> string \<Rightarrow> stream_event list \<Rightarrow> stream_event list \<Rightarrow> stream_event list
     \<Rightarrow> stream_event list \<Rightarrow> stream_event list \<Rightarrow> stream_event list \<Rightarrow> bool" where
  "gets extra s rid read b' q' b q ps \<longleftrightarrow>
     mset (read @ b' @ q') \<subseteq># mset (b @ q @ ps)
     \<and> (extra \<le> keeps_up s \<longrightarrow> mset (read @ b' @ q') = mset (b @ q @ ps))
     \<and> (extra \<le> in_turn rid \<and> length q \<le> 1 \<longrightarrow> length q' \<le> 1 \<and> subseq (read @ b' @ q') (b @ q @ ps)
          \<and> (extra \<le> keeps_up s \<longrightarrow> read @ b' @ q' = b @ q @ ps))"

lemma gets_refl: "gets extra s rid [] b q b q []"
  by (simp add: gets_def)

lemma gets_trans:
  assumes 1: "gets extra s rid r1 b1 q1 b q ps" and 2: "gets extra s rid r2 b2 q2 b1 q1 ps'"
  shows "gets extra s rid (r1 @ r2) b2 q2 b q (ps @ ps')"
proof -
  have "mset (r2 @ b2 @ q2) \<subseteq># mset (b1 @ q1 @ ps')" using 2 by (simp add: gets_def)
  then have "mset (r1 @ r2 @ b2 @ q2) \<subseteq># mset r1 + mset (b1 @ q1 @ ps')"
    unfolding mset_append by (rule subset_mset.add_left_mono)
  also have "\<dots> = mset (r1 @ b1 @ q1) + mset ps'" by simp
  also have "\<dots> \<subseteq># mset (b @ q @ ps) + mset ps'" using 1 by (simp add: gets_def)
  finally have some: "mset ((r1 @ r2) @ b2 @ q2) \<subseteq># mset (b @ q @ ps @ ps')" by (simp add: add.assoc)
  have all: "mset ((r1 @ r2) @ b2 @ q2) = mset (b @ q @ ps @ ps')" if k: "extra \<le> keeps_up s"
  proof -
    have "mset (r1 @ b1 @ q1) = mset (b @ q @ ps)" and "mset (r2 @ b2 @ q2) = mset (b1 @ q1 @ ps')"
      using 1 2 k by (simp_all add: gets_def)
    then show ?thesis by (simp add: add.assoc)
  qed
  have ordered: "length q2 \<le> 1 \<and> subseq ((r1 @ r2) @ b2 @ q2) (b @ q @ ps @ ps')
      \<and> (extra \<le> keeps_up s \<longrightarrow> (r1 @ r2) @ b2 @ q2 = b @ q @ ps @ ps')"
    if t: "extra \<le> in_turn rid" "length q \<le> 1"
  proof -
    have first: "length q1 \<le> 1" "subseq (r1 @ b1 @ q1) (b @ q @ ps)"
      "extra \<le> keeps_up s \<Longrightarrow> r1 @ b1 @ q1 = b @ q @ ps" using 1 t by (simp_all add: gets_def)
    then have second: "length q2 \<le> 1" "subseq (r2 @ b2 @ q2) (b1 @ q1 @ ps')"
      "extra \<le> keeps_up s \<Longrightarrow> r2 @ b2 @ q2 = b1 @ q1 @ ps'" using 2 t by (simp_all add: gets_def)
    have "subseq (r1 @ r2 @ b2 @ q2) (r1 @ b1 @ q1 @ ps')"
      using second(2) by (rule list_emb_append_mono [OF subseq_order.refl])
    also have "subseq \<dots> ((b @ q @ ps) @ ps')"
      using list_emb_append_mono [OF first(2) subseq_order.refl, of ps'] by simp
    finally have "subseq ((r1 @ r2) @ b2 @ q2) (b @ q @ ps @ ps')" by simp
    moreover have "(r1 @ r2) @ b2 @ q2 = b @ q @ ps @ ps'" if "extra \<le> keeps_up s"
      using first(3) [OF that] second(3) [OF that] by (metis append.assoc)
    ultimately show ?thesis using second(1) by blast
  qed
  show ?thesis using some all ordered by (simp add: gets_def)
qed

text \<open>One step, as a subscriber that stays sees it.\<close>

lemma publish_gets:
  assumes ok: "live_ok w" and lis: "listens (lv_hub w) rid s b" and ex: "extra w (OpPublish ev ss)"
    and fit: "fits w (OpPublish ev ss)"
  shows "gets extra s rid [] b (waiting s (publish_snapshot ev ss w)) b (waiting s w) (published rid [OpPublish ev ss])"
proof -
  have "set ss = set (subs_of (lv_hub w) (event_run ev))" using fit mset_eq_setD by simp
  then have mine: "s \<in> set ss \<longleftrightarrow> event_run ev = rid"
    using lis hub_okD(2) [OF live_okD(1) [OF ok], of s rid "event_run ev"] by (auto simp: listens_def)
  then have wait: "waiting s (publish_snapshot ev ss w) = waiting s w @ published rid [OpPublish ev ss]"
    by (simp add: waiting_def publish_snapshot_def)
  have "length (waiting s w @ published rid [OpPublish ev ss]) \<le> 1"
    if "extra \<le> in_turn rid" and "length (waiting s w) \<le> 1"
  proof (cases "event_run ev = rid")
    case True
    have "in_turn rid w (OpPublish ev ss)" by (rule predicate2D [OF that(1) ex])
    then have "waiting s w = []"
      using True waiting_run [OF ok lis] by (fastforce simp: waiting_def filter_empty_conv)
    then show ?thesis by simp
  qed (use that in simp)
  then show ?thesis unfolding gets_def wait by simp
qed

lemma send_gets:
  assumes ok: "live_ok w" and lis: "listens (lv_hub w) rid s b" and ex: "extra w (OpSend p)"
    and fit: "fits w (OpSend p)" and send: "publish_send p w = Some w1"
  shows "\<exists>b1. listens (lv_hub w1) rid s b1 \<and> gets extra s rid [] b1 (waiting s w1) b (waiting s w) []"
proof -
  have p: "p < length (lv_pubs w)" and "snd (lv_pubs w ! p) \<noteq> []" using fit by simp_all
  then obtain ev u ss where pub: "lv_pubs w ! p = (ev, u # ss)" by (metis neq_Nil_conv surjective_pairing)
  obtain c b1 where c: "hb_chans (lv_hub w) u = Some c" "ch_open c"
    and b1: "b1 = (if length (ch_buf c) < channel_capacity then ch_buf c @ [ev] else ch_buf c)"
    and w1: "w1 = w\<lparr>lv_hub := set_chan u \<lparr>ch_buf = b1, ch_open = True\<rparr> (lv_hub w), lv_pubs := (lv_pubs w)[p := (ev, ss)]\<rparr>"
    using publish_send_ok [OF ok p pub send] by blast
  have "u \<notin> set ss" using next_receiver [OF ok p pub] by blast
  from waiting_send [OF p pub this, of s] obtain before aft
    where wait: "waiting s w = before @ (if u = s then [ev] else []) @ aft" "waiting s w1 = before @ aft"
    unfolding w1 by blast
  have room: "extra \<le> keeps_up s \<Longrightarrow> u = s \<Longrightarrow> length (ch_buf c) < channel_capacity"
    using ex pub c by (auto dest!: predicate2D)
  show ?thesis
  proof (cases "u = s")
    case True
    have "c = \<lparr>ch_buf = b, ch_open = True\<rparr>" using lis c True by (simp add: listens_def)
    then have b1': "b1 = (if length b < channel_capacity then b @ [ev] else b)" using b1 by simp
    have "listens (lv_hub w1) rid s b1" using lis True by (simp add: listens_def w1)
    moreover have "gets extra s rid [] b1 (waiting s w1) b (waiting s w) []"
      unfolding gets_def wait using room True b1' \<open>c = _\<close> by (cases "length b < channel_capacity") auto
    ultimately show ?thesis by blast
  next
    case False
    then have "listens (lv_hub w1) rid s b" using lis by (simp add: listens_def w1)
    moreover have "gets extra s rid [] b (waiting s w1) b (waiting s w) []"
      unfolding wait using False by (simp add: gets_def)
    ultimately show ?thesis by blast
  qed
qed

lemma receive_gets:
  assumes lis: "listens (lv_hub w) rid s b" and step: "hub_step (OpReceive u) w = Some (w1, log)"
  shows "\<exists>b1. listens (lv_hub w1) rid s b1 \<and> gets extra s rid (read_by s log) b1 q b q []"
proof (cases "u = s \<and> b \<noteq> []")
  case True
  then obtain ev rest where b: "b = ev # rest" by (cases b) auto
  have "receive s (lv_hub w) = (Got ev, set_chan s \<lparr>ch_buf = rest, ch_open = True\<rparr> (lv_hub w))"
    using lis b by (simp add: receive_def listens_def set_chan_def)
  then have "w1 = w\<lparr>lv_hub := set_chan s \<lparr>ch_buf = rest, ch_open = True\<rparr> (lv_hub w)\<rparr>" and "log = [(s, ev)]"
    using step True by auto
  then show ?thesis using lis b by (intro exI [of _ rest]) (simp add: listens_def gets_def)
next
  case False
  have "listens (lv_hub w1) rid s b" and "read_by s log = []"
    using step False lis
    by (auto simp: receive_def listens_def subs_of_def split: option.splits list.splits if_splits)
  then show ?thesis by (intro exI [of _ b]) (simp add: gets_def)
qed

lemma hub_step_listens:
  assumes ok: "live_ok w" and fit: "fits w op" and ex: "extra w op" and step: "hub_step op w = Some (w1, log)"
    and lis: "listens (lv_hub w) rid s b" and stay: "op \<noteq> OpLeave rid s"
  shows "\<exists>b1. listens (lv_hub w1) rid s b1
    \<and> gets extra s rid (read_by s log) b1 (waiting s w1) b (waiting s w) (published rid [op])"
proof (cases op)
  case (OpSubscribe rid')
  have w1: "w1 = w\<lparr>lv_hub := snd (subscribe rid' (lv_hub w))\<rparr>" and "log = []" using OpSubscribe step by auto
  moreover have "hb_next (lv_hub w) \<noteq> s" using lis hub_ok_fresh [OF live_okD(1) [OF ok]] by (auto simp: listens_def)
  then have "listens (lv_hub w1) rid s b" using lis by (auto simp: w1 listens_def subs_of_subscribe chans_subscribe)
  ultimately show ?thesis using OpSubscribe by (intro exI [of _ b]) (simp add: gets_def waiting_def)
next
  case (OpLeave rid' u)
  have w1: "w1 = unsubscribe_leave rid' u w" and log: "log = []" using OpLeave step by auto
  have "u \<noteq> s" using OpLeave fit stay lis hub_okD(2) [OF live_okD(1) [OF ok], of s rid rid'] by (auto simp: listens_def)
  then have "listens (lv_hub w1) rid s b" using lis by (auto simp: w1 unsubscribe_leave_def listens_def subs_of_leave)
  then show ?thesis using OpLeave log by (intro exI [of _ b]) (simp add: gets_def waiting_def w1 unsubscribe_leave_def)
next
  case (OpClose u)
  then have u: "u \<in> set (lv_leaving w)" using fit by simp
  then have "u \<noteq> s" using live_okD(3) [OF ok] lis by (auto simp: leaving_ok_def listens_def)
  obtain c where "close_channel u (lv_hub w) = Some (set_chan u c (lv_hub w))"
    using close_channel_leaving [OF live_okD(1,3) [OF ok] u] by blast
  then have w1: "w1 = w\<lparr>lv_hub := set_chan u c (lv_hub w), lv_leaving := remove1 u (lv_leaving w)\<rparr>" and "log = []"
    using OpClose step by (simp_all add: unsubscribe_close_def)
  moreover have "listens (lv_hub w1) rid s b" using lis \<open>u \<noteq> s\<close> by (simp add: w1 listens_def)
  ultimately show ?thesis using OpClose by (intro exI [of _ b]) (simp add: gets_def waiting_def)
next
  case (OpPublish ev ss)
  then have w1: "w1 = publish_snapshot ev ss w" and log: "log = []" using step by auto
  have "listens (lv_hub w1) rid s b" using lis by (simp add: w1 publish_snapshot_def)
  moreover have "gets extra s rid [] b (waiting s w1) b (waiting s w) (published rid [op])"
    unfolding w1 OpPublish using ex fit unfolding OpPublish by (rule publish_gets [OF ok lis])
  ultimately show ?thesis unfolding log read_by_simps by blast
next
  case (OpSend p)
  then have send: "publish_send p w = Some w1" and log: "log = []" using step by auto
  have none: "published rid [op] = []" using OpSend by simp
  show ?thesis
    unfolding log none read_by_simps using ex fit send unfolding OpSend by (rule send_gets [OF ok lis])
next
  case (OpReceive u)
  then have "w1 = w\<lparr>lv_hub := snd (receive u (lv_hub w))\<rparr>" using step by (intro receive_hub) simp
  then have "waiting s w1 = waiting s w" by (simp add: waiting_def)
  then show ?thesis using receive_gets [OF lis, of u w1 log extra "waiting s w"] step OpReceive by simp
qed

lemma hub_trace_listens:
  "hub_trace extra w ops w2 log \<Longrightarrow> live_ok w \<Longrightarrow> listens (lv_hub w) rid s b \<Longrightarrow> OpLeave rid s \<notin> set ops \<Longrightarrow>
    \<exists>b2. listens (lv_hub w2) rid s b2
      \<and> gets extra s rid (read_by s log) b2 (waiting s w2) b (waiting s w) (published rid ops)"
proof (induction arbitrary: b rule: hub_trace.induct)
  case (finished w)
  then show ?case by (intro exI [of _ b]) (simp add: gets_refl)
next
  case (next_op w op w1 log ops w2 log')
  have "op \<noteq> OpLeave rid s" using next_op.prems(3) by auto
  from hub_step_listens [where extra = extra, OF next_op.prems(1) next_op.hyps(1,2,3) next_op.prems(2) this]
  obtain b1 where b1: "listens (lv_hub w1) rid s b1"
    and g1: "gets extra s rid (read_by s log) b1 (waiting s w1) b (waiting s w) (published rid [op])" by blast
  have "live_ok w1" using hub_step_ok [OF next_op.prems(1) next_op.hyps(1,3)] .
  from next_op.IH [OF this b1] next_op.prems(3) obtain b2 where b2: "listens (lv_hub w2) rid s b2"
    and g2: "gets extra s rid (read_by s log') b2 (waiting s w2) b1 (waiting s w1) (published rid ops)" by auto
  have "gets extra s rid (read_by s (log @ log')) b2 (waiting s w2) b (waiting s w) (published rid (op # ops))"
    using gets_trans [OF g1 g2] published_Cons [of rid op ops] by simp
  with b2 show ?case by blast
qed

section \<open>Publishers and subscribers that leave\<close>

text \<open>Whoever a publisher has yet to send to is still in the set of the run, or has left it since.\<close>

lemma held_or_left_step:
  assumes ok: "live_ok w" and fit: "fits w op" and step: "hub_step op w = Some (w1, log)"
    and held: "(ev, ss) \<in> set (lv_pubs w1)" "s \<in> set ss"
  shows "s \<in> set (subs_of (lv_hub w1) (event_run ev)) \<or> op = OpLeave (event_run ev) s
    \<or> (s \<notin> set (subs_of (lv_hub w) (event_run ev)) \<and> (\<exists>ss'. (ev, ss') \<in> set (lv_pubs w) \<and> s \<in> set ss'))"
proof (cases op)
  case (OpSend p)
  then have p: "p < length (lv_pubs w)" and "snd (lv_pubs w ! p) \<noteq> []" using fit by simp_all
  then obtain ev' u us where pub: "lv_pubs w ! p = (ev', u # us)" by (metis neq_Nil_conv surjective_pairing)
  have "publish_send p w = Some w1" using step OpSend by auto
  from publish_send_ok [OF ok p pub this] obtain h where
    w1: "w1 = w\<lparr>lv_hub := set_chan u h (lv_hub w), lv_pubs := (lv_pubs w)[p := (ev', us)]\<rparr>" by blast
  have "(ev', u # us) \<in> set (lv_pubs w)" using nth_mem [OF p] pub by simp
  moreover have "(ev, ss) = (ev', us) \<or> (ev, ss) \<in> set (lv_pubs w)"
    using held(1) set_update_subset_insert [of "lv_pubs w" p "(ev', us)"] by (auto simp: w1)
  ultimately have "\<exists>ss'. (ev, ss') \<in> set (lv_pubs w) \<and> s \<in> set ss'" using held(2) by (metis Pair_inject list.set_intros(2))
  then show ?thesis by (auto simp: w1)
next
  case (OpPublish ev' us)
  then have "set us = set (subs_of (lv_hub w) (event_run ev'))" using fit mset_eq_setD by simp
  then show ?thesis using OpPublish step held by (auto simp: publish_snapshot_def)
next
  case (OpClose u)
  then have u: "u \<in> set (lv_leaving w)" using fit by simp
  obtain c where "close_channel u (lv_hub w) = Some (set_chan u c (lv_hub w))"
    using close_channel_leaving [OF live_okD(1,3) [OF ok] u] by blast
  then show ?thesis using OpClose step held by (auto simp: unsubscribe_close_def)
next
  case (OpReceive u)
  then have w1: "w1 = w\<lparr>lv_hub := snd (receive u (lv_hub w))\<rparr>" using step by (intro receive_hub) simp
  have "subs_of (snd (receive u (lv_hub w))) = subs_of (lv_hub w)"
    by (auto simp: receive_def subs_of_def fun_eq_iff split: option.split list.split)
  then show ?thesis using held by (auto simp: w1)
qed (use step held in \<open>auto simp: subs_of_subscribe unsubscribe_leave_def subs_of_leave split: if_splits\<close>)

lemma held_or_left:
  "hub_trace extra w ops w2 log \<Longrightarrow> live_ok w \<Longrightarrow> (ev, ss) \<in> set (lv_pubs w2) \<Longrightarrow> s \<in> set ss \<Longrightarrow>
    s \<in> set (subs_of (lv_hub w2) (event_run ev)) \<or> OpLeave (event_run ev) s \<in> set ops
    \<or> (s \<notin> set (subs_of (lv_hub w) (event_run ev)) \<and> (\<exists>ss'. (ev, ss') \<in> set (lv_pubs w) \<and> s \<in> set ss'))"
proof (induction arbitrary: rule: hub_trace.induct)
  case (next_op w op w1 log ops w2 log')
  have "live_ok w1" using hub_step_ok [OF next_op.prems(1) next_op.hyps(1,3)] .
  from next_op.IH [OF this next_op.prems(2,3)] show ?case
  proof (elim disjE conjE exE)
    fix ss' assume "s \<notin> set (subs_of (lv_hub w1) (event_run ev))" "(ev, ss') \<in> set (lv_pubs w1)" "s \<in> set ss'"
    with held_or_left_step [OF next_op.prems(1) next_op.hyps(1,3)] show ?thesis by fastforce
  qed auto
qed auto

text \<open>While no publisher is overtaken, each has yet to send only to subscribers in their set.\<close>

definition none_overtaken :: "live \<Rightarrow> bool" where
  "none_overtaken w \<longleftrightarrow> (\<forall>(ev, ss) \<in> set (lv_pubs w). set ss \<subseteq> set (subs_of (lv_hub w) (event_run ev)))"

lemma none_overtaken_step:
  assumes ok: "live_ok w" and fit: "fits w op" and step: "hub_step op w = Some (w1, log)"
    and calm: "not_overtaking w op" and none: "none_overtaken w"
  shows "none_overtaken w1"
  unfolding none_overtaken_def
proof (intro ballI, clarify)
  fix ev ss s
  assume held: "(ev, ss) \<in> set (lv_pubs w1)" "s \<in> set ss"
  from held_or_left_step [OF ok fit step held] show "s \<in> set (subs_of (lv_hub w1) (event_run ev))"
  proof (elim disjE conjE exE)
    assume op: "op = OpLeave (event_run ev) s"
    then have "lv_pubs w1 = lv_pubs w" using step by (auto simp: unsubscribe_leave_def)
    then have "waiting s w \<noteq> []" using held by (auto simp: waiting_def filter_empty_conv)
    then show ?thesis using calm op by simp
  qed (use none in \<open>auto simp: none_overtaken_def\<close>)
qed

lemma none_overtaken_trace:
  "hub_trace not_overtaking w ops w2 log \<Longrightarrow> live_ok w \<Longrightarrow> none_overtaken w \<Longrightarrow> none_overtaken w2"
  by (induction rule: hub_trace.induct) (blast intro: hub_step_ok none_overtaken_step)+

lemma none_overtaken_no_panic:
  assumes ok: "live_ok w" and none: "none_overtaken w" and fit: "fits w op"
  shows "hub_step op w \<noteq> None"
proof
  assume "hub_step op w = None"
  then obtain p ev s ss where p: "op = OpSend p" and pub: "lv_pubs w ! p = (ev, s # ss)" and closed: "channel_closed w s"
    unfolding hub_step_panics [OF ok fit] by blast
  have "(ev, s # ss) \<in> set (lv_pubs w)" using fit p pub nth_mem [of p "lv_pubs w"] by simp
  then have "s \<in> set (subs_of (lv_hub w) (event_run ev))" using none by (auto simp: none_overtaken_def)
  then show False using hub_okD(3) [OF live_okD(1) [OF ok]] closed by (fastforce simp: channel_closed_def)
qed

section \<open>Properties\<close>

lemma forward_events_done:
  "\<exists>ev \<in> set evs. is_done ev \<Longrightarrow> \<exists>d. last (forward_events evs) = EventFrame d \<and> is_done d \<and> d \<in> set evs"
proof (induction evs)
  case (Cons ev evs)
  show ?case
  proof (cases "is_done ev")
    case False
    with Cons obtain d where d: "last (forward_events evs) = EventFrame d" "is_done d" "d \<in> set evs" by auto
    moreover have "forward_events evs \<noteq> []" using d(3) by (cases evs) auto
    ultimately show ?thesis using False by auto
  qed simp
qed simp

lemma published_run: "ev \<in> set (published rid ops) \<Longrightarrow> event_run ev = rid"
  by (induction rid ops rule: published.induct) (auto split: if_splits)

lemma subscribe_listens:
  assumes ok: "live_ok w" and sub: "hub_step (OpSubscribe rid) w = Some (w1, [])"
  shows "listens (lv_hub w1) rid (hb_next (lv_hub w)) []" and "live_ok w1" and "waiting (hb_next (lv_hub w)) w1 = []"
proof -
  show "live_ok w1" using hub_step_ok [OF ok _ sub] by simp
  have w1: "w1 = w\<lparr>lv_hub := snd (subscribe rid (lv_hub w))\<rparr>" using sub by simp
  then show "listens (lv_hub w1) rid (hb_next (lv_hub w)) []"
    by (simp add: listens_def subs_of_subscribe chans_subscribe)
  show "waiting (hb_next (lv_hub w)) w1 = []"
    using ok hub_ok_fresh [of "lv_hub w"] by (fastforce simp: w1 waiting_def live_ok_def pub_ok_def filter_empty_conv)
qed

text \<open>
  C10: A browser that subscribes before a run ends sees its end, as long as the process lives.  Take
  any interleaving of subscriptions, leavings, snapshots, sends and reads after which every publisher
  has sent to the subscriber and it has read its buffer.  What it read are events published on its
  run, each at most once.  If it never let 256 of them pile up it read all of them, and when one of
  them was a done event its last frame is a done event of its run.  If moreover each publisher on
  the run was through before the next one started, the frames are the events in the order of
  publication up to the first done event; a slower reader then still reads them in that order.
\<close>

theorem viewer_sees_run_end:
  assumes ok: "live_ok w" and live: "\<not> is_terminal_patch_status (pr_status run)"
    and sub: "hub_step (OpSubscribe (pr_id run)) w = Some (w1, [])" and s: "s = hb_next (lv_hub w)"
    and trace: "hub_trace any_step w1 ops w2 log" and stay: "OpLeave (pr_id run) s \<notin> set ops"
    and sent: "waiting s w2 = []" and read: "hb_chans (lv_hub w2) s = Some \<lparr>ch_buf = [], ch_open = True\<rparr>"
  shows "mset (read_by s log) \<subseteq># mset (published (pr_id run) ops)
    \<and> (hub_trace (keeps_up s) w1 ops w2 log \<longrightarrow>
        mset (read_by s log) = mset (published (pr_id run) ops)
        \<and> ((\<exists>ev \<in> set (published (pr_id run) ops). is_done ev) \<longrightarrow>
            (\<exists>d. last (stream_frames run (read_by s log)) = EventFrame d \<and> is_done d \<and> event_run d = pr_id run)))
    \<and> (hub_trace (in_turn (pr_id run)) w1 ops w2 log \<longrightarrow> subseq (read_by s log) (published (pr_id run) ops))
    \<and> (hub_trace (\<lambda>w op. keeps_up s w op \<and> in_turn (pr_id run) w op) w1 ops w2 log \<longrightarrow>
        stream_frames run (read_by s log) = opening_frames run @ forward_events (published (pr_id run) ops))"
proof -
  note start = subscribe_listens [OF ok sub, folded s]
  have got: "gets extra s (pr_id run) (read_by s log) [] [] [] [] (published (pr_id run) ops)"
    if "hub_trace extra w1 ops w2 log" for extra
    using hub_trace_listens [OF that start(2,1) stay] start(3) sent read by (auto simp: listens_def)
  have sublist: "mset (read_by s log) \<subseteq># mset (published (pr_id run) ops)"
    using got [OF trace] by (simp add: gets_def)
  have all: "mset (read_by s log) = mset (published (pr_id run) ops)" if "hub_trace (keeps_up s) w1 ops w2 log"
    using got [OF that] by (simp add: gets_def)
  have "\<exists>d. last (stream_frames run (read_by s log)) = EventFrame d \<and> is_done d \<and> event_run d = pr_id run"
    if "hub_trace (keeps_up s) w1 ops w2 log" and ex: "\<exists>ev \<in> set (published (pr_id run) ops). is_done ev"
  proof -
    have set: "set (read_by s log) = set (published (pr_id run) ops)" using all [OF that(1)] by (rule mset_eq_setD)
    then obtain d where d: "last (forward_events (read_by s log)) = EventFrame d" "is_done d" "d \<in> set (read_by s log)"
      using forward_events_done [of "read_by s log"] ex by auto
    then have "forward_events (read_by s log) \<noteq> []" by (cases "read_by s log") auto
    then show ?thesis using d live set published_run [of d "pr_id run" ops] by (auto simp: stream_frames_def)
  qed
  moreover have "subseq (read_by s log) (published (pr_id run) ops)" if "hub_trace (in_turn (pr_id run)) w1 ops w2 log"
    using got [OF that] by (simp add: gets_def)
  moreover have "stream_frames run (read_by s log) = opening_frames run @ forward_events (published (pr_id run) ops)"
    if "hub_trace (\<lambda>w op. keeps_up s w op \<and> in_turn (pr_id run) w op) w1 ops w2 log"
    using got [OF that] live by (simp add: gets_def le_fun_def stream_frames_def)
  ultimately show ?thesis using sublist all by blast
qed

definition sample_viewer :: "hub_op list" where
  "sample_viewer = [OpPublish (EventChunk ''r'' ''out'') [0], OpSend 0, OpSubscribe ''r'', OpReceive 0,
    OpPublish (EventDone ''r'' ''completed'' '''') [1, 0], OpSend 1, OpSend 1, OpReceive 0]"

definition hub_start :: live where
  "hub_start = fst (the (hub_step (OpSubscribe ''r'') idle))"

lemmas hub_run_simps = sample_viewer_def hub_start_def idle_def new_hub_def subscribe_def Let_def subs_of_def
  hub_trace_Cons publish_snapshot_def publish_send_def send_one_def receive_def channel_capacity_def waiting_def any_step_def

lemma sample_viewer_trace:
  "\<exists>w2 log. hub_trace any_step hub_start sample_viewer w2 log \<and> hub_trace (keeps_up 0) hub_start sample_viewer w2 log
    \<and> waiting 0 w2 = [] \<and> hb_chans (lv_hub w2) 0 = Some \<lparr>ch_buf = [], ch_open = True\<rparr>"
  by (simp add: hub_run_simps)

theorem viewer_sees_run_end_witness:
  "\<exists>w2 log d. hub_trace any_step hub_start sample_viewer w2 log
    \<and> last (stream_frames (sample_run ''r'' ''running'') (read_by 0 log)) = EventFrame d \<and> is_done d"
proof -
  let ?run = "sample_run ''r'' ''running''"
  obtain w2 log where t: "hub_trace any_step hub_start sample_viewer w2 log"
    "hub_trace (keeps_up 0) hub_start sample_viewer w2 log" "waiting 0 w2 = []"
    "hb_chans (lv_hub w2) 0 = Some \<lparr>ch_buf = [], ch_open = True\<rparr>" using sample_viewer_trace by blast
  have live: "\<not> is_terminal_patch_status (pr_status ?run)" and rid: "pr_id ?run = ''r''"
    by (simp_all add: sample_run_def is_terminal_patch_status_def)
  have sub: "hub_step (OpSubscribe (pr_id ?run)) idle = Some (hub_start, [])" and zero: "0 = hb_next (lv_hub idle)"
    unfolding rid by (simp_all add: hub_start_def idle_def new_hub_def)
  have "OpLeave (pr_id ?run) 0 \<notin> set sample_viewer" and "\<exists>ev \<in> set (published ''r'' sample_viewer). is_done ev"
    by (simp_all add: sample_viewer_def)
  then show ?thesis
    using viewer_sees_run_end [OF idle_ok live sub zero t(1) _ t(3,4)] t(1,2) unfolding rid by blast
qed

text \<open>
  C28: The hub panics only when a publisher is overtaken, and never leaks.  After any interleaving from
  a new hub, a step panics exactly when it is a send to a closed channel, and then that subscriber
  has left since; so as long as nobody leaves while a publisher still has to send to it, nothing
  panics.  No run keeps an empty set, every buffer holds at most 256 events, and a subscriber whose
  channel is closed is in no set.
\<close>

theorem hub_never_panics:
  assumes trace: "hub_trace any_step idle ops w log"
  shows "(fits w op \<longrightarrow> (hub_step op w = None \<longleftrightarrow>
        (\<exists>p ev s ss. op = OpSend p \<and> lv_pubs w ! p = (ev, s # ss) \<and> channel_closed w s \<and> OpLeave (event_run ev) s \<in> set ops)))
    \<and> (fits w op \<and> hub_trace not_overtaking idle ops w log \<longrightarrow> hub_step op w \<noteq> None)
    \<and> (\<forall>rid. hb_subs (lv_hub w) rid \<noteq> Some [] \<and> (has_subscribers (lv_hub w) rid \<longleftrightarrow> hb_subs (lv_hub w) rid \<noteq> None))
    \<and> (\<forall>s c. hb_chans (lv_hub w) s = Some c \<longrightarrow> length (ch_buf c) \<le> 256
          \<and> (\<not> ch_open c \<longrightarrow> (\<forall>rid. s \<notin> set (subs_of (lv_hub w) rid))))"
proof -
  have ok: "live_ok w" by (rule hub_trace_ok [OF trace idle_ok])
  note hub = hub_okD [OF live_okD(1) [OF ok]]
  have left: "OpLeave (event_run ev) s \<in> set ops"
    if "fits w (OpSend p)" and "lv_pubs w ! p = (ev, s # ss)" and "channel_closed w s" for p ev s ss
  proof -
    have "(ev, s # ss) \<in> set (lv_pubs w)" using that nth_mem [of p "lv_pubs w"] by simp
    moreover have "s \<notin> set (subs_of (lv_hub w) (event_run ev))"
      using that(3) hub(3) [of s] by (auto simp: channel_closed_def split: option.splits)
    ultimately show ?thesis using held_or_left [OF trace idle_ok, of ev "s # ss" s] by (auto simp: idle_def)
  qed
  have panics: "hub_step op w = None \<longleftrightarrow>
      (\<exists>p ev s ss. op = OpSend p \<and> lv_pubs w ! p = (ev, s # ss) \<and> channel_closed w s \<and> OpLeave (event_run ev) s \<in> set ops)"
    if f: "fits w op"
    unfolding hub_step_panics [OF ok f]
  proof (intro iff_exI conj_cong refl)
    fix p ev s ss
    assume "op = OpSend p" "lv_pubs w ! p = (ev, s # ss)"
    then show "channel_closed w s \<longleftrightarrow> channel_closed w s \<and> OpLeave (event_run ev) s \<in> set ops"
      using left [of p ev s ss] f by auto
  qed
  have calm: "hub_step op w \<noteq> None" if "fits w op" and t: "hub_trace not_overtaking idle ops w log"
    using none_overtaken_no_panic [OF ok none_overtaken_trace [OF t idle_ok] that(1)]
    by (simp add: none_overtaken_def idle_def)
  have "hb_subs (lv_hub w) rid \<noteq> Some [] \<and> (has_subscribers (lv_hub w) rid \<longleftrightarrow> hb_subs (lv_hub w) rid \<noteq> None)" for rid
    using hub(5) [of rid] by (auto simp: has_subscribers_def split: option.splits)
  moreover have "length (ch_buf c) \<le> 256 \<and> (\<not> ch_open c \<longrightarrow> (\<forall>rid. s \<notin> set (subs_of (lv_hub w) rid)))"
    if "hb_chans (lv_hub w) s = Some c" for s c
    using hub(4) [OF that] hub(3) [of s] that by (auto simp: channel_capacity_def)
  ultimately show ?thesis using panics calm by blast
qed

theorem hub_never_panics_witness:
  "\<exists>w log. hub_trace any_step idle [OpSubscribe ''r'', OpPublish (EventStarted ''r'') [0]] w log \<and> hub_step (OpSend 0) w \<noteq> None"
proof -
  have "\<exists>w log. hub_trace any_step idle [OpSubscribe ''r'', OpPublish (EventStarted ''r'') [0]] w log
      \<and> hub_trace not_overtaking idle [OpSubscribe ''r'', OpPublish (EventStarted ''r'') [0]] w log \<and> fits w (OpSend 0)"
    by (simp add: hub_run_simps)
  then show ?thesis using hub_never_panics [of _ _ _ "OpSend 0"] by blast
qed

text \<open>
  A publisher overtaken by a leaving browser panics: the subscribers are read under the lock but
  sent to after it, so when the next one of them unsubscribes in between, the send finds its channel
  closed.
\<close>

lemma overtaken_publisher_panics:
  assumes ok: "live_ok w" and fit: "fits w (OpPublish ev (s # ss))"
    and w1: "hub_step (OpPublish ev (s # ss)) w = Some (w1, [])"
    and w2: "hub_step (OpLeave (event_run ev) s) w1 = Some (w2, [])" and w3: "hub_step (OpClose s) w2 = Some (w3, [])"
  shows "hub_step (OpSend (length (lv_pubs w))) w3 = None"
proof -
  have "lv_pubs w3 = lv_pubs w @ [(ev, s # ss)]" and closed: "channel_closed w3 s"
    using w1 w2 w3
    by (auto simp: publish_snapshot_def unsubscribe_leave_def unsubscribe_close_def close_channel_def channel_closed_def
        split: option.splits if_splits)
  moreover obtain c where "hb_chans (lv_hub w3) s = Some c" "\<not> ch_open c"
    using closed by (auto simp: channel_closed_def split: option.splits)
  ultimately show ?thesis by (simp add: publish_send_def send_one_def)
qed

lemma overtaken_publisher_panics_witness:
  "\<exists>w. hub_trace any_step idle [OpSubscribe ''r'', OpPublish (EventStarted ''r'') [0], OpLeave ''r'' 0, OpClose 0] w []
    \<and> hub_step (OpSend 0) w = None"
  by (simp add: hub_run_simps unsubscribe_leave_def unsubscribe_close_def leave_def close_channel_def)

text \<open>
  An end published between the handler's read of the run and its subscription is never shown:
  the browser gets the snapshot of a live run and then waits, however long nothing else is published.
\<close>

lemma end_before_subscribe_not_shown:
  assumes live: "\<not> is_terminal_patch_status (pr_status run)" and ok: "live_ok w"
    and ended: "hub_step (OpPublish (EventDone (pr_id run) stage msg) ss) w = Some (w0, [])"
    and fit: "fits w (OpPublish (EventDone (pr_id run) stage msg) ss)"
    and sub: "hub_step (OpSubscribe (pr_id run)) w0 = Some (w1, [])" and s: "s = hb_next (lv_hub w0)"
    and trace: "hub_trace any_step w1 ops w2 log" and stay: "OpLeave (pr_id run) s \<notin> set ops"
    and quiet: "published (pr_id run) ops = []"
  shows "stream_frames run (read_by s log) = opening_frames run
    \<and> (\<forall>st. DoneFrame (pr_id run) st \<notin> set (stream_frames run (read_by s log)))"
proof -
  have "live_ok w0" using hub_step_ok [OF ok fit ended] .
  note start = subscribe_listens [OF this sub, folded s]
  obtain b where "gets any_step s (pr_id run) (read_by s log) b (waiting s w2) [] [] []"
    using hub_trace_listens [OF trace start(2,1) stay] start(3) quiet by auto
  then have "read_by s log = []" by (simp add: gets_def)
  then show ?thesis using live by (simp add: stream_frames_def opening_frames_def)
qed

lemma end_before_subscribe_not_shown_witness:
  "stream_frames (sample_run ''r'' ''running'') (read_by 0 []) = opening_frames (sample_run ''r'' ''running'')"
proof -
  let ?run = "sample_run ''r'' ''running''"
  have live: "\<not> is_terminal_patch_status (pr_status ?run)" and rid: "pr_id ?run = ''r''"
    by (simp_all add: sample_run_def is_terminal_patch_status_def)
  obtain w0 where end': "hub_step (OpPublish (EventDone (pr_id ?run) ''completed'' []) []) idle = Some (w0, [])"
    and w0: "w0 = publish_snapshot (EventDone (pr_id ?run) ''completed'' []) [] idle" by simp
  obtain w1 where sub: "hub_step (OpSubscribe (pr_id ?run)) w0 = Some (w1, [])" by simp
  have "fits idle (OpPublish (EventDone (pr_id ?run) ''completed'' []) [])" and "0 = hb_next (lv_hub w0)"
    by (simp_all add: w0 publish_snapshot_def idle_def new_hub_def subs_of_def)
  from end_before_subscribe_not_shown [OF live idle_ok end' this(1) sub this(2), of "[]" w1 "[]"]
  show ?thesis by simp
qed

end
