(* ===== verification/Base64.thy ===== *)
theory Base64
  imports Prelude
begin

text \<open>
  Standard base64 with padding (\<open>encoding/base64\<close>, \<open>StdEncoding\<close>), which the registry uses to carry
  a binary frame inside a JSON message.  Bytes are characters; the decoder skips carriage returns and
  line feeds and refuses anything else outside the alphabet, as Go's does.
\<close>

definition b64_char :: "nat \<Rightarrow> char" where
  "b64_char n =
     (if n < 26 then char_of (65 + n)
      else if n < 52 then char_of (97 + (n - 26))
      else if n < 62 then char_of (48 + (n - 52))
      else if n = 62 then CHR ''+'' else CHR ''/'')"

definition b64_val :: "char \<Rightarrow> nat option" where
  "b64_val c =
     (let n = of_char c :: nat
      in if 65 \<le> n \<and> n \<le> 90 then Some (n - 65)
         else if 97 \<le> n \<and> n \<le> 122 then Some (n - 97 + 26)
         else if 48 \<le> n \<and> n \<le> 57 then Some (n - 48 + 52)
         else if n = 43 then Some 62 else if n = 47 then Some 63 else None)"

fun b64_encode :: "string \<Rightarrow> string" where
  "b64_encode [] = []"
| "b64_encode [a] =
     (let x = of_char a :: nat
      in [b64_char (x div 4), b64_char (x mod 4 * 16), CHR ''='', CHR ''=''])"
| "b64_encode [a, b] =
     (let x = of_char a :: nat; y = of_char b
      in [b64_char (x div 4), b64_char (x mod 4 * 16 + y div 16), b64_char (y mod 16 * 4), CHR ''=''])"
| "b64_encode (a # b # c # rest) =
     (let x = of_char a :: nat; y = of_char b; z = of_char c
      in b64_char (x div 4) # b64_char (x mod 4 * 16 + y div 16) # b64_char (y mod 16 * 4 + z div 64)
           # b64_char (z mod 64) # b64_encode rest)"

text \<open>The bytes of a full quantum.\<close>

definition b64_bytes :: "nat \<Rightarrow> nat \<Rightarrow> nat \<Rightarrow> nat \<Rightarrow> string" where
  "b64_bytes i j k l = [char_of (i * 4 + j div 16), char_of (j mod 16 * 16 + k div 4), char_of (k mod 4 * 64 + l)]"

fun b64_quanta :: "string \<Rightarrow> string option" where
  "b64_quanta [] = Some []"
| "b64_quanta (a # b # c # d # rest) =
     (case (b64_val a, b64_val b) of
        (Some i, Some j) \<Rightarrow>
          if c = CHR ''='' then
            (if d = CHR ''='' \<and> rest = [] then Some (take 1 (b64_bytes i j 0 0)) else None)
          else (case b64_val c of
                  None \<Rightarrow> None
                | Some k \<Rightarrow>
                    if d = CHR ''='' then (if rest = [] then Some (take 2 (b64_bytes i j k 0)) else None)
                    else (case b64_val d of
                            None \<Rightarrow> None
                          | Some l \<Rightarrow> map_option (\<lambda>bs. b64_bytes i j k l @ bs) (b64_quanta rest)))
      | _ \<Rightarrow> None)"
| "b64_quanta _ = None"

definition b64_decode :: "string \<Rightarrow> string option" where
  "b64_decode s = b64_quanta (filter (\<lambda>c. c \<noteq> CHR 0x0D \<and> c \<noteq> CHR 0x0A) s)"

section \<open>Decoding what was encoded\<close>

lemma b64_val_char [simp]: "n < 64 \<Longrightarrow> b64_val (b64_char n) = Some n"
  by (simp add: b64_char_def b64_val_def Let_def) linarith

lemma b64_val_outside [simp]: "b64_val CHR ''='' = None" "b64_val CHR 0x0D = None" "b64_val CHR 0x0A = None"
  by (simp_all add: b64_val_def Let_def)

lemma b64_char_distinct [simp]:
  assumes "n < 64"
  shows "b64_char n \<noteq> CHR ''=''" "b64_char n \<noteq> CHR 0x0D" "b64_char n \<noteq> CHR 0x0A"
  using b64_val_char [OF assms] by (metis b64_val_outside option.distinct(1))+

lemma byte_less: "(of_char c :: nat) < 256"
  using of_char_mod_256 [of c, where 'a = nat] by (metis mod_less_divisor zero_less_numeral)

text \<open>The four indices of three bytes, and the bytes of the indices.\<close>

lemma b64_index:
  fixes x y :: nat
  assumes "x < 256" "y < 256"
  shows "x div 4 < 64" "x mod 4 * 16 < 64" "x mod 4 * 16 + y div 16 < 64" "x mod 16 * 4 < 64"
    "x mod 16 * 4 + y div 64 < 64"
proof -
  have "x mod 4 < 4" "x mod 16 < 16" by simp_all
  moreover have "y div 16 < 16" "y div 64 < 4" "x div 4 < 64" using assms by (simp_all add: less_mult_imp_div_less)
  ultimately show "x div 4 < 64" "x mod 4 * 16 < 64" "x mod 4 * 16 + y div 16 < 64" "x mod 16 * 4 < 64"
    "x mod 16 * 4 + y div 64 < 64" by linarith+
qed

lemmas b64_byte_index [simp] = b64_index [OF byte_less byte_less]

lemma join_digits: "(q :: nat) < k \<Longrightarrow> (m * k + q) div k = m \<and> (m * k + q) mod k = q"
  by simp

lemma b64_bytes_index:
  fixes x y z :: nat
  assumes "x < 256" "y < 256" "z < 256"
  shows "b64_bytes (x div 4) (x mod 4 * 16 + y div 16) (y mod 16 * 4 + z div 64) (z mod 64)
           = [char_of x, char_of y, char_of z]"
proof -
  have "y div 16 < 16" "z div 64 < 4" using assms by (simp_all add: less_mult_imp_div_less)
  then have "(x mod 4 * 16 + y div 16) div 16 = x mod 4" "(x mod 4 * 16 + y div 16) mod 16 = y div 16"
    "(y mod 16 * 4 + z div 64) div 4 = y mod 16" "(y mod 16 * 4 + z div 64) mod 4 = z div 64"
    using join_digits by blast+
  then show ?thesis by (simp add: b64_bytes_def)
qed

lemma b64_char_bytes:
  fixes a b c :: char
  defines "x \<equiv> of_char a :: nat" and "y \<equiv> of_char b :: nat" and "z \<equiv> of_char c :: nat"
  shows "b64_bytes (x div 4) (x mod 4 * 16 + y div 16) (y mod 16 * 4 + z div 64) (z mod 64) = [a, b, c]"
    and "take 2 (b64_bytes (x div 4) (x mod 4 * 16 + y div 16) (y mod 16 * 4) 0) = [a, b]"
    and "take 1 (b64_bytes (x div 4) (x mod 4 * 16) 0 0) = [a]"
  using b64_bytes_index [of x y z] b64_bytes_index [of x y 0] b64_bytes_index [of x 0 0]
  by (simp_all add: x_def y_def z_def byte_less)

lemma b64_quanta_encode: "b64_quanta (b64_encode s) = Some s"
proof (induction s rule: b64_encode.induct)
  case (2 a)
  then show ?case
    using b64_char_bytes(3) [of a] by (simp add: Let_def)
next
  case (3 a b)
  then show ?case
    using b64_char_bytes(2) [of a b] by (simp add: Let_def)
next
  case (4 a b c rest)
  then show ?case
    using b64_char_bytes(1) [of a b c] by (simp add: Let_def)
qed simp

definition b64_text :: "string \<Rightarrow> bool" where
  "b64_text = list_all (\<lambda>c. c \<noteq> CHR 0x0D \<and> c \<noteq> CHR 0x0A)"

lemma b64_encode_text: "b64_text (b64_encode s)"
  by (induction s rule: b64_encode.induct) (simp_all add: Let_def b64_text_def)

lemma b64_decode_encode: "b64_decode (b64_encode s) = Some s"
proof -
  have "filter (\<lambda>c. c \<noteq> CHR 0x0D \<and> c \<noteq> CHR 0x0A) (b64_encode s) = b64_encode s"
    using b64_encode_text [of s] by (simp add: filter_id_conv b64_text_def list_all_iff)
  then show ?thesis by (simp add: b64_decode_def b64_quanta_encode)
qed

end
