(* ===== verification/AgentRegistry.thy ===== *)
theory AgentRegistry
  imports Base64 "HOL-Library.AList"
begin

text \<open>
  The registry of connected agents (\<open>internal/agentregistry/registry.go\<close>): which agents hold a
  WebSocket on this process, what the other processes of the deployment announce over Redis, and how
  a frame reaches an agent here or on another process.

  The state is the Go struct: \<open>meta\<close> (iterated, so an association list), \<open>conns\<close>, \<open>podMap\<close>.  A WebSocket
  is a number, its identity.  Redis and the sockets are not modelled: an operation returns the
  commands it issues, in order, and takes as an argument which of them succeed.  What other
  processes publish reaches the registry as an arbitrary event.
\<close>

section \<open>State\<close>

record connection_info =
  ci_connected :: bool
  ci_secure :: bool
  ci_scope :: string
  ci_last_connected :: "int option"
  ci_disconnected :: "int option"

definition no_info :: connection_info where
  "no_info = \<lparr>ci_connected = False, ci_secure = False, ci_scope = [], ci_last_connected = None, ci_disconnected = None\<rparr>"

type_synonym websocket = nat

record registry =
  rg_meta :: "(string \<times> connection_info) list"
  rg_conns :: "string \<Rightarrow> websocket option"
  rg_redis :: bool
  rg_pods :: "string \<Rightarrow> string option"
  rg_pod :: string

definition new_registry :: registry where
  "new_registry = \<lparr>rg_meta = [], rg_conns = Map.empty, rg_redis = False, rg_pods = Map.empty, rg_pod = []\<rparr>"

definition meta_of :: "registry \<Rightarrow> string \<Rightarrow> connection_info option" where
  "meta_of r api = map_of (rg_meta r) api"

definition set_meta :: "string \<Rightarrow> connection_info \<Rightarrow> registry \<Rightarrow> registry" where
  "set_meta api info r = r\<lparr>rg_meta := AList.update api info (rg_meta r)\<rparr>"

text \<open>Reading a Go map: a missing key gives the zero value.\<close>

definition meta_or_zero :: "registry \<Rightarrow> string \<Rightarrow> connection_info" where
  "meta_or_zero r api = (case meta_of r api of None \<Rightarrow> no_info | Some info \<Rightarrow> info)"

definition pod_of :: "registry \<Rightarrow> string \<Rightarrow> string" where
  "pod_of r api = (case rg_pods r api of None \<Rightarrow> [] | Some p \<Rightarrow> p)"

section \<open>What is sent out\<close>

text \<open>
  Times are nanoseconds; a published timestamp is written to the second (RFC 3339) and \<open>ev_ts\<close> is
  the time its text denotes, \<open>None\<close> when it is no timestamp.
\<close>

record presence_event =
  ev_api :: string
  ev_type :: string
  ev_pod :: string
  ev_secure :: bool
  ev_scope :: string
  ev_ts :: "int option"

record forward =
  fw_api :: string
  fw_type :: int
  fw_data :: string

datatype redis_cmd =
    HSetMeta string string bool string int
  | ExpireMeta string
  | DelMeta string
  | PublishEvent presence_event
  | PublishForward string forward

datatype effect =
    Redis redis_cmd
  | WsWrite websocket int string
  | WsWriteJSON websocket "string option"
  | WsDeadline websocket "int option"

datatype send_error = ErrNotConnected | ErrWrite | ErrNoRemotePod | ErrRedis

definition to_second :: "int \<Rightarrow> int" where
  "to_second t = t - t mod 1000000000"

definition publish_event :: "registry \<Rightarrow> int \<Rightarrow> string \<Rightarrow> string \<Rightarrow> bool \<Rightarrow> string \<Rightarrow> redis_cmd" where
  "publish_event r t api typ secure scope =
     PublishEvent \<lparr>ev_api = api, ev_type = typ, ev_pod = rg_pod r, ev_secure = secure, ev_scope = scope,
                   ev_ts = Some (to_second t)\<rparr>"

definition set_presence :: "(redis_cmd \<Rightarrow> bool) \<Rightarrow> registry \<Rightarrow> int \<Rightarrow> string \<Rightarrow> bool \<Rightarrow> string \<Rightarrow> redis_cmd list" where
  "set_presence answers r t api secure scope =
     (if \<not> rg_redis r then []
      else let hset = HSetMeta api (rg_pod r) secure scope (to_second t)
           in if \<not> answers hset then [hset]
              else [hset, ExpireMeta api, publish_event r t api ''connect'' secure scope])"

definition remove_presence :: "(redis_cmd \<Rightarrow> bool) \<Rightarrow> registry \<Rightarrow> int \<Rightarrow> string \<Rightarrow> redis_cmd list" where
  "remove_presence answers r t api =
     (if \<not> rg_redis r then []
      else if \<not> answers (DelMeta api) then [DelMeta api]
      else [DelMeta api, publish_event r t api ''disconnect'' False []])"

section \<open>Connecting and disconnecting\<close>

text \<open>The presence a goroutine publishes some time later.\<close>

type_synonym presence_task = "string \<times> bool \<times> string"

definition register :: "int \<Rightarrow> string \<Rightarrow> bool \<Rightarrow> string \<Rightarrow> registry \<Rightarrow> registry \<times> presence_task list" where
  "register t api secure scope r =
     ((set_meta api \<lparr>ci_connected = True, ci_secure = secure, ci_scope = scope, ci_last_connected = Some t,
                     ci_disconnected = None\<rparr> r)
        \<lparr>rg_pods := (rg_pods r)(api \<mapsto> rg_pod r)\<rparr>,
      if rg_redis r then [(api, secure, scope)] else [])"

definition set_connection :: "int \<Rightarrow> string \<Rightarrow> websocket \<Rightarrow> registry \<Rightarrow> registry \<times> presence_task list" where
  "set_connection t api ws r =
     (let prev = (meta_or_zero r api)\<lparr>ci_connected := True, ci_last_connected := Some t, ci_disconnected := None\<rparr>
      in ((set_meta api prev r)\<lparr>rg_conns := (rg_conns r)(api \<mapsto> ws), rg_pods := (rg_pods r)(api \<mapsto> rg_pod r)\<rparr>,
          if rg_redis r then [(api, ci_secure prev, ci_scope prev)] else []))"

definition mark_disconnected :: "int \<Rightarrow> string \<Rightarrow> registry \<Rightarrow> registry" where
  "mark_disconnected t api r =
     (let r' = r\<lparr>rg_conns := (rg_conns r)(api := None), rg_pods := (rg_pods r)(api := None)\<rparr>
      in case meta_of r api of
           Some prev \<Rightarrow>
             set_meta api (prev\<lparr>ci_connected := False,
                                ci_disconnected := (case ci_disconnected prev of None \<Rightarrow> Some t | Some d \<Rightarrow> Some d)\<rparr>) r'
         | None \<Rightarrow> set_meta api (no_info\<lparr>ci_disconnected := Some t\<rparr>) r')"

definition unregister :: "(redis_cmd \<Rightarrow> bool) \<Rightarrow> int \<Rightarrow> string \<Rightarrow> registry \<Rightarrow> registry \<times> redis_cmd list" where
  "unregister answers t api r = (mark_disconnected t api r, remove_presence answers r t api)"

definition unregister_conn ::
  "(redis_cmd \<Rightarrow> bool) \<Rightarrow> int \<Rightarrow> string \<Rightarrow> websocket option \<Rightarrow> registry \<Rightarrow> bool \<times> registry \<times> redis_cmd list" where
  "unregister_conn answers t api conn r =
     (if rg_conns r api \<noteq> None \<and> conn \<noteq> None \<and> rg_conns r api \<noteq> conn then (False, r, [])
      else (True, unregister answers t api r))"

section \<open>Asking\<close>

text \<open>\<open>IsConnected\<close> takes the lock twice: \<open>later\<close> is the state at its second look.\<close>

definition is_connected :: "registry \<Rightarrow> registry \<Rightarrow> string \<Rightarrow> bool" where
  "is_connected r later api \<longleftrightarrow>
     rg_conns r api \<noteq> None \<or> (case meta_of later api of None \<Rightarrow> False | Some info \<Rightarrow> ci_connected info)"

definition shown :: "connection_info \<Rightarrow> connection_info" where
  "shown info = (if \<not> ci_connected info then info\<lparr>ci_secure := False\<rparr> else info)"

definition get_info :: "registry \<Rightarrow> string \<Rightarrow> connection_info" where
  "get_info r api = (case meta_of r api of None \<Rightarrow> no_info | Some info \<Rightarrow> shown info)"

definition get_bulk :: "registry \<Rightarrow> string list \<Rightarrow> string \<Rightarrow> connection_info option" where
  "get_bulk r ids = foldl (\<lambda>result api. result(api \<mapsto> get_info r api)) Map.empty ids"

definition in_scope :: "string \<Rightarrow> connection_info \<Rightarrow> bool" where
  "in_scope scope info \<longleftrightarrow> ci_connected info \<and> ci_scope info = scope"

definition get_connected_api_ids :: "registry \<Rightarrow> string \<Rightarrow> string list" where
  "get_connected_api_ids r scope = map fst (filter (\<lambda>(_, info). in_scope scope info) (rg_meta r))"

definition count_connected :: "registry \<Rightarrow> string \<Rightarrow> int" where
  "count_connected r scope = foldl (\<lambda>n (_, info). if in_scope scope info then n + 1 else n) 0 (rg_meta r)"

section \<open>Sending\<close>

definition publish_forward ::
  "(redis_cmd \<Rightarrow> bool) \<Rightarrow> registry \<Rightarrow> string \<Rightarrow> int \<Rightarrow> string \<Rightarrow> redis_cmd list \<times> send_error option" where
  "publish_forward answers r api mt data =
     (let pod = pod_of r api
      in if pod = [] then ([], Some ErrNoRemotePod)
         else if pod = rg_pod r then ([], Some ErrNotConnected)
         else let cmd = PublishForward pod \<lparr>fw_api = api, fw_type = mt, fw_data = b64_encode data\<rparr>
              in ([cmd], if answers cmd then None else Some ErrRedis))"

text \<open>No socket here: another process may hold it.\<close>

definition send_remote ::
  "(redis_cmd \<Rightarrow> bool) \<Rightarrow> registry \<Rightarrow> string \<Rightarrow> int \<Rightarrow> string \<Rightarrow> effect list \<times> send_error option" where
  "send_remote answers r api mt data =
     (if rg_redis r
      then let (cmds, err) = publish_forward answers r api mt data
           in (map Redis cmds, if err = None then None else Some ErrNotConnected)
      else ([], Some ErrNotConnected))"

definition write_result :: "bool \<Rightarrow> send_error option" where
  "write_result ok = (if ok then None else Some ErrWrite)"

definition send_message ::
  "(redis_cmd \<Rightarrow> bool) \<Rightarrow> bool \<Rightarrow> registry \<Rightarrow> string \<Rightarrow> int \<Rightarrow> string \<Rightarrow> effect list \<times> send_error option" where
  "send_message answers write_ok r api mt data =
     (case rg_conns r api of
        None \<Rightarrow> send_remote answers r api mt data
      | Some ws \<Rightarrow> ([WsWrite ws mt data], write_result write_ok))"

text \<open>\<open>v\<close> is the JSON text of the value, \<open>None\<close> when it has none.\<close>

definition send_json ::
  "(redis_cmd \<Rightarrow> bool) \<Rightarrow> bool \<Rightarrow> registry \<Rightarrow> string \<Rightarrow> string option \<Rightarrow> effect list \<times> send_error option" where
  "send_json answers write_ok r api v =
     (case rg_conns r api of
        None \<Rightarrow> (case v of None \<Rightarrow> ([], Some ErrNotConnected) | Some b \<Rightarrow> send_remote answers r api 1 b)
      | Some ws \<Rightarrow> ([WsWriteJSON ws v], write_result write_ok))"

definition send_message_with_timeout ::
  "(redis_cmd \<Rightarrow> bool) \<Rightarrow> bool \<Rightarrow> registry \<Rightarrow> int \<Rightarrow> string \<Rightarrow> int \<Rightarrow> string \<Rightarrow> int
     \<Rightarrow> effect list \<times> send_error option" where
  "send_message_with_timeout answers write_ok r t api mt data timeout =
     (case rg_conns r api of
        None \<Rightarrow> send_remote answers r api mt data
      | Some ws \<Rightarrow> ([WsDeadline ws (Some (t + timeout)), WsWrite ws mt data, WsDeadline ws None],
                   write_result write_ok))"

text \<open>\<open>WithLock\<close>: \<open>f\<close> is what the callback does with the socket.\<close>

definition with_lock ::
  "registry \<Rightarrow> string \<Rightarrow> (websocket \<Rightarrow> effect list \<times> send_error option) \<Rightarrow> effect list \<times> send_error option" where
  "with_lock r api f = (case rg_conns r api of None \<Rightarrow> ([], Some ErrNotConnected) | Some ws \<Rightarrow> f ws)"

section \<open>Other processes\<close>

text \<open>A presence event; \<open>None\<close> is a payload that is no JSON of the expected shape.\<close>

definition handle_event :: "int \<Rightarrow> presence_event option \<Rightarrow> registry \<Rightarrow> registry" where
  "handle_event t payload r =
     (case payload of
        None \<Rightarrow> r
      | Some ev \<Rightarrow>
          if ev_pod ev = rg_pod r then r
          else let at = (case ev_ts ev of None \<Rightarrow> t | Some u \<Rightarrow> u)
               in if ev_type ev = ''connect'' then
                    (set_meta (ev_api ev) \<lparr>ci_connected = True, ci_secure = ev_secure ev, ci_scope = ev_scope ev,
                        ci_last_connected = Some at, ci_disconnected = None\<rparr> r)
                      \<lparr>rg_pods := (rg_pods r)(ev_api ev \<mapsto> ev_pod ev)\<rparr>
                  else if ev_type ev = ''disconnect'' then
                    (if rg_conns r (ev_api ev) \<noteq> None then r
                     else let prev = meta_or_zero r (ev_api ev)
                          in (set_meta (ev_api ev) (prev\<lparr>ci_connected := False,
                                ci_disconnected := (case ci_disconnected prev of None \<Rightarrow> Some at | Some d \<Rightarrow> Some d)\<rparr>) r)
                               \<lparr>rg_pods := (rg_pods r)(ev_api ev := None)\<rparr>)
                  else r)"

text \<open>A forwarded frame, decoded and sent on; whatever fails is only logged.\<close>

definition handle_forward ::
  "(redis_cmd \<Rightarrow> bool) \<Rightarrow> bool \<Rightarrow> registry \<Rightarrow> forward option \<Rightarrow> effect list" where
  "handle_forward answers write_ok r payload =
     (case payload of
        None \<Rightarrow> []
      | Some f \<Rightarrow> (case b64_decode (fw_data f) of
                     None \<Rightarrow> []
                   | Some data \<Rightarrow> fst (send_message answers write_ok r (fw_api f) (fw_type f) data)))"

text \<open>
  What a new process finds in Redis: the hash of each agent, \<open>None\<close> when reading it fails;
  \<open>sn_last_seen\<close> is the time its text denotes.
\<close>

record presence_record =
  sn_pod :: string
  sn_secure :: string
  sn_scope :: string
  sn_last_seen :: "int option"

definition import_record :: "int \<Rightarrow> string \<Rightarrow> presence_record option \<Rightarrow> registry \<Rightarrow> registry" where
  "import_record t api found r =
     (case found of
        None \<Rightarrow> r
      | Some v \<Rightarrow>
          let ours = (sn_pod v = [] \<or> sn_pod v = rg_pod r);
              info = \<lparr>ci_connected = (\<not> ours), ci_secure = (sn_secure v = ''1'' \<or> equal_fold (sn_secure v) ''true''),
                      ci_scope = sn_scope v, ci_last_connected = sn_last_seen v,
                      ci_disconnected = (if ours then Some t else None)\<rparr>;
              r' = set_meta api info r
          in if ours then r' else r'\<lparr>rg_pods := (rg_pods r)(api \<mapsto> sn_pod v)\<rparr>)"

fun snapshot_presence :: "int \<Rightarrow> (string \<times> presence_record option) list \<Rightarrow> registry \<Rightarrow> registry" where
  "snapshot_presence t [] r = r"
| "snapshot_presence t ((api, found) # rest) r = snapshot_presence t rest (import_record t api found r)"

datatype enable_error = RedisNil | AlreadyEnabled

text \<open>\<open>found\<close> is what the scan returned before it ended or failed.\<close>

definition enable_distributed ::
  "int \<Rightarrow> bool \<Rightarrow> string \<Rightarrow> (string \<times> presence_record option) list \<Rightarrow> registry \<Rightarrow> enable_error + registry" where
  "enable_distributed t has_client pod found r =
     (if \<not> has_client then Inl RedisNil
      else if rg_redis r then Inl AlreadyEnabled
      else Inr (snapshot_presence t found (r\<lparr>rg_redis := True, rg_pod := pod\<rparr>)))"

section \<open>The registry over time\<close>

datatype reg_op =
    OpRegister int string bool string
  | OpSetConnection int string websocket
  | OpUnregister int string
  | OpTeardown int string "websocket option"
  | OpEvent int "presence_event option"

fun reg_step :: "(redis_cmd \<Rightarrow> bool) \<Rightarrow> reg_op \<Rightarrow> registry \<Rightarrow> registry" where
  "reg_step answers (OpRegister t api secure scope) r = fst (register t api secure scope r)"
| "reg_step answers (OpSetConnection t api ws) r = fst (set_connection t api ws r)"
| "reg_step answers (OpUnregister t api) r = fst (unregister answers t api r)"
| "reg_step answers (OpTeardown t api conn) r = fst (snd (unregister_conn answers t api conn r))"
| "reg_step answers (OpEvent t payload) r = handle_event t payload r"

definition reg_run :: "(redis_cmd \<Rightarrow> bool) \<Rightarrow> reg_op list \<Rightarrow> registry \<Rightarrow> registry" where
  "reg_run answers ops r = fold (reg_step answers) ops r"

text \<open>A process starts empty, joins the deployment if it has Redis, and then runs operations in any order.\<close>

inductive reg_reachable :: "registry \<Rightarrow> bool" where
  start: "reg_reachable new_registry"
| joined: "enable_distributed t has_client pod found new_registry = Inr r \<Longrightarrow> reg_reachable r"
| step: "reg_reachable r \<Longrightarrow> reg_reachable (reg_step answers op r)"

section \<open>Well-formed registries\<close>

lemma meta_of_set_meta [simp]: "meta_of (set_meta a info r) b = (if b = a then Some info else meta_of r b)"
  by (simp add: meta_of_def set_meta_def update_conv')

lemma meta_of_other [simp]:
  "meta_of (r\<lparr>rg_conns := c\<rparr>) = meta_of r" "meta_of (r\<lparr>rg_pods := p\<rparr>) = meta_of r"
  "meta_of (r\<lparr>rg_redis := b\<rparr>) = meta_of r" "meta_of (r\<lparr>rg_pod := q\<rparr>) = meta_of r"
  by (simp_all add: meta_of_def fun_eq_iff)

lemma set_meta_fields [simp]:
  "rg_conns (set_meta a info r) = rg_conns r" "rg_pods (set_meta a info r) = rg_pods r"
  "rg_pod (set_meta a info r) = rg_pod r" "rg_redis (set_meta a info r) = rg_redis r"
  by (simp_all add: set_meta_def)

lemma distinct_set_meta [simp]:
  "distinct (map fst (rg_meta r)) \<Longrightarrow> distinct (map fst (rg_meta (set_meta a info r)))"
  by (simp add: set_meta_def distinct_update)

text \<open>When an entry is connected, and when it carries the time of its disconnect.\<close>

definition info_ok :: "connection_info \<Rightarrow> bool" where
  "info_ok info \<longleftrightarrow> (ci_connected info \<longleftrightarrow> ci_disconnected info = None)"

definition registry_ok :: "registry \<Rightarrow> bool" where
  "registry_ok r \<longleftrightarrow> distinct (map fst (rg_meta r))
     \<and> (\<forall>a info. meta_of r a = Some info \<longrightarrow> info_ok info)
     \<and> (\<forall>a. rg_conns r a \<noteq> None \<longrightarrow> (\<exists>info. meta_of r a = Some info \<and> ci_connected info))"

lemma registry_okD:
  assumes "registry_ok r"
  shows "distinct (map fst (rg_meta r))"
    and "meta_of r a = Some info \<Longrightarrow> info_ok info"
    and "rg_conns r a = Some ws \<Longrightarrow> \<exists>info. meta_of r a = Some info \<and> ci_connected info"
  using assms unfolding registry_ok_def by blast+

text \<open>Changing one agent's entry and connection keeps the rest as it was.\<close>

lemma registry_ok_update:
  assumes "registry_ok r" and "info_ok info"
    and "distinct (map fst (rg_meta r'))" and "\<And>b. meta_of r' b = (if b = a then Some info else meta_of r b)"
    and "\<And>b. b \<noteq> a \<Longrightarrow> rg_conns r' b = rg_conns r b" and "rg_conns r' a \<noteq> None \<Longrightarrow> ci_connected info"
  shows "registry_ok r'"
  unfolding registry_ok_def
proof (intro conjI allI impI)
  fix b
  assume "rg_conns r' b \<noteq> None"
  then show "\<exists>i. meta_of r' b = Some i \<and> ci_connected i"
    using assms(1,4-6) registry_okD(3) [OF assms(1), of b] by (cases "b = a") auto
qed (use assms in \<open>auto simp: registry_ok_def split: if_splits\<close>)

lemma new_registry_ok: "registry_ok new_registry"
  by (simp add: registry_ok_def new_registry_def meta_of_def)

lemma mark_disconnected_ok: "registry_ok r \<Longrightarrow> registry_ok (mark_disconnected t a r)"
  by (cases "meta_of r a")
    (auto simp: mark_disconnected_def Let_def info_ok_def no_info_def registry_okD(1) set_meta_def distinct_update
      meta_of_def update_conv' split: option.split intro!: registry_ok_update [where a = a and r = r])

lemma handle_event_ok: "registry_ok r \<Longrightarrow> registry_ok (handle_event t payload r)"
  by (auto simp: handle_event_def Let_def info_ok_def registry_okD(1) set_meta_def distinct_update
      meta_of_def update_conv' split: option.split intro!: registry_ok_update [where a = "ev_api (the payload)" and r = r])

lemma reg_step_ok: "registry_ok r \<Longrightarrow> registry_ok (reg_step answers op r)"
proof (cases op)
  case (OpRegister t a secure scope)
  assume "registry_ok r"
  then show ?thesis
    by (auto simp: OpRegister register_def info_ok_def registry_okD(1)
        intro!: registry_ok_update [where a = a and r = r])
next
  case (OpSetConnection t a ws)
  assume "registry_ok r"
  then show ?thesis
    by (auto simp: OpSetConnection set_connection_def Let_def info_ok_def registry_okD(1)
        intro!: registry_ok_update [where a = a and r = r])
qed (auto simp: unregister_def unregister_conn_def mark_disconnected_ok handle_event_ok)

lemma import_record_ok: "registry_ok r \<Longrightarrow> rg_conns r = Map.empty \<Longrightarrow>
   registry_ok (import_record t a found r) \<and> rg_conns (import_record t a found r) = Map.empty"
  by (auto simp: import_record_def Let_def info_ok_def registry_okD(1) split: option.split
      intro!: registry_ok_update [where a = a and r = r])

lemma snapshot_ok: "registry_ok r \<Longrightarrow> rg_conns r = Map.empty \<Longrightarrow> registry_ok (snapshot_presence t found r)"
  by (induction t found r rule: snapshot_presence.induct) (simp_all add: import_record_ok)

lemma reg_reachable_ok: "reg_reachable r \<Longrightarrow> registry_ok r"
proof (induction rule: reg_reachable.induct)
  case (joined t has_client pod found r)
  have "registry_ok (new_registry\<lparr>rg_redis := True, rg_pod := pod\<rparr>)"
    using new_registry_ok by (simp add: registry_ok_def)
  then show ?case
    using joined snapshot_ok [of "new_registry\<lparr>rg_redis := True, rg_pod := pod\<rparr>" t found]
    by (auto simp: enable_distributed_def new_registry_def split: if_splits)
qed (simp_all add: new_registry_ok reg_step_ok)

section \<open>The newest connection stays\<close>

text \<open>What may end the connection \<open>ws\<close> of agent \<open>a\<close>: its own teardown, and a newer connection.\<close>

fun ends_connection :: "string \<Rightarrow> websocket \<Rightarrow> reg_op \<Rightarrow> bool" where
  "ends_connection a ws (OpSetConnection t b ws') \<longleftrightarrow> b = a"
| "ends_connection a ws (OpUnregister t b) \<longleftrightarrow> b = a"
| "ends_connection a ws (OpTeardown t b conn) \<longleftrightarrow> b = a \<and> (conn = None \<or> conn = Some ws)"
| "ends_connection a ws _ \<longleftrightarrow> False"

definition holds :: "registry \<Rightarrow> string \<Rightarrow> websocket \<Rightarrow> bool" where
  "holds r a ws \<longleftrightarrow> rg_conns r a = Some ws \<and> (\<exists>info. meta_of r a = Some info \<and> ci_connected info)"

lemma mark_disconnected_other:
  "b \<noteq> a \<Longrightarrow> meta_of (mark_disconnected t b r) a = meta_of r a \<and> rg_conns (mark_disconnected t b r) a = rg_conns r a"
  by (auto simp: mark_disconnected_def Let_def split: option.split)

lemma holds_mark: "holds r a ws \<Longrightarrow> b \<noteq> a \<Longrightarrow> holds (mark_disconnected t b r) a ws"
  by (simp add: holds_def mark_disconnected_other)

lemma holds_teardown:
  assumes "holds r a ws" and "\<not> ends_connection a ws (OpTeardown t b conn)"
  shows "holds (fst (snd (unregister_conn answers t b conn r))) a ws"
proof (cases "b = a")
  case True
  with assms have "unregister_conn answers t b conn r = (False, r, [])"
    by (auto simp: unregister_conn_def holds_def)
  with assms show ?thesis by simp
next
  case False
  with assms show ?thesis by (simp add: unregister_conn_def unregister_def holds_mark)
qed

lemma holds_step:
  assumes "holds r a ws" and "\<not> ends_connection a ws op"
  shows "holds (reg_step answers op r) a ws"
proof (cases op)
  case (OpTeardown t b conn)
  with assms holds_teardown show ?thesis by simp
next
  case (OpUnregister t b)
  with assms holds_mark show ?thesis by (simp add: unregister_def)
qed (use assms in \<open>auto simp: holds_def register_def set_connection_def Let_def handle_event_def split: option.split\<close>)

lemma holds_run:
  "holds r a ws \<Longrightarrow> list_all (\<lambda>op. \<not> ends_connection a ws op) ops \<Longrightarrow> holds (reg_run answers ops r) a ws"
  by (induction ops arbitrary: r) (simp_all add: reg_run_def holds_step)

section \<open>Properties\<close>

text \<open>
  C26: In every state the registry can reach, whatever events other processes send, each agent has
  one entry, an entry carries a disconnect time exactly when it is not connected, and an agent with a
  socket here is reported connected and reached over that socket.
\<close>

theorem registry_well_formed:
  assumes "reg_reachable r"
  shows "distinct (map fst (rg_meta r))
    \<and> (\<forall>a info. meta_of r a = Some info \<longrightarrow> (ci_connected info \<longleftrightarrow> ci_disconnected info = None))
    \<and> (\<forall>a ws. rg_conns r a = Some ws \<longrightarrow> ci_connected (get_info r a)
          \<and> send_message answers True r a mt data = ([WsWrite ws mt data], None))"
proof (intro conjI allI impI)
  note ok = reg_reachable_ok [OF assms]
  show "distinct (map fst (rg_meta r))" by (rule registry_okD(1) [OF ok])
  show "ci_connected info \<longleftrightarrow> ci_disconnected info = None" if "meta_of r a = Some info" for a info
    using registry_okD(2) [OF ok that] by (simp add: info_ok_def)
  fix a ws
  assume conn: "rg_conns r a = Some ws"
  then show "ci_connected (get_info r a)"
    using registry_okD(3) [OF ok] by (fastforce simp: get_info_def shown_def)
  show "send_message answers True r a mt data = ([WsWrite ws mt data], None)"
    using conn by (simp add: send_message_def write_result_def)
qed

theorem registry_well_formed_witness:
  "ci_connected (get_info (reg_step (\<lambda>_. True) (OpSetConnection 5 ''a'' 7) new_registry) ''a'')"
proof -
  have "reg_reachable (reg_step (\<lambda>_. True) (OpSetConnection 5 ''a'' 7) new_registry)"
    by (intro reg_reachable.intros)
  from registry_well_formed [OF this] show ?thesis by (simp add: set_connection_def Let_def)
qed

text \<open>
  C8: A reconnect is never undone by what came before it: after an agent's newest socket is stored,
  no sequence of other operations (stale teardowns of older sockets, events of other processes,
  other agents) removes it; frames still go to it, the agent is reported connected, and a stale
  teardown changes nothing and tells nobody.
\<close>

theorem newest_connection_stays:
  assumes "list_all (\<lambda>op. \<not> ends_connection a ws op) ops"
  shows "let r' = reg_run answers ops (reg_step answers (OpSetConnection t a ws) r)
         in fst (send_message answers ok r' a mt data) = [WsWrite ws mt data]
            \<and> ci_connected (get_info r' a) \<and> is_connected r' later a
            \<and> (\<forall>old u. old \<noteq> ws \<longrightarrow> unregister_conn answers u a (Some old) r' = (False, r', []))"
proof -
  define r' where "r' = reg_run answers ops (reg_step answers (OpSetConnection t a ws) r)"
  have "holds (reg_step answers (OpSetConnection t a ws) r) a ws"
    by (simp add: holds_def set_connection_def Let_def)
  then have "holds r' a ws" using assms unfolding r'_def by (rule holds_run)
  then obtain info where conn: "rg_conns r' a = Some ws" and meta: "meta_of r' a = Some info" "ci_connected info"
    by (auto simp: holds_def)
  then show ?thesis
    unfolding r'_def [symmetric] Let_def
    by (simp add: send_message_def get_info_def shown_def is_connected_def unregister_conn_def)
qed

theorem newest_connection_stays_witness:
  "fst (send_message (\<lambda>_. True) True
      (reg_run (\<lambda>_. True) [OpRegister 8 ''b'' True '''', OpTeardown 9 ''a'' (Some 1)]
        (reg_step (\<lambda>_. True) (OpSetConnection 5 ''a'' 2) new_registry)) ''a'' 1 ''hi'')
     = [WsWrite 2 1 ''hi'']"
  using newest_connection_stays [of "''a''" 2 "[OpRegister 8 ''b'' True '''', OpTeardown 9 ''a'' (Some 1)]"
      "\<lambda>_. True" 5 new_registry True 1 "''hi''"]
  by (simp add: Let_def)

text \<open>
  C27: A frame for an agent on another process arrives unchanged: the sender publishes one message,
  never to itself, and the process that holds the agent's socket decodes it and writes exactly the
  frame that was sent.
\<close>

theorem forwarded_frame_arrives:
  assumes away: "rg_conns r a = None" and sent: "send_message answers ok r a mt data = (effs, None)"
  shows "\<exists>pod f. effs = [Redis (PublishForward pod f)] \<and> pod \<noteq> [] \<and> pod \<noteq> rg_pod r \<and> rg_pods r a = Some pod
    \<and> (\<forall>there ws answers' ok'. rg_conns there a = Some ws \<longrightarrow>
         handle_forward answers' ok' there (Some f) = [WsWrite ws mt data])"
proof -
  let ?f = "\<lparr>fw_api = a, fw_type = mt, fw_data = b64_encode data\<rparr>"
  have "effs = [Redis (PublishForward (pod_of r a) ?f)] \<and> pod_of r a \<noteq> [] \<and> pod_of r a \<noteq> rg_pod r"
    using sent away
    by (auto simp: send_message_def send_remote_def publish_forward_def Let_def split: if_splits)
  moreover from this have "rg_pods r a = Some (pod_of r a)" by (auto simp: pod_of_def split: option.splits)
  moreover have "handle_forward answers' ok' there (Some ?f) = [WsWrite ws mt data]"
    if "rg_conns there a = Some ws" for there ws answers' ok'
    using that by (simp add: handle_forward_def b64_decode_encode send_message_def)
  ultimately show ?thesis by blast
qed

definition sample_event :: "string \<Rightarrow> string \<Rightarrow> presence_event" where
  "sample_event typ pod = \<lparr>ev_api = ''a'', ev_type = typ, ev_pod = pod, ev_secure = True, ev_scope = [], ev_ts = Some 0\<rparr>"

definition sample_process :: "string \<Rightarrow> registry" where
  "sample_process pod = new_registry\<lparr>rg_redis := True, rg_pod := pod\<rparr>"

theorem forwarded_frame_arrives_witness:
  "\<exists>f. fst (send_message (\<lambda>_. True) True (handle_event 1 (Some (sample_event ''connect'' ''q'')) (sample_process ''p''))
         ''a'' 2 ''frame'') = [Redis (PublishForward ''q'' f)]"
proof -
  let ?r = "handle_event 1 (Some (sample_event ''connect'' ''q'')) (sample_process ''p'')"
  have "rg_conns ?r ''a'' = None" and pods: "rg_pods ?r ''a'' = Some ''q''" and "snd (send_message (\<lambda>_. True) True ?r ''a'' 2 ''frame'') = None"
    by (simp_all add: sample_process_def sample_event_def new_registry_def handle_event_def send_message_def
        send_remote_def publish_forward_def pod_of_def)
  then show ?thesis
    using forwarded_frame_arrives [of ?r "''a''" "\<lambda>_. True" True 2 "''frame''"
        "fst (send_message (\<lambda>_. True) True ?r ''a'' 2 ''frame'')"]
    by (auto simp: prod_eq_iff)
qed

text \<open>
  A stale teardown on another process erases a live agent.  The agent has moved from process
  \<open>r\<close>, which knows that from the connect event, to another one; when the old socket on \<open>r\<close> ends, \<open>r\<close>
  deletes the agent's presence and announces a disconnect, after which every process that does not
  hold the socket, \<open>r\<close> included, reports the agent gone and has no route to it.
\<close>

lemma stale_teardown_erases_moved_agent:
  assumes old: "rg_conns r a = Some ws" and dist: "rg_redis r"
    and moved: "rg_pods r a = Some pod" "pod \<noteq> rg_pod r"
    and peer: "rg_conns peer a = None" "rg_pod peer \<noteq> rg_pod r"
  shows "\<exists>r' cmds ev. unregister_conn (\<lambda>_. True) t a (Some ws) r = (True, r', cmds)
    \<and> DelMeta a \<in> set cmds \<and> PublishEvent ev \<in> set cmds
    \<and> \<not> is_connected r' r' a \<and> pod_of r' a = []
    \<and> (let peer' = handle_event u (Some ev) peer in \<not> is_connected peer' peer' a \<and> pod_of peer' a = [])"
proof -
  let ?ev = "\<lparr>ev_api = a, ev_type = ''disconnect'', ev_pod = rg_pod r, ev_secure = False, ev_scope = [],
              ev_ts = Some (to_second t)\<rparr>"
  have "unregister_conn (\<lambda>_. True) t a (Some ws) r = (True, mark_disconnected t a r, [DelMeta a, PublishEvent ?ev])"
    using old dist by (simp add: unregister_conn_def unregister_def remove_presence_def publish_event_def)
  moreover have "\<not> is_connected (mark_disconnected t a r) (mark_disconnected t a r) a"
    and "pod_of (mark_disconnected t a r) a = []"
    by (auto simp: is_connected_def mark_disconnected_def Let_def pod_of_def no_info_def split: option.split)
  moreover have "let peer' = handle_event u (Some ?ev) peer in \<not> is_connected peer' peer' a \<and> pod_of peer' a = []"
    using peer by (simp add: handle_event_def is_connected_def pod_of_def Let_def)
  ultimately show ?thesis by fastforce
qed

theorem stale_teardown_erases_moved_agent_witness:
  "\<exists>ev. \<not> is_connected (handle_event 9 (Some ev) (handle_event 3 (Some (sample_event ''connect'' ''q'')) (sample_process ''s'')))
     (handle_event 9 (Some ev) (handle_event 3 (Some (sample_event ''connect'' ''q'')) (sample_process ''s''))) ''a''"
proof -
  let ?r = "handle_event 3 (Some (sample_event ''connect'' ''q'')) (fst (set_connection 1 ''a'' 7 (sample_process ''p'')))"
  let ?peer = "handle_event 3 (Some (sample_event ''connect'' ''q'')) (sample_process ''s'')"
  have r: "rg_conns ?r ''a'' = Some 7" "rg_redis ?r" "rg_pods ?r ''a'' = Some ''q''" "''q'' \<noteq> rg_pod ?r"
    and peer: "rg_conns ?peer ''a'' = None" "rg_pod ?peer \<noteq> rg_pod ?r"
    by (simp_all add: sample_process_def sample_event_def new_registry_def handle_event_def set_connection_def Let_def)
  show ?thesis
    using stale_teardown_erases_moved_agent [OF r peer, of 8 9] by (auto simp: Let_def)
qed

end
