(* ===== verification/AgentLink.thy ===== *)
theory AgentLink
  imports AgentRegistry PatchRuns
begin

text \<open>
  The life of an agent's WebSocket on the server: \<open>ServeWS\<close> (\<open>internal/handler/agent_ws.go\<close>) from the
  credentials to the teardown, and the disconnect callback (\<open>internal/handler/agent_disconnect.go\<close>)
  that alerts and marks the host's running patch runs.  Here the registry and the patch run tables
  meet: a run may only be marked while its agent is really gone.

  The registry changes while these handlers run, so each look at it has its own state.  The host
  table, the API key check and the alert are the results they give.
\<close>

section \<open>Opening a connection\<close>

datatype open_result = Unauthorized string | UpgradeFailed | Opened registry "presence_task list" "presence_task list"

text \<open>
  \<open>key_ok\<close> is the verification of the key against the found host, \<open>upgraded\<close> the new socket, \<open>tls\<close> and
  \<open>forwarded_proto\<close> what the request says of its transport.
\<close>

definition serve_ws_open ::
  "int \<Rightarrow> int \<Rightarrow> string \<Rightarrow> string \<Rightarrow> 'host option \<Rightarrow> ('host \<Rightarrow> bool) \<Rightarrow> websocket option \<Rightarrow> bool \<Rightarrow> string \<Rightarrow> string
     \<Rightarrow> registry \<Rightarrow> open_result" where
  "serve_ws_open t1 t2 api key host key_ok upgraded tls forwarded_proto scope r =
     (if api = [] \<or> key = [] then Unauthorized ''Missing API credentials''
      else case host of
             None \<Rightarrow> Unauthorized ''Invalid API credentials''
           | Some h \<Rightarrow>
               if \<not> key_ok h then Unauthorized ''Invalid API credentials''
               else case upgraded of
                      None \<Rightarrow> UpgradeFailed
                    | Some ws \<Rightarrow>
                        let secure = (tls \<or> equal_fold forwarded_proto ''https'');
                            (r1, tasks1) = register t1 api secure scope r;
                            (r2, tasks2) = set_connection t2 api ws r1
                        in Opened r2 tasks1 tasks2)"

section \<open>Messages of the agent\<close>

datatype route = ToSSH | ToRDP | Dropped

definition ssh_message_types :: "string list" where
  "ssh_message_types = [''ssh_proxy_data'', ''ssh_proxy_connected'', ''ssh_proxy_error'', ''ssh_proxy_closed'']"

definition rdp_message_types :: "string list" where
  "rdp_message_types = [''rdp_proxy_data'', ''rdp_proxy_connected'', ''rdp_proxy_error'', ''rdp_proxy_closed'']"

text \<open>\<open>typ\<close> is the message's type, \<open>None\<close> when the message is no JSON object.\<close>

definition route_message :: "bool \<Rightarrow> bool \<Rightarrow> string option \<Rightarrow> route" where
  "route_message has_ssh has_rdp typ =
     (case typ of
        None \<Rightarrow> Dropped
      | Some t \<Rightarrow> if has_ssh \<and> t \<in> set ssh_message_types then ToSSH
                  else if has_rdp \<and> t \<in> set rdp_message_types then ToRDP else Dropped)"

section \<open>Closing a connection\<close>

record teardown =
  td_owned :: bool
  td_registry :: registry
  td_cmds :: "redis_cmd list"
  td_cutoff :: int
  td_disconnects :: bool

text \<open>\<open>closed_at\<close> is the time of the close; \<open>later\<close> the registry when the cutoff is read.\<close>

definition serve_ws_teardown ::
  "(redis_cmd \<Rightarrow> bool) \<Rightarrow> int \<Rightarrow> int \<Rightarrow> string \<Rightarrow> websocket \<Rightarrow> (registry \<Rightarrow> registry) \<Rightarrow> bool \<Rightarrow> registry \<Rightarrow> teardown" where
  "serve_ws_teardown answers closed_at t api ws later has_callback r =
     (let (owned, r', cmds) = unregister_conn answers t api (Some ws) r
      in \<lparr>td_owned = owned, td_registry = r', td_cmds = cmds,
          td_cutoff = (if owned then closed_at
                       else case ci_last_connected (get_info (later r') api) of
                              None \<Rightarrow> closed_at | Some at \<Rightarrow> at),
          td_disconnects = (owned \<and> has_callback)\<rparr>)"

definition disconnect_message :: string where
  "disconnect_message = ''Agent disconnected during patch run''"

text \<open>
  The disconnect callback: \<open>look1\<close> and \<open>look2\<close> are the registry states of the two checks (\<open>None\<close> without a
  registry), \<open>host\<close> the found host's id.  The result says whether an alert was raised.
\<close>

definition reconnected :: "(registry \<times> registry) option \<Rightarrow> string \<Rightarrow> bool" where
  "reconnected look api = (case look of None \<Rightarrow> False | Some (r, later) \<Rightarrow> is_connected r later api)"

definition agent_disconnected ::
  "env \<Rightarrow> string \<Rightarrow> (registry \<times> registry) option \<Rightarrow> (registry \<times> registry) option \<Rightarrow> bool \<Rightarrow> string option
     \<Rightarrow> store_db \<Rightarrow> bool \<times> store_db" where
  "agent_disconnected e api look1 look2 has_stores host db =
     (let alerted = (\<not> reconnected look1 api)
      in if \<not> has_stores then (alerted, db)
         else case host of
                None \<Rightarrow> (alerted, db)
              | Some h \<Rightarrow> if reconnected look2 api then (alerted, db)
                          else (alerted, snd (mark_host_disconnected e h disconnect_message db)))"

section \<open>Properties\<close>

lemma mark_host_disconnected_effect:
  fixes e h msg db
  defines "db' \<equiv> snd (mark_host_disconnected e h msg db)"
  shows "items db' = items db"
    and "status_of rid db' \<noteq> status_of rid db \<Longrightarrow>
      status_of rid db' = Some ''agent_disconnected''
      \<and> (\<exists>r. find_run rid (runs db) = Some r \<and> pr_status r = ''running'' \<and> pr_host r = h)"
proof -
  have cases: "db' = db \<or> (\<exists>n. mark_runs_agent_disconnected e h (non_empty msg) db = Inr (n, db'))"
    by (auto simp: db'_def mark_host_disconnected_def exec_rows_def split: sum.splits)
  then show "items db' = items db" using st_disconnected.stmt_items by blast
  assume ne: "status_of rid db' \<noteq> status_of rid db"
  with cases obtain n where n: "mark_runs_agent_disconnected e h (non_empty msg) db = Inr (n, db')" by auto
  show "status_of rid db' = Some ''agent_disconnected''
      \<and> (\<exists>r. find_run rid (runs db) = Some r \<and> pr_status r = ''running'' \<and> pr_host r = h)"
    using ne st_disconnected.stmt_status [OF n, of rid]
    by (cases "find_run rid (runs db)") (auto simp: status_of_def split: if_splits)
qed

text \<open>
  C9: When an agent drops, only its own host's running runs are marked, and nothing else in the
  tables changes; if the agent has reconnected by the second check, whatever else happened on the
  registry since, no run is touched, and no alert is raised when it had by the first.
\<close>

theorem reconnected_agent_keeps_its_runs:
  assumes call: "agent_disconnected e a look1 look2 has_stores host db = (alerted, db')"
    and stays: "list_all (\<lambda>op. \<not> ends_connection a ws op) ops"
  shows "items db' = items db
    \<and> (\<forall>rid. status_of rid db' \<noteq> status_of rid db \<longrightarrow>
         status_of rid db' = Some ''agent_disconnected''
         \<and> (\<exists>r. find_run rid (runs db) = Some r \<and> pr_status r = ''running'' \<and> host = Some (pr_host r)))
    \<and> (look1 = Some (reg_run answers ops (reg_step answers (OpSetConnection t a ws) r), later) \<longrightarrow> \<not> alerted)
    \<and> (look2 = Some (reg_run answers ops (reg_step answers (OpSetConnection t a ws) r), later) \<longrightarrow> db' = db)"
proof -
  define r' where "r' = reg_run answers ops (reg_step answers (OpSetConnection t a ws) r)"
  have "holds (reg_step answers (OpSetConnection t a ws) r) a ws"
    by (simp add: holds_def set_connection_def Let_def)
  then have "holds r' a ws" using stays unfolding r'_def by (rule holds_run)
  then have again: "reconnected (Some (r', later)) a" by (simp add: holds_def reconnected_def is_connected_def)
  have marked: "db' = db \<or> (\<exists>h. host = Some h \<and> db' = snd (mark_host_disconnected e h disconnect_message db))"
    using call unfolding agent_disconnected_def Let_def
    by (auto split: if_splits option.splits)
  then have "items db' = items db" using mark_host_disconnected_effect(1) by auto
  moreover have "\<forall>rid. status_of rid db' \<noteq> status_of rid db \<longrightarrow>
         status_of rid db' = Some ''agent_disconnected''
         \<and> (\<exists>r. find_run rid (runs db) = Some r \<and> pr_status r = ''running'' \<and> host = Some (pr_host r))"
    using marked mark_host_disconnected_effect(2) [of _ e _ disconnect_message db] by fastforce
  moreover have "look1 = Some (r', later) \<longrightarrow> \<not> alerted" and "look2 = Some (r', later) \<longrightarrow> db' = db"
    using call again by (auto simp: agent_disconnected_def Let_def split: if_splits option.splits)
  ultimately show ?thesis unfolding r'_def by blast
qed

theorem reconnected_agent_keeps_its_runs_witness:
  "agent_disconnected sample_env ''a'' None
     (Some (reg_run (\<lambda>_. True) [] (reg_step (\<lambda>_. True) (OpSetConnection 5 ''a'' 2) new_registry), new_registry))
     True (Some ''h'') (sample_db ''running'') = (True, sample_db ''running'')"
proof -
  let ?look = "Some (reg_run (\<lambda>_. True) [] (reg_step (\<lambda>_. True) (OpSetConnection 5 ''a'' 2) new_registry), new_registry)"
  obtain alerted db' where run: "agent_disconnected sample_env ''a'' None ?look True (Some ''h'') (sample_db ''running'') = (alerted, db')"
    by fastforce
  then have "alerted" by (simp add: agent_disconnected_def reconnected_def Let_def split: if_splits)
  moreover have "db' = sample_db ''running''"
    using reconnected_agent_keeps_its_runs [OF run, of 2 "[]" "\<lambda>_. True" 5 new_registry new_registry] by simp
  ultimately show ?thesis using run by simp
qed

text \<open>
  An agent that moved to another process loses its runs.  Its old socket's teardown on \<open>r\<close> counts
  as its own, although \<open>r\<close> knows the agent is on \<open>pod\<close>; \<open>r\<close> then deletes the agent's presence, tells every
  process it is gone, and its disconnect callback marks a run the agent is executing.
\<close>

lemma moved_agent_loses_its_run:
  assumes old: "rg_conns r a = Some ws" and dist: "rg_redis r"
    and moved: "rg_pods r a = Some pod" "pod \<noteq> rg_pod r"
    and peer: "rg_conns peer a = None" "rg_pod peer \<noteq> rg_pod r"
    and db: "\<not> q_fails e QDisconnected" "db_inv db"
    and running: "find_run rid (runs db) = Some run" "pr_status run = ''running''" "pr_host run = h"
  shows "\<exists>td ev. td = serve_ws_teardown (\<lambda>_. True) c t a ws later True r \<and> td_disconnects td
    \<and> PublishEvent ev \<in> set (td_cmds td)
    \<and> (let peer' = handle_event u (Some ev) peer in \<not> is_connected peer' peer' a \<and> pod_of peer' a = [])
    \<and> status_of rid (snd (agent_disconnected e a (Some (td_registry td, td_registry td))
          (Some (td_registry td, td_registry td)) True (Some h) db)) = Some ''agent_disconnected''"
proof -
  obtain r' cmds ev where un: "unregister_conn (\<lambda>_. True) t a (Some ws) r = (True, r', cmds)"
    and ev: "PublishEvent ev \<in> set cmds" and gone: "\<not> is_connected r' r' a"
    and told: "let peer' = handle_event u (Some ev) peer in \<not> is_connected peer' peer' a \<and> pod_of peer' a = []"
    using stale_teardown_erases_moved_agent [OF old dist moved peer, of t u] by blast
  have "one_active_per_host (runs db)" using db(2) by (simp add: db_inv_def)
  then obtain n db' where mark: "mark_runs_agent_disconnected e h (non_empty disconnect_message) db = Inr (n, db')"
    using db(1) by (fastforce simp: mark_runs_agent_disconnected_def guarded_Inr update_runs_Inr is_active_def
        active_statuses_def intro: one_active_ending)
  have "status_of rid db' = Some ''agent_disconnected''"
    using st_disconnected.stmt_status [OF mark, of rid] running by simp
  then have "status_of rid (snd (agent_disconnected e a (Some (r', r')) (Some (r', r')) True (Some h) db))
      = Some ''agent_disconnected''"
    using gone mark by (simp add: agent_disconnected_def reconnected_def mark_host_disconnected_def exec_rows_def Let_def)
  then show ?thesis
    using un ev told by (intro exI [of _ "serve_ws_teardown (\<lambda>_. True) c t a ws later True r"] exI [of _ ev])
      (simp add: serve_ws_teardown_def Let_def)
qed

lemma moved_agent_loses_its_run_witness:
  "\<exists>td :: teardown. td_disconnects td \<and> status_of ''r'' (snd (agent_disconnected sample_env ''a''
     (Some (td_registry td, td_registry td)) (Some (td_registry td, td_registry td)) True (Some ''h'') (sample_db ''running'')))
     = Some ''agent_disconnected''"
proof -
  let ?r = "handle_event 3 (Some (sample_event ''connect'' ''q'')) (fst (set_connection 1 ''a'' 7 (sample_process ''p'')))"
  have r: "rg_conns ?r ''a'' = Some 7" "rg_redis ?r" "rg_pods ?r ''a'' = Some ''q''" "''q'' \<noteq> rg_pod ?r"
    and peer: "rg_conns (sample_process ''s'') ''a'' = None" "rg_pod (sample_process ''s'') \<noteq> rg_pod ?r"
    by (simp_all add: sample_process_def sample_event_def new_registry_def handle_event_def set_connection_def Let_def)
  have db: "\<not> q_fails sample_env QDisconnected" "db_inv (sample_db ''running'')"
    and run: "find_run ''r'' (runs (sample_db ''running'')) = Some (sample_run ''r'' ''running'')"
      "pr_status (sample_run ''r'' ''running'') = ''running''" "pr_host (sample_run ''r'' ''running'') = ''h''"
    by code_simp+
  from moved_agent_loses_its_run [OF r peer db run, of 8 8 "\<lambda>r. r" 9] show ?thesis by blast
qed

end
