(* ===== verification/WinUpdates.thy ===== *)
theory WinUpdates
  imports PatchTasks
begin

text \<open>
  The decisions of a Windows patch run on the agent (\<open>internal/packages/windows_patch_logic.go\<close>): which
  targets of a request are acted on, which updates are installed and in what order, what a result
  code, an HRESULT or a winget exit code means for an item, and the stage a run ends with.

  Identifiers are checked with the regular expressions of the server, which the agent repeats
  (\<open>is_valid_wua_guid\<close>, \<open>is_valid_winget_id\<close>).  An \<open>int32\<close> or an exit code is an \<open>int\<close>; where it
  is converted, the wrap-around is written out.
\<close>

section \<open>Requests\<close>

type_synonym win_target = "string \<times> string"

definition valid_windows_patch_target :: "win_target \<Rightarrow> bool" where
  "valid_windows_patch_target t =
     (if fst t = ''wua'' then is_valid_wua_guid (snd t)
      else if fst t = ''winget'' then is_valid_winget_id (snd t) else False)"

record win_request =
  rq_patch_all :: bool
  rq_dry :: bool
  rq_updates :: bool
  rq_apps :: bool
  rq_targets :: "win_target list"

text \<open>One accepted target per kind and identifier, whatever the case; the others are rejected.\<close>

fun collect_targets ::
  "win_target list \<Rightarrow> string set \<Rightarrow> win_target list \<Rightarrow> win_target list \<Rightarrow> win_target list \<times> win_target list" where
  "collect_targets [] seen accepted rejected = (accepted, rejected)"
| "collect_targets (t # ts) seen accepted rejected =
     (if \<not> valid_windows_patch_target t then collect_targets ts seen accepted (rejected @ [t])
      else let t' = (if fst t = ''wua'' then (fst t, to_lower (snd t)) else t);
               key = seen_key (fst t') (to_lower (snd t'))
           in if key \<in> seen then collect_targets ts seen accepted rejected
              else collect_targets ts (insert key seen) (accepted @ [t']) rejected)"

definition new_windows_patch_request ::
  "string \<Rightarrow> bool \<Rightarrow> win_target list \<Rightarrow> bool option \<Rightarrow> bool option
     \<Rightarrow> win_request \<times> win_target list \<times> string option" where
  "new_windows_patch_request patch_type dry targets include_updates include_apps =
     (let req = \<lparr>rq_patch_all = (patch_type = ''patch_all''), rq_dry = dry,
                 rq_updates = (include_updates \<noteq> Some False), rq_apps = (include_apps \<noteq> Some False),
                 rq_targets = []\<rparr>
      in if rq_patch_all req then
           (req, [], if \<not> rq_updates req \<and> \<not> rq_apps req
                     then Some ''patch all needs Windows Updates, applications, or both'' else None)
         else let (accepted, rejected) = collect_targets targets {} [] []
              in (req\<lparr>rq_targets := accepted\<rparr>, rejected,
                  if accepted = [] then Some ''no valid patch targets'' else None))"

definition includes_windows_updates :: "win_request \<Rightarrow> bool" where
  "includes_windows_updates req =
     (if rq_patch_all req then rq_updates req else list_ex (\<lambda>t. fst t = ''wua'') (rq_targets req))"

text \<open>Limits, in minutes.\<close>

record win_timeouts =
  to_scan :: int
  to_download :: int
  to_download_feature :: int
  to_install :: int
  to_install_feature :: int

definition default_windows_timeouts :: win_timeouts where
  "default_windows_timeouts =
     \<lparr>to_scan = 15, to_download = 60, to_download_feature = 180, to_install = 180, to_install_feature = 240\<rparr>"

definition windows_run_limit :: "win_request \<Rightarrow> int" where
  "windows_run_limit req =
     (let base = 4 * 60
      in if \<not> includes_windows_updates req then base
         else max base (to_download_feature default_windows_timeouts + to_install_feature default_windows_timeouts + 60))"

section \<open>Items\<close>

record win_item =
  wi_kind :: string
  wi_id :: string
  wi_revision :: int
  wi_title :: string
  wi_kb :: string
  wi_status :: string
  wi_result_code :: "int option"
  wi_hresult :: string
  wi_exit_code :: "int option"
  wi_reboot :: bool
  wi_message :: string
  wi_started :: string
  wi_completed :: string

definition blank_item :: "string \<Rightarrow> string \<Rightarrow> string \<Rightarrow> win_item" where
  "blank_item kind tid status =
     \<lparr>wi_kind = kind, wi_id = tid, wi_revision = 0, wi_title = [], wi_kb = [], wi_status = status,
      wi_result_code = None, wi_hresult = [], wi_exit_code = None, wi_reboot = False, wi_message = [],
      wi_started = [], wi_completed = []\<rparr>"

section \<open>Selecting updates\<close>

record wua_update =
  wu_id :: string
  wu_revision :: int
  wu_title :: string
  wu_kbs :: "string list"
  wu_categories :: "string list"
  wu_category_ids :: "string list"
  wu_type :: int
  wu_browse_only :: bool
  wu_reboot_behavior :: int
  wu_user_input :: bool
  wu_pending_reboot :: bool

record wua_scan =
  sc_updates :: "wua_update list"
  sc_reboot_first :: bool

definition wua_category_security :: string where "wua_category_security = ''0fa1201d-4330-4fa8-8ae9-b877473b6441''"
definition wua_category_critical :: string where "wua_category_critical = ''e6cf1350-c01b-414d-a61f-263d14d133b4''"
definition wua_category_upgrades :: string where "wua_category_upgrades = ''3689bdc8-b205-4af4-8d4a-a63924c5e9d5''"
definition wua_type_driver :: int where "wua_type_driver = 2"

definition is_feature_upgrade :: "wua_update \<Rightarrow> bool" where
  "is_feature_upgrade u =
     (list_ex (\<lambda>c. equal_fold c wua_category_upgrades) (wu_category_ids u)
      \<or> list_ex (\<lambda>c. equal_fold c ''Upgrades'') (wu_categories u))"

definition is_security_or_critical :: "wua_update \<Rightarrow> bool" where
  "is_security_or_critical u =
     list_ex (\<lambda>c. equal_fold c wua_category_security \<or> equal_fold c wua_category_critical) (wu_category_ids u)"

definition patch_all_eligible :: "wua_update \<Rightarrow> bool" where
  "patch_all_eligible u \<longleftrightarrow> wu_type u \<noteq> wua_type_driver \<and> \<not> wu_browse_only u \<and> \<not> is_feature_upgrade u"

definition wua_kb :: "wua_update \<Rightarrow> string" where
  "wua_kb u = join '', '' (wu_kbs u)"

definition wua_item :: "wua_update \<Rightarrow> string \<Rightarrow> string \<Rightarrow> win_item" where
  "wua_item u status message =
     (blank_item ''wua'' (to_lower (wu_id u)) status)
       \<lparr>wi_revision := wu_revision u, wi_title := wu_title u, wi_kb := wua_kb u, wi_message := message\<rparr>"

definition msg_no_longer_offered :: string where
  "msg_no_longer_offered = ''No longer offered by Windows Update: installed, superseded or withdrawn''"
definition msg_pending_reboot :: string where "msg_pending_reboot = ''Installed earlier; restart the host to finish''"
definition msg_interactive :: string where "msg_interactive = ''Needs interactive input''"
definition msg_restart_first :: string where
  "msg_restart_first = ''Restart pending from an earlier install; restart the host and run again''"
definition msg_stopped :: string where "msg_stopped = ''Stopped''"
definition msg_time_limit :: string where "msg_time_limit = ''The run time limit was reached''"
definition msg_still_installing :: string where
  "msg_still_installing = ''Not started: Windows Update was still installing a previous update''"

text \<open>\<open>sort.SliceStable\<close>: security and critical updates first, then by title.\<close>

definition install_before :: "wua_update \<Rightarrow> wua_update \<Rightarrow> bool" where
  "install_before a b =
     (if is_security_or_critical a \<noteq> is_security_or_critical b then is_security_or_critical a
      else to_lower (wu_title a) < to_lower (wu_title b))"

definition order_for_install :: "wua_update list \<Rightarrow> wua_update list" where
  "order_for_install us = stable_sort_by install_before us"

text \<open>The update a target names: the last one scanned with its identifier.\<close>

definition update_by_id :: "wua_update list \<Rightarrow> string \<Rightarrow> wua_update option" where
  "update_by_id us = map_of (rev (map (\<lambda>u. (to_lower (wu_id u), u)) us))"

fun choose_targets ::
  "(string \<Rightarrow> wua_update option) \<Rightarrow> string list \<Rightarrow> wua_update list \<times> win_item list" where
  "choose_targets by_id [] = ([], [])"
| "choose_targets by_id (t # ts) =
     (let (chosen, decided) = choose_targets by_id ts
      in case by_id (to_lower t) of
           None \<Rightarrow> (chosen, (blank_item ''wua'' (to_lower t) ''not_applicable'')\<lparr>wi_message := msg_no_longer_offered\<rparr> # decided)
         | Some u \<Rightarrow> (u # chosen, decided))"

definition decide_update :: "bool \<Rightarrow> wua_update \<Rightarrow> win_item option" where
  "decide_update reboot_first u =
     (if wu_pending_reboot u
      then Some ((wua_item u ''installed_pending_reboot'' msg_pending_reboot)\<lparr>wi_reboot := True\<rparr>)
      else if wu_user_input u then Some (wua_item u ''skipped'' msg_interactive)
      else if reboot_first then Some (wua_item u ''skipped'' msg_restart_first)
      else None)"

definition select_wua_updates :: "wua_scan \<Rightarrow> bool \<Rightarrow> string list \<Rightarrow> wua_update list \<times> win_item list" where
  "select_wua_updates scan patch_all targets =
     (let (chosen, decided) =
            (if patch_all
             then (filter (\<lambda>u. patch_all_eligible u \<and> is_valid_wua_guid (wu_id u)) (sc_updates scan), [])
             else choose_targets (update_by_id (sc_updates scan)) targets)
      in (order_for_install (filter (\<lambda>u. decide_update (sc_reboot_first scan) u = None) chosen),
          decided @ map (\<lambda>u. the (decide_update (sc_reboot_first scan) u))
                      (filter (\<lambda>u. decide_update (sc_reboot_first scan) u \<noteq> None) chosen)))"

definition reboot_behaviour_text :: "int \<Rightarrow> string" where
  "reboot_behaviour_text b =
     (if b = 1 then ''Restart required'' else if b = 2 then ''May need a restart'' else ''No restart expected'')"

section \<open>Results\<close>

definition wua_result_status :: "int \<Rightarrow> string" where
  "wua_result_status rc =
     (if rc = 2 then ''installed'' else if rc = 3 then ''installed_with_errors'' else if rc = 4 then ''failed''
      else if rc = 5 then ''aborted'' else ''failed'')"

definition normalise_hresult :: "string \<Rightarrow> string" where
  "normalise_hresult h =
     (let h' = to_lower (trim_space h)
      in if h' = [] then [] else if has_prefix h' ''0x'' then h' else ''0x'' @ h')"

definition wua_hresult_hints :: "(string \<times> string) list" where
  "wua_hresult_hints =
     [(''0x80240016'', ''Another installation is running, or a restart is pending''),
      (''0x8024000b'', ''Operation was cancelled''),
      (''0x80240017'', ''Update not applicable to this host''),
      (''0x8024001e'', ''Update service is stopping (shutdown in progress)''),
      (''0x80070005'', ''Access denied: agent not running as LocalSystem''),
      (''0x80070422'', ''Windows Update service is disabled''),
      (''0x8024402c'', ''Cannot reach the update server or WSUS: check proxy, firewall, WSUS URL''),
      (''0x8024402f'', ''Cannot reach the update server or WSUS: check proxy, firewall, WSUS URL''),
      (''0x80244007'', ''Cannot reach the update server or WSUS: check proxy, firewall, WSUS URL''),
      (''0x80240438'', ''Cannot reach the update server or WSUS: check proxy, firewall, WSUS URL''),
      (''0x80246007'', ''Update not downloaded''),
      (''0x8024200d'', ''Update needs another download; run again''),
      (''0x80070bc9'', ''A restart is required before this can install''),
      (''0x800f0922'', ''Servicing failed (often the system reserved partition or .NET); see CBS.log''),
      (''0x80073701'', ''Component store corrupt; run DISM /RestoreHealth'')]"

definition wua_hresult_hint :: "string \<Rightarrow> string" where
  "wua_hresult_hint h =
     (case map_of wua_hresult_hints (normalise_hresult h) of None \<Rightarrow> [] | Some hint \<Rightarrow> hint)"

definition is_install_blocked_hresult :: "string \<Rightarrow> bool" where
  "is_install_blocked_hresult h \<longleftrightarrow> normalise_hresult h = ''0x80240016''"

definition wua_result_message :: "int \<Rightarrow> string \<Rightarrow> string" where
  "wua_result_message rc hresult =
     (let msg = (if rc = 2 then ''Installed'' else if rc = 3 then ''Installed with errors''
                 else if rc = 4 then ''Failed'' else if rc = 5 then ''Aborted'' else ''Did not run'');
          hint = wua_hresult_hint hresult
      in if hint = [] then msg else msg @ '': '' @ hint)"

definition is_zero_hresult :: "string \<Rightarrow> bool" where
  "is_zero_hresult h \<longleftrightarrow>
     trim_right_while (\<lambda>c. c = CHR ''0'') (dropWhile (\<lambda>c. c = CHR ''0'') (trim_prefix (to_lower h) ''0x'')) = []"

text \<open>What the Windows Update script can fail with.\<close>

datatype wua_error = ScriptError string string | NoResult | DeadlineExceeded | Canceled | OtherError

definition error_item_message :: "wua_error \<Rightarrow> string" where
  "error_item_message err =
     (case err of
        ScriptError m hresult \<Rightarrow> (let hint = wua_hresult_hint hresult in if hint = [] then m else m @ '': '' @ hint)
      | NoResult \<Rightarrow> ''the Windows Update script ended without a result''
      | DeadlineExceeded \<Rightarrow> ''it did not finish in time''
      | Canceled \<Rightarrow> ''it was cancelled''
      | OtherError \<Rightarrow> ''Windows Update could not be run; see the run output'')"

section \<open>winget exit codes\<close>

type_synonym exit_code = "32 word"

definition winget_no_package_found :: exit_code where "winget_no_package_found = 0x8A150014"
definition winget_update_not_applicable :: exit_code where "winget_update_not_applicable = 0x8A15002B"
definition winget_version_not_newer :: exit_code where "winget_version_not_newer = 0x8A15004F"
definition winget_pinned :: exit_code where "winget_pinned = 0x8A150068"
definition winget_user_scope_from_admin :: exit_code where "winget_user_scope_from_admin = 0x8A15007D"
definition winget_package_in_use :: exit_code where "winget_package_in_use = 0x8A150101"
definition winget_install_in_progress :: exit_code where "winget_install_in_progress = 0x8A150102"
definition winget_file_in_use :: exit_code where "winget_file_in_use = 0x8A150103"
definition winget_reboot_to_finish :: exit_code where "winget_reboot_to_finish = 0x8A150109"
definition winget_reboot_for_install :: exit_code where "winget_reboot_for_install = 0x8A15010A"
definition winget_reboot_initiated :: exit_code where "winget_reboot_initiated = 0x8A15010B"
definition winget_in_use_by_other_app :: exit_code where "winget_in_use_by_other_app = 0x8A150111"
definition winget_source_agreements_need :: exit_code where "winget_source_agreements_need = 0x8A150046"

lemmas winget_codes = winget_no_package_found_def winget_update_not_applicable_def winget_version_not_newer_def
  winget_pinned_def winget_user_scope_from_admin_def winget_package_in_use_def winget_install_in_progress_def
  winget_file_in_use_def winget_reboot_to_finish_def winget_reboot_for_install_def winget_reboot_initiated_def
  winget_in_use_by_other_app_def winget_source_agreements_need_def

definition winget_code_messages :: "(exit_code \<times> string) list" where
  "winget_code_messages =
     [(winget_source_agreements_need, ''winget source agreements were not accepted''),
      (0x8A150008, ''Downloading the installer failed''),
      (0x8A150011, ''The installer'' @ [CHR 0x27] @ ''s hash does not match its manifest''),
      (0x8A15005E, ''A winget source'' @ [CHR 0x27] @ ''s server certificate was rejected: check TLS inspection or proxy settings''),
      (0x8A150105, ''Not enough disk space''),
      (0x8A150107, ''The installer needs internet access''),
      (0x8A15010F, ''Blocked by organisation policy''),
      (0x80072EE2, ''The download timed out''),
      (0x80072EE7, ''Could not resolve the download server'' @ [CHR 0x27] @ ''s name: check DNS and proxy settings''),
      (0x80072EFD, ''Could not connect to the download server''),
      (0x80072F8F, ''Could not make a secure connection: check the system clock and any TLS inspection'')]"

definition winget_code_message :: "exit_code \<Rightarrow> string" where
  "winget_code_message code =
     (case map_of winget_code_messages code of Some m \<Rightarrow> m | None \<Rightarrow> ''winget exited with an error'')"

definition msg_user_scope :: string where
  "msg_user_scope = ''Not found for the system account: the app is probably installed for a single user, which the agent cannot upgrade''"
definition msg_pinned :: string where "msg_pinned = ''Pinned in winget: remove the pin to update it''"
definition msg_store_app :: string where
  "msg_store_app = ''Microsoft Store app: it updates through the Store for each user, not as SYSTEM''"
definition msg_deferred_replace :: string where
  "msg_deferred_replace = ''Installed; some files will be replaced at the next restart.''"

record winget_outcome =
  oc_status :: string
  oc_reboot :: bool
  oc_message :: string

definition outcome :: "string \<Rightarrow> string \<Rightarrow> winget_outcome" where
  "outcome status message = \<lparr>oc_status = status, oc_reboot = False, oc_message = message\<rparr>"

definition winget_output_lists_id :: "string \<Rightarrow> string \<Rightarrow> bool" where
  "winget_output_lists_id out tid =
     list_ex (\<lambda>line. list_ex (\<lambda>f. equal_fold f tid) (str_fields line)) (split_on CHR 0x0A out)"

definition classify_winget_upgrade_exit :: "exit_code \<Rightarrow> bool \<Rightarrow> string \<Rightarrow> string \<Rightarrow> winget_outcome" where
  "classify_winget_upgrade_exit code dry out tid =
     (if dry then
        (if code = 0 then (if winget_output_lists_id out tid then outcome ''would_install'' ''Upgrade available''
                           else outcome ''not_applicable'' ''No upgrade available'')
         else if code = winget_update_not_applicable \<or> code = winget_version_not_newer
         then outcome ''not_applicable'' ''No upgrade available''
         else if code = winget_no_package_found then outcome ''not_applicable'' msg_user_scope
         else if code = winget_pinned then outcome ''skipped'' msg_pinned
         else outcome ''failed'' (winget_code_message code))
      else if code = 0 then outcome ''installed'' ''Upgraded''
      else if code = winget_reboot_to_finish \<or> code = winget_reboot_initiated
      then (outcome ''installed'' ''Upgraded; restart to finish'')\<lparr>oc_reboot := True\<rparr>
      else if code = winget_update_not_applicable \<or> code = winget_version_not_newer
      then outcome ''not_applicable'' ''No applicable upgrade''
      else if code = winget_no_package_found \<or> code = winget_user_scope_from_admin
      then outcome ''not_applicable'' msg_user_scope
      else if code = winget_pinned then outcome ''skipped'' msg_pinned
      else if code = winget_package_in_use \<or> code = winget_file_in_use \<or> code = winget_in_use_by_other_app
      then outcome ''failed'' ''Application is in use: close the app and retry''
      else if code = winget_install_in_progress then outcome ''failed'' ''Another installation is in progress''
      else if code = winget_reboot_for_install then outcome ''failed'' ''Restart the host, then try again''
      else outcome ''failed'' (winget_code_message code))"

definition winget_list_check_failed :: "exit_code \<Rightarrow> bool" where
  "winget_list_check_failed code \<longleftrightarrow>
     code \<notin> {0, winget_no_package_found, winget_update_not_applicable, winget_version_not_newer}"

text \<open>Whether \<open>after\<close> holds entries \<open>before\<close> did not, counting duplicates.\<close>

definition count_renames :: "string list \<Rightarrow> string \<Rightarrow> nat" where
  "count_renames es = foldl (\<lambda>seen e. if e \<noteq> [] then seen(to_lower e := seen (to_lower e) + 1) else seen) (\<lambda>_. 0) es"

fun renames_added :: "(string \<Rightarrow> nat) \<Rightarrow> string list \<Rightarrow> bool" where
  "renames_added seen [] \<longleftrightarrow> False"
| "renames_added seen (e # es) \<longleftrightarrow>
     (if e = [] then renames_added seen es
      else if seen (to_lower e) = 0 then True
      else renames_added (seen(to_lower e := seen (to_lower e) - 1)) es)"

definition new_pending_renames :: "string list \<Rightarrow> string list \<Rightarrow> bool" where
  "new_pending_renames before after = renames_added (count_renames before) after"

text \<open>Paths: \<open>normaliseWindowsPath\<close> (\<open>winget_resolve.go\<close>) joins runs of backslashes.\<close>

definition backslash :: char where "backslash = CHR 0x5C"

fun collapse_backslashes :: "string \<Rightarrow> string" where
  "collapse_backslashes (c # d # s) =
     (if c = backslash \<and> d = backslash then collapse_backslashes (d # s) else c # collapse_backslashes (d # s))"
| "collapse_backslashes s = s"

definition normalise_windows_path :: "string \<Rightarrow> string option" where
  "normalise_windows_path p =
     (let q = trim_right_while (\<lambda>c. c = backslash)
                (collapse_backslashes (map (\<lambda>c. if c = CHR ''/'' then backslash else c) (trim_space p)))
      in if list_ex (\<lambda>seg. seg = ''.'' \<or> seg = ''..'') (split_on backslash q) then None
         else if q = [] then None else Some (to_lower q))"

definition path_inside :: "string \<Rightarrow> string \<Rightarrow> bool" where
  "path_inside child parent =
     (case (normalise_windows_path child, normalise_windows_path parent) of
        (Some c, Some d) \<Rightarrow> has_prefix c (d @ [backslash])
      | _ \<Rightarrow> False)"

definition under_any_dir :: "string \<Rightarrow> string list \<Rightarrow> bool" where
  "under_any_dir path dirs = list_ex (\<lambda>d. d \<noteq> [] \<and> path_inside path d) dirs"

fun pair_renames :: "string list \<Rightarrow> string list \<Rightarrow> string list" where
  "pair_renames dirs (src # dst # rest) =
     (let d = trim_prefix (trim_prefix dst ''!'') [backslash, CHR ''?'', CHR ''?'', backslash]
      in if d = [] \<or> under_any_dir d dirs then pair_renames dirs rest
         else (src @ nul # dst) # pair_renames dirs rest)"
| "pair_renames dirs vs = []"

definition significant_renames :: "string list list \<Rightarrow> string list \<Rightarrow> string list" where
  "significant_renames values dirs = concat (map (pair_renames dirs) values)"

section \<open>How a run ends\<close>

definition item_name :: "win_item \<Rightarrow> string" where
  "item_name it = (if wi_kb it \<noteq> [] then wi_kb it else if wi_title it \<noteq> [] then wi_title it else wi_id it)"

definition hex_digit_of :: "nat \<Rightarrow> char" where
  "hex_digit_of n = (if n < 10 then char_of (48 + n) else char_of (55 + n))"

fun hex_digits :: "nat \<Rightarrow> nat \<Rightarrow> string" where
  "hex_digits 0 n = []"
| "hex_digits (Suc k) n = hex_digits k (n div 16) @ [hex_digit_of (n mod 16)]"

text \<open>\<open>fmt.Sprintf("0x%08X")\<close> of a \<open>uint32\<close>.\<close>

definition hex_code :: "exit_code \<Rightarrow> string" where
  "hex_code code = ''0x'' @ hex_digits 8 (unat code)"

definition item_label :: "win_item \<Rightarrow> string" where
  "item_label it =
     (if wi_hresult it \<noteq> [] \<and> \<not> is_zero_hresult (wi_hresult it)
      then item_name it @ '' ('' @ wi_hresult it @ '')''
      else case wi_exit_code it of
             Some n \<Rightarrow> if n \<noteq> 0 then item_name it @ '' ('' @ hex_code (of_int n) @ '')'' else item_name it
           | None \<Rightarrow> item_name it)"

definition skip_reasons :: "(string \<times> string) list" where
  "skip_reasons =
     [(msg_store_app, ''Microsoft Store app''),
      (msg_still_installing, ''not started, Windows Update was still installing'')]"

definition skipped_label :: "win_item \<Rightarrow> string" where
  "skipped_label it =
     (case map_of skip_reasons (wi_message it) of
        Some r \<Rightarrow> item_name it @ '' ('' @ r @ '')''
      | None \<Rightarrow>
          let reason = (case cut_on CHR '':'' (wi_message it) of Some (r, _) \<Rightarrow> r | None \<Rightarrow> wi_message it)
          in if reason = [] then item_name it
             else item_name it @ '' ('' @ to_lower (take 1 reason) @ drop 1 reason @ '')'')"

definition item_labels :: "win_item list \<Rightarrow> (win_item \<Rightarrow> string) \<Rightarrow> string" where
  "item_labels its label = join '', '' (map label (take 3 its) @ (if length its > 3 then [''...''] else []))"

definition final_windows_stage ::
  "win_item list \<Rightarrow> string list \<Rightarrow> bool \<Rightarrow> bool \<Rightarrow> string \<times> string" where
  "final_windows_stage its errors stopped dry =
     (if stopped then (''cancelled'', ''stopped by user'')
      else
        let bad = filter (\<lambda>it. wi_status it = ''failed'' \<or> wi_status it = ''aborted'') its;
            skipped = filter (\<lambda>it. wi_status it = ''skipped'') its;
            parts = (if bad = [] then []
                     else [decimal (length bad) @ '' of '' @ decimal (length its) @ '' failed: '' @ item_labels bad item_label])
                  @ (if skipped = [] then []
                     else [decimal (length skipped) @ '' skipped: '' @ item_labels skipped skipped_label])
                  @ errors;
            summary = join ''; '' parts
        in if bad \<noteq> [] \<or> errors \<noteq> [] then (''failed'', summary)
           else if dry then (''dry_run_completed'', summary) else (''completed'', summary))"

definition display_name :: "win_item \<Rightarrow> string" where
  "display_name it =
     (if wi_kb it \<noteq> [] \<and> \<not> str_contains (wi_title it) (wi_kb it) \<and> wi_title it \<noteq> []
      then wi_title it @ '' ('' @ wi_kb it @ '')''
      else if wi_title it \<noteq> [] then wi_title it else wi_id it)"

section \<open>The selection of a patch-all run\<close>

lemma install_before_asym: "install_before a b \<Longrightarrow> \<not> install_before b a"
  by (auto simp: install_before_def split: if_splits)

lemma install_before_trans: "\<not> install_before b a \<Longrightarrow> \<not> install_before c b \<Longrightarrow> \<not> install_before c a"
  by (auto simp: install_before_def split: if_splits)

definition chosen_by_patch_all :: "wua_scan \<Rightarrow> wua_update \<Rightarrow> bool" where
  "chosen_by_patch_all scan u \<longleftrightarrow>
     wu_type u \<noteq> wua_type_driver \<and> \<not> wu_browse_only u \<and> \<not> is_feature_upgrade u
     \<and> is_valid_wua_guid (wu_id u) \<and> \<not> wu_pending_reboot u \<and> \<not> wu_user_input u \<and> \<not> sc_reboot_first scan"

text \<open>
  C39: Patch all installs exactly the scanned updates that are no drivers, not optional, not feature
  upgrades, need no input and wait for no restart, none when the host must restart first; security and
  critical updates come before the others, each group by title.
\<close>

theorem patch_all_installs_exactly:
  assumes "select_wua_updates scan True ids = (install, decided)"
  shows "mset install = mset (filter (chosen_by_patch_all scan) (sc_updates scan))
     \<and> sorted_wrt (\<lambda>a b. \<not> install_before b a) install
     \<and> (\<forall>i j. i < j \<and> j < length install \<and> is_security_or_critical (install ! j)
            \<longrightarrow> is_security_or_critical (install ! i))"
proof -
  have install: "install = order_for_install (filter (\<lambda>u. decide_update (sc_reboot_first scan) u = None)
      (filter (\<lambda>u. patch_all_eligible u \<and> is_valid_wua_guid (wu_id u)) (sc_updates scan)))"
    using assms by (simp add: select_wua_updates_def)
  have "(decide_update (sc_reboot_first scan) u = None \<and> patch_all_eligible u \<and> is_valid_wua_guid (wu_id u))
      \<longleftrightarrow> chosen_by_patch_all scan u" for u
    by (auto simp: decide_update_def chosen_by_patch_all_def patch_all_eligible_def)
  then have perm: "mset install = mset (filter (chosen_by_patch_all scan) (sc_updates scan))"
    unfolding install order_for_install_def by (simp add: filter_filter conj_commute cong: filter_cong)
  have sorted: "sorted_wrt (\<lambda>a b. \<not> install_before b a) install"
    unfolding install order_for_install_def
    by (rule stable_sort_by_sorted) (auto dest: install_before_asym install_before_trans)
  have "is_security_or_critical (install ! i)"
    if "i < j" "j < length install" "is_security_or_critical (install ! j)" for i j
    using sorted_wrt_nth_less [OF sorted that(1,2)] that(3) by (auto simp: install_before_def split: if_splits)
  with perm sorted show ?thesis by blast
qed

section \<open>Pending file renames\<close>

definition rename_bag :: "string list \<Rightarrow> string multiset" where
  "rename_bag es = mset (map to_lower (filter (\<lambda>e. e \<noteq> []) es))"

lemma rename_bag_simps [simp]:
  "rename_bag [] = {#}"
  "rename_bag (e # es) = (if e = [] then rename_bag es else add_mset (to_lower e) (rename_bag es))"
  by (simp_all add: rename_bag_def)

lemma count_renames_bag: "count_renames es = count (rename_bag es)"
proof -
  let ?step = "\<lambda>seen e. if e \<noteq> [] then seen(to_lower e := seen (to_lower e) + 1) else (seen :: string \<Rightarrow> nat)"
  have "foldl ?step (count M) es = count (rename_bag es + M)" for M
  proof (induction es arbitrary: M)
    case (Cons e es)
    have "?step (count M) e = count (if e = [] then M else add_mset (to_lower e) M)" by (auto simp: fun_eq_iff)
    then have "foldl ?step (count M) (e # es) = count (rename_bag es + (if e = [] then M else add_mset (to_lower e) M))"
      unfolding foldl_Cons by (simp only: Cons.IH)
    then show ?case by (cases "e = []") (simp_all only: rename_bag_simps if_True if_False simp_thms, simp add: fun_eq_iff)
  qed simp
  from this [of "{#}"] show ?thesis by (simp add: count_renames_def zero_multiset.rep_eq)
qed

lemma renames_added_bag: "renames_added (count M) es \<longleftrightarrow> \<not> rename_bag es \<subseteq># M"
proof (induction es arbitrary: M)
  case (Cons e es)
  show ?case
  proof (cases "e = [] \<or> count M (to_lower e) = 0")
    case True
    then show ?thesis using Cons [of M] by (auto dest: mset_subset_eqD simp: insert_subset_eq_iff count_eq_zero_iff)
  next
    case False
    have "(count M)(to_lower e := count M (to_lower e) - 1) = count (M - {#to_lower e#})" by (auto simp: fun_eq_iff)
    then have "renames_added (count M) (e # es) \<longleftrightarrow> \<not> rename_bag es \<subseteq># M - {#to_lower e#}"
      using False by (simp only: renames_added.simps Cons de_Morgan_disj if_False split: if_splits)
    with False show ?thesis by (simp add: insert_subset_eq_iff)
  qed
qed simp

text \<open>
  \<open>newPendingRenames\<close> is exactly the question whether the renames pending after an upgrade hold
  more of some entry than before it: multiset inclusion, ignoring case and empty entries.  Entries
  queued before the upgrade, in any order, never make it claim a restart.
\<close>

lemma new_pending_renames_iff:
  "new_pending_renames before after \<longleftrightarrow>
     \<not> mset (map to_lower (filter (\<lambda>e. e \<noteq> []) after)) \<subseteq># mset (map to_lower (filter (\<lambda>e. e \<noteq> []) before))"
  unfolding new_pending_renames_def count_renames_bag renames_added_bag by (simp add: rename_bag_def)

definition sample_scan :: wua_scan where
  "sample_scan =
     \<lparr>sc_updates = [\<lparr>wu_id = ''11111111-2222-3333-4444-555555555555'', wu_revision = 1, wu_title = ''Update'',
        wu_kbs = [], wu_categories = [], wu_category_ids = [], wu_type = 1, wu_browse_only = False,
        wu_reboot_behavior = 0, wu_user_input = False, wu_pending_reboot = False\<rparr>],
      sc_reboot_first = False\<rparr>"

theorem patch_all_installs_exactly_witness:
  "length (fst (select_wua_updates sample_scan True [])) = 1"
proof -
  have "mset (fst (select_wua_updates sample_scan True [])) = mset (filter (chosen_by_patch_all sample_scan) (sc_updates sample_scan))"
    using patch_all_installs_exactly [OF prod.collapse [symmetric]] by blast
  also have "filter (chosen_by_patch_all sample_scan) (sc_updates sample_scan) = sc_updates sample_scan"
    by code_simp
  finally have "size (mset (fst (select_wua_updates sample_scan True []))) = length (sc_updates sample_scan)" by simp
  then show ?thesis by (simp add: sample_scan_def)
qed

end
