(* ===== verification/WinRun.thy ===== *)
theory WinRun
  imports WinUpdates
begin

text \<open>
  A Windows patch run on the agent, from the request to its result (\<open>windowsPatchRun\<close> in
  \<open>internal/packages/windows_patch_logic.go\<close>): the Windows Update phase (search, selection, download, one
  install after the other), the winget phase, and the items they report on the way.

  The state is the Go struct.  Items are pointers there, found again by kind and identifier, so here
  they are reached by that key.  What the backends, the clock, the stop flag and the time limit
  answer is the environment, which the \<open>n\<close>-th call asks with \<open>n\<close>; every poll of the stop flag and every
  call of a backend is also kept in a trace, newest first.  The text a run prints is not modelled.
\<close>

section \<open>State and environment\<close>

datatype trace_event =
    EvPoll string
  | EvScan
  | EvDownload "string list"
  | EvInstall string
  | EvStatus string
  | EvState string
  | EvUpgrade string

record win_state =
  ws_items :: "win_item list"
  ws_errors :: "string list"
  ws_noted :: bool
  ws_posts :: "win_item list list"
  ws_trace :: "trace_event list"
  ws_ticks :: nat
  ws_restart_ids :: "string set"
  ws_invalidated :: bool

record op_result =
  or_found :: bool
  or_already :: bool
  or_pending :: bool
  or_code :: int
  or_hresult :: string
  or_reboot :: bool

datatype upgrade_state = StateAvailable | StateNone | StatePinned | StateNotInstalled

datatype winget_error = CheckFailed exit_code | RunError string

datatype install_answer = InstallDone op_result | InstallError wua_error | InstallTimedOut

record win_env =
  we_clock :: "nat \<Rightarrow> string"
  we_interrupt :: "nat \<Rightarrow> bool \<times> bool"
  we_has_posts :: bool
  we_scan :: "wua_error \<times> bool + wua_scan"
  we_download :: "string list \<Rightarrow> wua_error \<times> bool + (string \<Rightarrow> op_result option)"
  we_install :: "nat \<Rightarrow> string \<Rightarrow> install_answer"
  we_status :: "nat \<Rightarrow> string \<Rightarrow> op_result option list"
  we_resolve :: bool
  we_updatable :: "(string \<times> string \<times> bool) list"
  we_store_apps :: "string set"
  we_upgrade_state :: "nat \<Rightarrow> string \<Rightarrow> winget_error + upgrade_state"
  we_upgrade :: "nat \<Rightarrow> string \<Rightarrow> string + exit_code \<times> string"
  we_renames :: "nat \<Rightarrow> string list \<times> string list"
  we_stopped_at_end :: bool
  we_reboot_hook :: "bool option"

definition new_windows_patch_run :: win_state where
  "new_windows_patch_run =
     \<lparr>ws_items = [], ws_errors = [], ws_noted = False, ws_posts = [], ws_trace = [], ws_ticks = 0,
      ws_restart_ids = {}, ws_invalidated = False\<rparr>"

type_synonym item_ref = "string \<times> string"

definition ref_of :: "win_item \<Rightarrow> item_ref" where
  "ref_of it = (wi_kind it, wi_id it)"

definition item_at :: "win_state \<Rightarrow> item_ref \<Rightarrow> win_item option" where
  "item_at s k = find (\<lambda>it. ref_of it = k) (ws_items s)"

definition change_item :: "item_ref \<Rightarrow> (win_item \<Rightarrow> win_item) \<Rightarrow> win_state \<Rightarrow> win_state" where
  "change_item k f s = s\<lparr>ws_items := update_where (\<lambda>it. ref_of it = k) f (ws_items s)\<rparr>"

text \<open>What a new item takes over from the one it replaces.\<close>

definition merged :: "win_item \<Rightarrow> win_item \<Rightarrow> win_item" where
  "merged it cur =
     it\<lparr>wi_title := (if wi_title it = [] then wi_title cur else wi_title it),
        wi_kb := (if wi_kb it = [] then wi_kb cur else wi_kb it),
        wi_revision := (if wi_revision it = 0 then wi_revision cur else wi_revision it)\<rparr>"

definition upsert :: "win_item \<Rightarrow> win_state \<Rightarrow> win_state" where
  "upsert it s =
     (case item_at s (ref_of it) of
        Some cur \<Rightarrow> change_item (ref_of it) (merged it) s
      | None \<Rightarrow> s\<lparr>ws_items := ws_items s @ [it]\<rparr>)"

definition max_items_per_post :: nat where "max_items_per_post = 200"

function batches :: "'a list \<Rightarrow> 'a list list" where
  "batches xs = (if xs = [] then [] else take max_items_per_post xs # batches (drop max_items_per_post xs))"
  by pat_completeness auto
termination
  by (relation "measure length") (auto simp: max_items_per_post_def)

declare batches.simps [simp del]

definition post :: "win_env \<Rightarrow> item_ref list \<Rightarrow> win_state \<Rightarrow> win_state" where
  "post e ks s =
     (if \<not> we_has_posts e \<or> ks = [] then s
      else s\<lparr>ws_posts := ws_posts s @ batches (map (\<lambda>k. the (item_at s k)) ks)\<rparr>)"

text \<open>\<open>r.ts()\<close>.\<close>

definition tick :: "win_state \<Rightarrow> win_state" where
  "tick s = s\<lparr>ws_ticks := Suc (ws_ticks s)\<rparr>"

definition finish :: "win_env \<Rightarrow> item_ref \<Rightarrow> string \<Rightarrow> string \<Rightarrow> win_state \<Rightarrow> win_state" where
  "finish e k status message s =
     post e [k] (change_item k (\<lambda>it. it\<lparr>wi_status := status, wi_message := message,
                                       wi_completed := we_clock e (ws_ticks s)\<rparr>) (tick s))"

definition noted :: "trace_event \<Rightarrow> win_state \<Rightarrow> win_state" where
  "noted ev s = s\<lparr>ws_trace := ev # ws_trace s\<rparr>"

definition interrupt_reason :: "win_env \<Rightarrow> win_state \<Rightarrow> string \<times> win_state" where
  "interrupt_reason e s =
     (let (stopped, expired) = we_interrupt e (length (ws_trace s))
      in if stopped then (msg_stopped, noted (EvPoll msg_stopped) s)
         else if expired then
           (msg_time_limit,
            noted (EvPoll msg_time_limit)
              (if ws_noted s then s else s\<lparr>ws_noted := True, ws_errors := ws_errors s @ [msg_time_limit]\<rparr>))
         else ([], noted (EvPoll []) s))"

section \<open>The Windows Update phase\<close>

fun upsert_all :: "win_item list \<Rightarrow> win_state \<Rightarrow> win_state" where
  "upsert_all [] s = s"
| "upsert_all (it # its) s = upsert_all its (upsert it s)"

definition fail_wua_targets :: "win_env \<Rightarrow> string list \<Rightarrow> string \<Rightarrow> string \<Rightarrow> win_state \<Rightarrow> win_state" where
  "fail_wua_targets e ids status message s =
     post e (map (\<lambda>i. (''wua'', to_lower i)) ids)
       (upsert_all (map (\<lambda>i. (blank_item ''wua'' (to_lower i) status)\<lparr>wi_message := message\<rparr>) ids) s)"

definition minutes_text :: "string \<Rightarrow> int \<Rightarrow> string" where
  "minutes_text what m = what @ '' did not finish within '' @ decimal (nat m) @ '' minutes''"

definition wua_scan_failed ::
  "win_env \<Rightarrow> win_request \<Rightarrow> string list \<Rightarrow> wua_error \<Rightarrow> bool \<Rightarrow> win_state \<Rightarrow> win_state" where
  "wua_scan_failed e req ids err timed_out s =
     (let (reason, s1) = interrupt_reason e s
      in if reason \<noteq> [] then fail_wua_targets e ids ''skipped'' reason s1
         else let msg = (if timed_out then minutes_text ''Windows Update search'' (to_scan default_windows_timeouts)
                         else ''Windows Update search failed: '' @ error_item_message err)
              in if rq_patch_all req then s1\<lparr>ws_errors := ws_errors s1 @ [msg]\<rparr>
                 else fail_wua_targets e ids ''failed'' msg s1)"

fun record_decided :: "win_env \<Rightarrow> win_item list \<Rightarrow> win_state \<Rightarrow> win_state" where
  "record_decided e [] s = s"
| "record_decided e (it # its) s =
     record_decided e its (upsert (it\<lparr>wi_completed := we_clock e (ws_ticks s)\<rparr>) (tick s))"

definition queued_item :: "win_env \<Rightarrow> bool \<Rightarrow> wua_update \<Rightarrow> nat \<Rightarrow> win_item" where
  "queued_item e dry u n =
     (let it = wua_item u ''pending'' []
      in if dry then it\<lparr>wi_status := ''would_install'',
                        wi_message := reboot_behaviour_text (wu_reboot_behavior u)
                                        @ (if is_feature_upgrade u then ''; feature upgrade'' else []),
                        wi_completed := we_clock e n\<rparr>
         else it)"

fun record_queued :: "win_env \<Rightarrow> bool \<Rightarrow> wua_update list \<Rightarrow> win_state \<Rightarrow> win_state" where
  "record_queued e dry [] s = s"
| "record_queued e dry (u # us) s =
     record_queued e dry us (upsert (queued_item e dry u (ws_ticks s)) (if dry then tick s else s))"

definition wua_ref :: "wua_update \<Rightarrow> item_ref" where
  "wua_ref u = (''wua'', to_lower (wu_id u))"

fun finish_all :: "win_env \<Rightarrow> item_ref list \<Rightarrow> string \<Rightarrow> string \<Rightarrow> win_state \<Rightarrow> win_state" where
  "finish_all e [] status message s = s"
| "finish_all e (k # ks) status message s = finish_all e ks status message (finish e k status message s)"

definition wua_download_failed ::
  "win_env \<Rightarrow> wua_update list \<Rightarrow> wua_error \<Rightarrow> bool \<Rightarrow> win_state \<Rightarrow> win_state" where
  "wua_download_failed e install err timed_out s =
     (let (reason, s1) = interrupt_reason e s;
          limit = (if list_ex is_feature_upgrade install then to_download_feature default_windows_timeouts
                   else to_download default_windows_timeouts);
          (status, msg) =
            (if reason \<noteq> [] then (''skipped'', reason)
             else if timed_out then (''failed'', minutes_text ''Download'' limit)
             else (''failed'', ''Download failed: '' @ error_item_message err))
      in finish_all e (map wua_ref install) status msg s1)"

text \<open>\<open>int32(x)\<close>.\<close>

definition to_int32 :: "int \<Rightarrow> int" where
  "to_int32 x = (x + 2147483648) mod 4294967296 - 2147483648"

text \<open>Updates whose download failed are finished; the others are left to install.\<close>

fun fail_downloads ::
  "win_env \<Rightarrow> (string \<Rightarrow> op_result option) \<Rightarrow> wua_update list \<Rightarrow> win_state \<Rightarrow> wua_update list \<times> win_state" where
  "fail_downloads e dl [] s = ([], s)"
| "fail_downloads e dl (u # us) s =
     (case dl (to_lower (wu_id u)) of
        Some res \<Rightarrow>
          if or_code res \<noteq> 2 \<and> or_code res \<noteq> 3 then
            fail_downloads e dl us
              (finish e (wua_ref u) ''failed'' (''Download '' @ to_lower (wua_result_message (or_code res) (or_hresult res)))
                (change_item (wua_ref u) (\<lambda>it. it\<lparr>wi_hresult := normalise_hresult (or_hresult res),
                                                  wi_result_code := Some (to_int32 (or_code res))\<rparr>) s))
          else (let (rest, s') = fail_downloads e dl us s in (u # rest, s'))
      | None \<Rightarrow> (let (rest, s') = fail_downloads e dl us s in (u # rest, s')))"

definition apply_install_result :: "win_env \<Rightarrow> item_ref \<Rightarrow> op_result + wua_error \<Rightarrow> win_state \<Rightarrow> win_state" where
  "apply_install_result e k answer s =
     (case answer of
        Inr err \<Rightarrow>
          finish e k ''failed'' (''Install failed: '' @ error_item_message err)
            (case err of ScriptError m h \<Rightarrow> change_item k (\<lambda>it. it\<lparr>wi_hresult := normalise_hresult h\<rparr>) s | _ \<Rightarrow> s)
      | Inl res \<Rightarrow>
          if \<not> or_found res then finish e k ''not_applicable'' msg_no_longer_offered s
          else if or_already res then finish e k ''already_installed'' ''Already installed'' s
          else if or_pending res then
            finish e k ''installed_pending_reboot'' msg_pending_reboot (change_item k (\<lambda>it. it\<lparr>wi_reboot := True\<rparr>) s)
          else
            let h = normalise_hresult (or_hresult res);
                msg = wua_result_message (or_code res) h @ (if or_reboot res then ''; restart required'' else [])
            in finish e k (wua_result_status (or_code res)) msg
                 (change_item k (\<lambda>it. it\<lparr>wi_result_code := Some (to_int32 (or_code res)), wi_hresult := h,
                                         wi_reboot := or_reboot res\<rparr>) s))"

text \<open>
  The answers of the status calls made before the recheck's deadline or a stop, \<open>None\<close> for a failed
  call: the first that finds the update installed or waiting for a restart ends the loop.
\<close>

definition recheck_answer :: "op_result option list \<Rightarrow> op_result option" where
  "recheck_answer answers =
     find (\<lambda>st. or_found st \<and> (or_already st \<or> or_pending st)) (List.map_filter (\<lambda>x. x) answers)"

definition recheck_after_timeout :: "win_env \<Rightarrow> wua_update \<Rightarrow> int \<Rightarrow> win_state \<Rightarrow> bool \<times> win_state" where
  "recheck_after_timeout e u limit s =
     (let s1 = noted (EvStatus (wu_id u)) s; k = wua_ref u
      in case recheck_answer (we_status e (length (ws_trace s)) (wu_id u)) of
           Some st \<Rightarrow>
             (True,
              if or_already st
              then finish e k ''installed'' (''Installed; Windows finished after the '' @ decimal (nat limit) @ ''-minute limit'') s1
              else finish e k ''installed_pending_reboot''
                     (''Installed; Windows finished after the '' @ decimal (nat limit) @ ''-minute limit; restart the host to complete it'')
                     (change_item k (\<lambda>it. it\<lparr>wi_reboot := True\<rparr>) s1))
         | None \<Rightarrow>
             (False, finish e k ''failed'' (minutes_text ''Install'' limit
                        @ ''. Windows may still be completing it; check after a restart.'') s1))"

definition install_limit :: "wua_update \<Rightarrow> int" where
  "install_limit u = (if is_feature_upgrade u then to_install_feature default_windows_timeouts
                      else to_install default_windows_timeouts)"

definition install_one :: "win_env \<Rightarrow> wua_update \<Rightarrow> string \<Rightarrow> win_state \<Rightarrow> string \<times> win_state" where
  "install_one e u blocked s =
     (let k = wua_ref u;
          s1 = post e [k] (change_item k (\<lambda>it. it\<lparr>wi_started := we_clock e (ws_ticks s)\<rparr>) (tick s));
          s2 = noted (EvInstall (wu_id u)) s1;
          (blocked', s3) =
            (case we_install e (length (ws_trace s1)) (wu_id u) of
               InstallTimedOut \<Rightarrow>
                 (let (found, s') = recheck_after_timeout e u (install_limit u) s2
                  in (if found then blocked else msg_still_installing, s'))
             | InstallDone res \<Rightarrow> (blocked, apply_install_result e k (Inl res) s2)
             | InstallError err \<Rightarrow> (blocked, apply_install_result e k (Inr err) s2))
      in (case item_at s3 k of
            Some it \<Rightarrow> if wi_status it = ''failed'' \<and> is_install_blocked_hresult (wi_hresult it) then msg_restart_first
                       else blocked'
          | None \<Rightarrow> blocked', s3))"

fun install_loop :: "win_env \<Rightarrow> wua_update list \<Rightarrow> string \<Rightarrow> win_state \<Rightarrow> win_state" where
  "install_loop e [] blocked s = s"
| "install_loop e (u # us) blocked s =
     (let (reason, s1) = interrupt_reason e s
      in if reason \<noteq> [] then install_loop e us blocked (finish e (wua_ref u) ''skipped'' reason s1)
         else if blocked \<noteq> [] then install_loop e us blocked (finish e (wua_ref u) ''skipped'' blocked s1)
         else (let (blocked', s2) = install_one e u blocked s1 in install_loop e us blocked' s2))"

definition wua_install :: "win_env \<Rightarrow> wua_update list \<Rightarrow> win_state \<Rightarrow> win_state" where
  "wua_install e install s =
     (let ids = map wu_id install; s1 = noted (EvDownload ids) s
      in case we_download e ids of
           Inl (err, timed_out) \<Rightarrow> wua_download_failed e install err timed_out s1
         | Inr dl \<Rightarrow> (let (rest, s2) = fail_downloads e dl install s1 in install_loop e rest [] s2))"

definition wua_selected :: "win_env \<Rightarrow> win_request \<Rightarrow> wua_scan \<Rightarrow> string list \<Rightarrow> win_state \<Rightarrow> win_state" where
  "wua_selected e req scan ids s =
     (let (install, decided) = select_wua_updates scan (rq_patch_all req) ids;
          s1 = record_queued e (rq_dry req) install (record_decided e decided s);
          s2 = post e (map ref_of decided @ map wua_ref install) s1
      in if rq_dry req \<or> install = [] then s2 else wua_install e install s2)"

text \<open>\<open>recordWUAOutcome\<close>: what the next inventory report must know.\<close>

definition record_wua_outcome :: "win_request \<Rightarrow> win_state \<Rightarrow> win_state" where
  "record_wua_outcome req s =
     (if rq_dry req then s
      else
        let wua = filter (\<lambda>it. wi_kind it = ''wua'') (ws_items s);
            waits = (\<lambda>it. (wi_status it \<in> {''installed'', ''installed_with_errors''} \<and> wi_reboot it)
                          \<or> wi_status it = ''installed_pending_reboot'')
        in s\<lparr>ws_restart_ids := ws_restart_ids s \<union> set (map (\<lambda>it. to_lower (wi_id it)) (filter waits wua)),
             ws_invalidated := (ws_invalidated s \<or> list_ex (\<lambda>it. wi_started it \<noteq> []) wua)\<rparr>)"

definition run_wua_phase :: "win_env \<Rightarrow> win_request \<Rightarrow> string list \<Rightarrow> win_state \<Rightarrow> win_state" where
  "run_wua_phase e req ids s =
     record_wua_outcome req
       (let s1 = noted EvScan s
        in case we_scan e of
             Inl (err, timed_out) \<Rightarrow> wua_scan_failed e req ids err timed_out s1
           | Inr scan \<Rightarrow> wua_selected e req scan ids s1)"

section \<open>The winget phase\<close>

definition winget_ref :: "string \<Rightarrow> item_ref" where
  "winget_ref tid = (''winget'', tid)"

definition msg_no_winget :: string where "msg_no_winget = ''winget is not installed on this host''"

fun fail_winget_targets :: "win_env \<Rightarrow> string list \<Rightarrow> win_state \<Rightarrow> win_state" where
  "fail_winget_targets e [] s = s"
| "fail_winget_targets e (i # ids) s =
     fail_winget_targets e ids
       (upsert ((blank_item ''winget'' i ''failed'')\<lparr>wi_message := msg_no_winget,
                                                    wi_completed := we_clock e (ws_ticks s)\<rparr>) (tick s))"

text \<open>One item per application that \<open>UpdatableApps\<close> offers and whose identifier is valid.\<close>

fun queue_apps ::
  "(string \<times> string \<times> bool) list \<Rightarrow> string set \<Rightarrow> win_state \<Rightarrow> string list \<times> win_state" where
  "queue_apps [] seen s = ([], s)"
| "queue_apps ((name, tid, needs_update) # apps) seen s =
     (if \<not> needs_update \<or> tid = [] \<or> \<not> is_valid_winget_id tid \<or> to_lower tid \<in> seen then queue_apps apps seen s
      else let (ids, s') = queue_apps apps (insert (to_lower tid) seen)
                             (upsert ((blank_item ''winget'' tid ''pending'')\<lparr>wi_title := name\<rparr>) s)
           in (tid # ids, s'))"

definition upgrade_app :: "win_env \<Rightarrow> string \<Rightarrow> win_state \<Rightarrow> win_state" where
  "upgrade_app e tid s =
     (let k = winget_ref tid; s1 = post e [k] s; n = length (ws_trace s1); s2 = noted (EvUpgrade tid) s1
      in case we_upgrade e n tid of
           Inl err \<Rightarrow> finish e k ''failed'' (''winget did not complete: '' @ err) s2
         | Inr (code, out) \<Rightarrow>
             let oc = classify_winget_upgrade_exit code False out tid;
                 (before, after) = we_renames e n;
                 oc' = (if oc_status oc = ''installed'' \<and> new_pending_renames before after
                        then oc\<lparr>oc_reboot := True, oc_message := msg_deferred_replace\<rparr> else oc)
             in finish e k (oc_status oc') (oc_message oc')
                  (change_item k (\<lambda>it. it\<lparr>wi_exit_code := Some (uint code), wi_reboot := oc_reboot oc'\<rparr>) s2))"

definition check_failed :: "win_env \<Rightarrow> string \<Rightarrow> winget_error \<Rightarrow> win_state \<Rightarrow> win_state" where
  "check_failed e tid err s =
     (let k = winget_ref tid; (reason, s1) = interrupt_reason e s
      in if reason \<noteq> [] then finish e k ''skipped'' reason s1
         else case err of
                CheckFailed code \<Rightarrow>
                  finish e k ''failed'' (winget_code_message code)
                    (change_item k (\<lambda>it. it\<lparr>wi_exit_code := Some (uint code)\<rparr>) s1)
              | RunError m \<Rightarrow> finish e k ''failed'' (''winget did not complete: '' @ m) s1)"

definition check_app :: "win_env \<Rightarrow> bool \<Rightarrow> string \<Rightarrow> win_state \<Rightarrow> win_state" where
  "check_app e dry tid s =
     (let k = winget_ref tid; (reason, s1) = interrupt_reason e s
      in if reason \<noteq> [] then finish e k ''skipped'' reason s1
         else if to_lower tid \<in> we_store_apps e then finish e k ''skipped'' msg_store_app s1
         else
           let s2 = change_item k (\<lambda>it. it\<lparr>wi_started := we_clock e (ws_ticks s1)\<rparr>) (tick s1);
               s3 = noted (EvState tid) s2
           in case we_upgrade_state e (length (ws_trace s2)) tid of
                Inl err \<Rightarrow> check_failed e tid err s3
              | Inr StatePinned \<Rightarrow> finish e k ''skipped'' msg_pinned s3
              | Inr StateNone \<Rightarrow> finish e k ''not_applicable'' ''No upgrade available'' s3
              | Inr StateNotInstalled \<Rightarrow> finish e k ''not_applicable'' msg_user_scope s3
              | Inr StateAvailable \<Rightarrow>
                  if dry then finish e k ''would_install'' ''Upgrade available'' s3 else upgrade_app e tid s3)"

fun check_apps :: "win_env \<Rightarrow> bool \<Rightarrow> string list \<Rightarrow> win_state \<Rightarrow> win_state" where
  "check_apps e dry [] s = s"
| "check_apps e dry (tid # ids) s = check_apps e dry ids (check_app e dry tid s)"

definition run_winget_phase :: "win_env \<Rightarrow> win_request \<Rightarrow> string list \<Rightarrow> win_state \<Rightarrow> win_state" where
  "run_winget_phase e req ids s =
     (if \<not> we_resolve e then post e (map winget_ref ids) (fail_winget_targets e ids s)
      else if rq_patch_all req then
        (let (queue, s1) = queue_apps (we_updatable e) {} s
         in check_apps e (rq_dry req) queue (post e (map winget_ref queue) s1))
      else check_apps e (rq_dry req) ids s)"

section \<open>The run\<close>

record win_result =
  wr_items :: "win_item list"
  wr_reboot :: bool
  wr_stage :: string
  wr_error :: string

definition target_ids :: "win_request \<Rightarrow> string \<Rightarrow> string list" where
  "target_ids req kind = map snd (filter (\<lambda>t. fst t = kind) (rq_targets req))"

definition failed_result :: "string \<Rightarrow> win_result" where
  "failed_result msg = \<lparr>wr_items = [], wr_reboot = False, wr_stage = ''failed'', wr_error = msg\<rparr>"

definition pending_targets :: "win_request \<Rightarrow> win_item list" where
  "pending_targets req =
     (if rq_patch_all req then []
      else map (\<lambda>i. blank_item ''wua'' (to_lower i) ''pending'') (target_ids req ''wua'')
           @ map (\<lambda>i. blank_item ''winget'' i ''pending'') (target_ids req ''winget''))"

definition run_phases :: "win_env \<Rightarrow> win_request \<Rightarrow> win_state" where
  "run_phases e req =
     (let wua = target_ids req ''wua''; winget = target_ids req ''winget'';
          s = upsert_all (pending_targets req) new_windows_patch_run;
          s1 = (if rq_patch_all req \<and> rq_updates req \<or> wua \<noteq> [] then run_wua_phase e req wua s else s)
      in if rq_patch_all req \<and> rq_apps req \<or> winget \<noteq> [] then run_winget_phase e req winget s1 else s1)"

definition needs_restart :: "win_env \<Rightarrow> bool \<Rightarrow> win_item list \<Rightarrow> bool" where
  "needs_restart e dry its =
     (if list_ex wi_reboot its then True
      else if dry \<or> \<not> list_ex (\<lambda>it. wi_kind it = ''wua'' \<and> wi_status it \<in> {''installed'', ''installed_with_errors''}) its
      then False
      else we_reboot_hook e = Some True)"

definition win_run :: "win_env \<Rightarrow> win_request \<Rightarrow> win_result \<times> win_state" where
  "win_run e req =
     (if rq_patch_all req \<and> \<not> rq_updates req \<and> \<not> rq_apps req
      then (failed_result ''Patch all needs Windows Updates, applications, or both'', new_windows_patch_run)
      else if \<not> rq_patch_all req \<and> target_ids req ''wua'' = [] \<and> target_ids req ''winget'' = []
      then (failed_result ''no valid patch targets'', new_windows_patch_run)
      else
        let s = run_phases e req;
            (stage, err) = final_windows_stage (ws_items s) (ws_errors s) (we_stopped_at_end e) (rq_dry req)
        in (\<lparr>wr_items = ws_items s, wr_reboot = needs_restart e (rq_dry req) (ws_items s),
             wr_stage = stage, wr_error = err\<rparr>,
            post e (map ref_of (ws_items s)) s))"

end
