(* ===== verification/WinStarts.thy ===== *)
theory WinStarts
  imports WinRun
begin

text \<open>
  What a Windows patch run starts, and when: every install and every upgrade follows a poll of the
  stop flag and the time limit that found neither, and a dry run starts none.  The trace of
  \<open>win_run\<close> is checked event by event (\<open>event_ok\<close>), so a property of all runs is one induction over it.
\<close>

section \<open>What is started, and when\<close>

lemma trace_simps [simp]:
  "ws_trace (tick s) = ws_trace s"
  "ws_trace (change_item k f s) = ws_trace s"
  "ws_trace (post e ks s) = ws_trace s"
  "ws_trace (finish e k st m s) = ws_trace s"
  "ws_trace (upsert it s) = ws_trace s"
  "ws_trace (noted ev s) = ev # ws_trace s"
  "ws_trace (record_wua_outcome req s) = ws_trace s"
  "ws_trace new_windows_patch_run = []"
  by (simp_all add: tick_def change_item_def post_def finish_def upsert_def noted_def
      record_wua_outcome_def new_windows_patch_run_def Let_def split: option.split)

lemma trace_loops [simp]:
  "ws_trace (upsert_all its s) = ws_trace s"
  "ws_trace (record_decided e its s) = ws_trace s"
  "ws_trace (record_queued e dry us s) = ws_trace s"
  "ws_trace (finish_all e ks st m s) = ws_trace s"
  "ws_trace (fail_winget_targets e ids s) = ws_trace s"
  "ws_trace (snd (fail_downloads e dl us s)) = ws_trace s"
  "ws_trace (snd (queue_apps apps seen s)) = ws_trace s"
proof -
  show "ws_trace (upsert_all its s) = ws_trace s" by (induction its arbitrary: s) simp_all
  show "ws_trace (record_decided e its s) = ws_trace s" by (induction its arbitrary: s) simp_all
  show "ws_trace (record_queued e dry us s) = ws_trace s" by (induction us arbitrary: s) simp_all
  show "ws_trace (finish_all e ks st m s) = ws_trace s" by (induction ks arbitrary: s) simp_all
  show "ws_trace (fail_winget_targets e ids s) = ws_trace s" by (induction ids arbitrary: s) simp_all
  show "ws_trace (snd (fail_downloads e dl us s)) = ws_trace s"
    by (induction us arbitrary: s) (simp_all add: case_prod_beta split: option.split)
  show "ws_trace (snd (queue_apps apps seen s)) = ws_trace s"
    by (induction apps seen s rule: queue_apps.induct) (simp_all add: case_prod_beta)
qed

lemma trace_apply_install_result [simp]: "ws_trace (apply_install_result e k answer s) = ws_trace s"
  by (simp add: apply_install_result_def Let_def split: sum.split wua_error.split)

lemma trace_fail_wua_targets [simp]: "ws_trace (fail_wua_targets e ids st m s) = ws_trace s"
  by (simp add: fail_wua_targets_def)

lemma messages_not_empty [simp]:
  "msg_stopped \<noteq> []" "msg_time_limit \<noteq> []" "msg_restart_first \<noteq> []" "msg_still_installing \<noteq> []"
  by (simp_all add: msg_stopped_def msg_time_limit_def msg_restart_first_def msg_still_installing_def)

definition clear_poll :: "trace_event list \<Rightarrow> bool" where
  "clear_poll tr = (case tr of EvPoll r # _ \<Rightarrow> r = [] | _ \<Rightarrow> False)"

definition event_ok :: "win_env \<Rightarrow> bool \<Rightarrow> trace_event \<Rightarrow> trace_event list \<Rightarrow> bool" where
  "event_ok e dry ev tr =
     (case ev of
        EvPoll r \<Rightarrow> r = [] \<longrightarrow> we_interrupt e (length tr) = (False, False)
      | EvDownload _ \<Rightarrow> \<not> dry
      | EvInstall _ \<Rightarrow> \<not> dry \<and> clear_poll tr
      | EvState _ \<Rightarrow> clear_poll tr
      | EvUpgrade a \<Rightarrow> \<not> dry \<and> (case tr of EvState b # tr' \<Rightarrow> a = b \<and> clear_poll tr' | _ \<Rightarrow> False)
      | _ \<Rightarrow> True)"

fun trace_ok :: "win_env \<Rightarrow> bool \<Rightarrow> trace_event list \<Rightarrow> bool" where
  "trace_ok e dry [] = True"
| "trace_ok e dry (ev # tr) = (event_ok e dry ev tr \<and> trace_ok e dry tr)"

lemma poll_trace:
  "ws_trace (snd (interrupt_reason e s)) = EvPoll (fst (interrupt_reason e s)) # ws_trace s"
  by (simp add: interrupt_reason_def Let_def noted_def split: prod.split)

lemma poll_ok [intro]: "trace_ok e dry (ws_trace s) \<Longrightarrow> trace_ok e dry (ws_trace (snd (interrupt_reason e s)))"
  unfolding poll_trace by (auto simp: event_ok_def interrupt_reason_def Let_def split: prod.splits if_splits)

lemma event_ok_simps [simp]:
  "event_ok e dry EvScan tr" "event_ok e dry (EvStatus i) tr"
  "event_ok e dry (EvDownload is) tr \<longleftrightarrow> \<not> dry"
  "event_ok e dry (EvInstall i) tr \<longleftrightarrow> \<not> dry \<and> clear_poll tr"
  "event_ok e dry (EvState i) tr \<longleftrightarrow> clear_poll tr"
  "event_ok e dry (EvUpgrade i) (EvState i # tr) \<longleftrightarrow> \<not> dry \<and> clear_poll tr"
  by (simp_all add: event_ok_def)

lemma clear_poll_simps [simp]: "clear_poll (EvPoll r # tr) \<longleftrightarrow> r = []"
  by (simp add: clear_poll_def)

lemma recheck_trace_ok:
  "trace_ok e dry (ws_trace s) \<Longrightarrow> trace_ok e dry (ws_trace (snd (recheck_after_timeout e u limit s)))"
  by (simp add: recheck_after_timeout_def Let_def split: option.split)

lemma install_one_trace_ok:
  assumes "trace_ok e False (ws_trace s)" and "clear_poll (ws_trace s)"
  shows "trace_ok e False (ws_trace (snd (install_one e u blocked s)))"
proof -
  have ok: "trace_ok e False (EvInstall (wu_id u) # ws_trace s)" using assms by simp
  define s1 where "s1 = post e [wua_ref u] (change_item (wua_ref u) (\<lambda>it. it\<lparr>wi_started := we_clock e (ws_ticks s)\<rparr>) (tick s))"
  have "ws_trace (noted (EvInstall (wu_id u)) s1) = EvInstall (wu_id u) # ws_trace s" by (simp add: s1_def)
  with ok have "trace_ok e False (ws_trace (noted (EvInstall (wu_id u)) s1))" by metis
  then show ?thesis
    using recheck_trace_ok [of e False "noted (EvInstall (wu_id u)) s1" u "install_limit u"]
    unfolding install_one_def s1_def Let_def
    by (auto simp: case_prod_beta split: install_answer.split)
qed

lemma install_loop_trace_ok:
  "trace_ok e False (ws_trace s) \<Longrightarrow> trace_ok e False (ws_trace (install_loop e us blocked s))"
proof (induction us arbitrary: blocked s)
  case (Cons u us)
  obtain reason s1 where poll: "interrupt_reason e s = (reason, s1)" by (cases "interrupt_reason e s") auto
  have ok: "trace_ok e False (ws_trace s1)" using poll_ok [OF Cons.prems] by (simp add: poll)
  have clear: "reason = [] \<Longrightarrow> clear_poll (ws_trace s1)" using poll_trace [of e s] by (simp add: poll)
  obtain b2 s2 where one: "install_one e u [] s1 = (b2, s2)" by (cases "install_one e u [] s1") auto
  have "reason = [] \<Longrightarrow> trace_ok e False (ws_trace s2)"
    using install_one_trace_ok [OF ok clear, of u "[]"] by (simp add: one)
  then show ?case using Cons.IH ok by (simp add: poll one)
qed simp

lemma wua_install_trace_ok:
  "trace_ok e False (ws_trace s) \<Longrightarrow> trace_ok e False (ws_trace (wua_install e us s))"
  unfolding wua_install_def wua_download_failed_def Let_def
  by (auto simp: case_prod_beta intro!: install_loop_trace_ok poll_ok split: sum.split)

lemma run_wua_phase_trace_ok:
  "trace_ok e (rq_dry req) (ws_trace s) \<Longrightarrow> trace_ok e (rq_dry req) (ws_trace (run_wua_phase e req ids s))"
proof -
  assume ok: "trace_ok e (rq_dry req) (ws_trace s)"
  then have "trace_ok e (rq_dry req) (ws_trace (noted EvScan s))" by simp
  then have "trace_ok e (rq_dry req) (ws_trace (wua_scan_failed e req ids err timed (noted EvScan s)))" for err timed
    using poll_ok unfolding wua_scan_failed_def Let_def by (simp add: case_prod_beta)
  moreover have "trace_ok e (rq_dry req) (ws_trace (wua_selected e req scan ids (noted EvScan s)))" for scan
    using ok unfolding wua_selected_def Let_def by (auto simp: case_prod_beta intro!: wua_install_trace_ok)
  ultimately show ?thesis unfolding run_wua_phase_def Let_def by (simp split: sum.split)
qed

lemma upgrade_app_trace_ok:
  "trace_ok e False (EvUpgrade tid # ws_trace s) \<Longrightarrow> trace_ok e False (ws_trace (upgrade_app e tid s))"
  unfolding upgrade_app_def Let_def by (simp add: case_prod_beta split: sum.split)

lemma check_failed_trace_ok:
  "trace_ok e dry (ws_trace s) \<Longrightarrow> trace_ok e dry (ws_trace (check_failed e tid err s))"
  using poll_ok unfolding check_failed_def Let_def by (simp add: case_prod_beta split: winget_error.split)

lemma check_app_trace_ok:
  assumes "trace_ok e dry (ws_trace s)"
  shows "trace_ok e dry (ws_trace (check_app e dry tid s))"
proof -
  obtain reason s1 where poll: "interrupt_reason e s = (reason, s1)" by (cases "interrupt_reason e s") auto
  have ok: "trace_ok e dry (ws_trace s1)" using poll_ok [OF assms] by (simp add: poll)
  have tr: "ws_trace s1 = EvPoll reason # ws_trace s" using poll_trace [of e s] by (simp add: poll)
  show ?thesis
    using ok tr unfolding check_app_def Let_def poll
    by (auto simp: case_prod_beta intro!: check_failed_trace_ok upgrade_app_trace_ok
        split: sum.split upgrade_state.split)
qed

lemma check_apps_trace_ok:
  "trace_ok e dry (ws_trace s) \<Longrightarrow> trace_ok e dry (ws_trace (check_apps e dry ids s))"
  by (induction ids arbitrary: s) (simp_all add: check_app_trace_ok)

lemma run_winget_phase_trace_ok:
  "trace_ok e (rq_dry req) (ws_trace s) \<Longrightarrow> trace_ok e (rq_dry req) (ws_trace (run_winget_phase e req ids s))"
  unfolding run_winget_phase_def Let_def by (simp add: case_prod_beta check_apps_trace_ok)

lemma win_run_trace_ok: "trace_ok e (rq_dry req) (ws_trace (snd (win_run e req)))"
proof -
  have "trace_ok e (rq_dry req) (ws_trace (run_phases e req))"
    unfolding run_phases_def Let_def by (simp add: run_winget_phase_trace_ok run_wua_phase_trace_ok)
  then show ?thesis unfolding win_run_def Let_def by (simp add: case_prod_beta)
qed

text \<open>
  A dry run never downloads, installs or upgrades anything, whatever Windows Update and winget
  answer and whatever was asked for.
\<close>

lemma dry_run_starts_nothing:
  assumes dry: "rq_dry req" and ev: "ev \<in> set (ws_trace (snd (win_run e req)))"
  shows "case ev of EvDownload _ \<Rightarrow> False | EvInstall _ \<Rightarrow> False | EvUpgrade _ \<Rightarrow> False | _ \<Rightarrow> True"
proof -
  have "trace_ok e True tr \<Longrightarrow> ev \<in> set tr \<Longrightarrow>
      (case ev of EvDownload _ \<Rightarrow> False | EvInstall _ \<Rightarrow> False | EvUpgrade _ \<Rightarrow> False | _ \<Rightarrow> True)" for tr
    by (induction tr) (auto simp: event_ok_def split: trace_event.splits)
  then show ?thesis using win_run_trace_ok [of e req] dry ev by simp
qed

lemma trace_ok_drop: "trace_ok e dry tr \<Longrightarrow> trace_ok e dry (drop n tr)"
  by (induction tr arbitrary: n) (auto simp: drop_Cons split: nat.split)

lemma trace_ok_at:
  assumes "trace_ok e dry tr" and "n < length tr"
  shows "event_ok e dry (rev tr ! n) (rev (take n (rev tr)))"
proof -
  have "drop (length tr - Suc n) tr = rev tr ! n # drop (length tr - n) tr"
    using assms(2) by (simp add: rev_nth Cons_nth_drop_Suc [symmetric] Suc_diff_Suc)
  moreover have "rev (take n (rev tr)) = drop (length tr - n) tr" by (simp add: take_rev)
  ultimately show ?thesis using trace_ok_drop [OF assms(1), of "length tr - Suc n"] by simp
qed

lemma clear_poll_at:
  assumes ok: "trace_ok e dry tr" and n: "n < length tr" and clear: "clear_poll (rev (take n (rev tr)))"
  shows "\<exists>m. n = Suc m \<and> rev tr ! m = EvPoll [] \<and> we_interrupt e m = (False, False)"
proof (cases n)
  case 0
  then show ?thesis using clear by (simp add: clear_poll_def)
next
  case (Suc m)
  then have "rev (take n (rev tr)) = rev tr ! m # rev (take m (rev tr))"
    using n by (simp add: take_Suc_conv_app_nth)
  then have "rev tr ! m = EvPoll []" using clear by (auto simp: clear_poll_def split: trace_event.splits list.splits)
  moreover have "event_ok e dry (rev tr ! m) (rev (take m (rev tr)))" by (rule trace_ok_at [OF ok]) (use n Suc in simp)
  ultimately show ?thesis using Suc n by (simp add: event_ok_def)
qed

text \<open>
  C20: Once the user has stopped a run or its time limit has passed, nothing more is started: with the
  trace in the order of events and the stop flag or the limit in force from event \<open>m\<close> on, every install
  was started by event \<open>m\<close> and every upgrade by the event after it (its check was under way).
\<close>

theorem nothing_starts_after_interrupt:
  fixes e :: win_env
  assumes tr_def: "tr = rev (ws_trace (snd (win_run e req)))"
    and stop: "\<And>i. m \<le> i \<Longrightarrow> we_interrupt e i \<noteq> (False, False)" and n: "n < length tr"
  shows "(\<forall>u. tr ! n = EvInstall u \<longrightarrow> n \<le> m) \<and> (\<forall>a. tr ! n = EvUpgrade a \<longrightarrow> n \<le> Suc m)"
proof -
  let ?tr = "ws_trace (snd (win_run e req))"
  have ok: "trace_ok e (rq_dry req) ?tr" by (rule win_run_trace_ok)
  have n': "n < length ?tr" using n by (simp add: tr_def)
  have ev: "event_ok e (rq_dry req) (tr ! n) (rev (take n tr))" unfolding tr_def by (rule trace_ok_at [OF ok n'])
  have poll: "k \<le> m" if "clear_poll (rev (take k tr))" "k < length ?tr" for k
    using clear_poll_at [OF ok that(2)] that(1) stop unfolding tr_def by (metis Suc_leI not_le)
  have "n \<le> m" if "tr ! n = EvInstall u" for u
    using ev that poll [of n] n' by simp
  moreover have "n \<le> Suc m" if a: "tr ! n = EvUpgrade a" for a
  proof (cases n)
    case (Suc k)
    have "rev (take n tr) = tr ! k # rev (take k tr)" using Suc n by (simp add: take_Suc_conv_app_nth)
    then have "clear_poll (rev (take k tr))"
      using ev a by (auto simp: event_ok_def split: trace_event.splits)
    then show ?thesis using poll [of k] n' Suc by simp
  qed simp
  ultimately show ?thesis by blast
qed

section \<open>Witnesses\<close>

definition sample_update :: "string \<Rightarrow> wua_update" where
  "sample_update g =
     \<lparr>wu_id = g, wu_revision = 1, wu_title = ''Update'', wu_kbs = [''KB1''], wu_categories = [],
      wu_category_ids = [], wu_type = 1, wu_browse_only = False, wu_reboot_behavior = 0,
      wu_user_input = False, wu_pending_reboot = False\<rparr>"

definition sample_guid :: string where "sample_guid = ''11111111-2222-3333-4444-555555555555''"

definition sample_done :: op_result where
  "sample_done = \<lparr>or_found = True, or_already = False, or_pending = False, or_code = 2, or_hresult = ''0'',
                  or_reboot = True\<rparr>"

text \<open>A host with one update and one application; \<open>stop\<close> tells when the stop flag is set.\<close>

definition sample_win_env :: "(nat \<Rightarrow> bool) \<Rightarrow> win_env" where
  "sample_win_env stop =
     \<lparr>we_clock = (\<lambda>_. ''2026-01-01T00:00:00Z''), we_interrupt = (\<lambda>n. (stop n, False)), we_has_posts = True,
      we_scan = Inr \<lparr>sc_updates = [sample_update sample_guid], sc_reboot_first = False\<rparr>,
      we_download = (\<lambda>_. Inr (\<lambda>_. None)), we_install = (\<lambda>_ _. InstallDone sample_done),
      we_status = (\<lambda>_ _. []), we_resolve = True, we_updatable = [(''App'', ''Vendor.App'', True)],
      we_store_apps = {}, we_upgrade_state = (\<lambda>_ _. Inr StateAvailable),
      we_upgrade = (\<lambda>_ _. Inr (0, [])), we_renames = (\<lambda>_. ([], [])), we_stopped_at_end = False,
      we_reboot_hook = None\<rparr>"

definition sample_request :: "bool \<Rightarrow> win_request" where
  "sample_request dry =
     \<lparr>rq_patch_all = True, rq_dry = dry, rq_updates = True, rq_apps = True, rq_targets = []\<rparr>"

lemma sample_trace:
  "rev (ws_trace (snd (win_run (sample_win_env (\<lambda>n. 4 \<le> n)) (sample_request False)))) =
     [EvScan, EvDownload [sample_guid], EvPoll [], EvInstall sample_guid, EvPoll msg_stopped]"
  by code_simp

lemma sample_dry_trace:
  "rev (ws_trace (snd (win_run (sample_win_env (\<lambda>_. False)) (sample_request True)))) =
     [EvScan, EvPoll [], EvState ''Vendor.App'']"
  by code_simp

lemma dry_run_starts_nothing_witness:
  "EvScan \<in> set (ws_trace (snd (win_run (sample_win_env (\<lambda>_. False)) (sample_request True))))
     \<and> EvInstall sample_guid \<notin> set (ws_trace (snd (win_run (sample_win_env (\<lambda>_. False)) (sample_request True))))"
  using dry_run_starts_nothing [of "sample_request True" "EvInstall sample_guid" "sample_win_env (\<lambda>_. False)"]
    arg_cong [OF sample_dry_trace, of set] by (auto simp: sample_request_def)

theorem nothing_starts_after_interrupt_witness:
  "(3 :: nat) \<le> 4 \<and> rev (ws_trace (snd (win_run (sample_win_env (\<lambda>n. 4 \<le> n)) (sample_request False)))) ! 3
     = EvInstall sample_guid"
proof -
  have "(\<forall>u. rev (ws_trace (snd (win_run (sample_win_env (\<lambda>n. 4 \<le> n)) (sample_request False)))) ! 3 = EvInstall u
      \<longrightarrow> (3 :: nat) \<le> 4)"
    by (rule nothing_starts_after_interrupt [OF refl, of 4, THEN conjunct1])
      (simp_all only: sample_trace, simp_all add: sample_win_env_def)
  then show ?thesis unfolding sample_trace by simp
qed

end
