(* ===== verification/WinOutcome.thy ===== *)
theory WinOutcome
  imports WinStarts
begin

text \<open>
  What a Windows patch run reports: the items it keeps are distinct and acceptable to the server, every
  batch it posts is within the server's limit, and when the run ends no item is left pending.  Each
  operation is shown to settle what it handles (\<open>moves\<close>), and the run composes them.
\<close>

section \<open>The items of a run\<close>

text \<open>What the server accepts in a report, and what every item the run keeps or posts satisfies.\<close>

definition item_ok :: "win_item \<Rightarrow> bool" where
  "item_ok it \<longleftrightarrow> valid_windows_patch_target (ref_of it) \<and> wi_status it \<in> set patch_item_statuses"

definition batch_ok :: "win_item list \<Rightarrow> bool" where
  "batch_ok b \<longleftrightarrow> b \<noteq> [] \<and> length b \<le> max_items_per_post \<and> list_all item_ok b"

definition items_inv :: "win_state \<Rightarrow> bool" where
  "items_inv s \<longleftrightarrow>
     distinct (map ref_of (ws_items s)) \<and> list_all item_ok (ws_items s) \<and> list_all batch_ok (ws_posts s)"

definition refs :: "win_state \<Rightarrow> item_ref set" where
  "refs s = ref_of ` set (ws_items s)"

definition pend :: "win_state \<Rightarrow> item_ref set" where
  "pend s = ref_of ` set (filter (\<lambda>it. wi_status it = ''pending'') (ws_items s))"

text \<open>
  \<open>moves A D s s'\<close>: the invariant survives, no item is lost, and what is pending afterwards was
  pending before and is not in \<open>D\<close>, or is in \<open>A\<close>.
\<close>

definition moves :: "item_ref set \<Rightarrow> item_ref set \<Rightarrow> win_state \<Rightarrow> win_state \<Rightarrow> bool" where
  "moves A D s s' \<longleftrightarrow>
     (items_inv s \<longrightarrow> items_inv s') \<and> refs s \<subseteq> refs s' \<and> pend s' \<subseteq> pend s - D \<union> A"

lemma moves_refs: "moves A D s s' \<Longrightarrow> K \<subseteq> refs s \<Longrightarrow> K \<subseteq> refs s'"
  by (auto simp: moves_def)

lemma moves_inv: "moves A D s s' \<Longrightarrow> items_inv s \<Longrightarrow> items_inv s'"
  by (auto simp: moves_def)

lemma moves_pend: "moves A D s s' \<Longrightarrow> pend s' \<subseteq> pend s - D \<union> A"
  by (auto simp: moves_def)

lemma moves_trans: "moves A D s s1 \<Longrightarrow> moves B E s1 s2 \<Longrightarrow> moves (A - E \<union> B) (D \<union> E) s s2"
  unfolding moves_def by blast

lemma moves_seq: "moves {} D s s1 \<Longrightarrow> moves {} E s1 s2 \<Longrightarrow> F \<subseteq> D \<union> E \<Longrightarrow> moves {} F s s2"
  unfolding moves_def by blast

lemma moves_seq0: "moves {} {} s s1 \<Longrightarrow> moves {} E s1 s2 \<Longrightarrow> moves {} E s s2"
  unfolding moves_def by blast

lemma moves_mono: "moves A D s s' \<Longrightarrow> A \<subseteq> B \<Longrightarrow> E \<subseteq> D \<Longrightarrow> moves B E s s'"
  unfolding moves_def by blast

lemma moves_refl [simp]: "moves A {} s s"
  by (auto simp: moves_def)

lemma moves_same_items:
  "ws_items s' = ws_items s \<Longrightarrow> ws_posts s' = ws_posts s \<Longrightarrow> moves A {} s s'"
  by (auto simp: moves_def items_inv_def refs_def pend_def)

lemma moves_tick [simp]: "moves A {} s (tick s)"
  and moves_noted [simp]: "moves A {} s (noted ev s)"
  and moves_poll [simp]: "moves A {} s (snd (interrupt_reason e s))"
  and moves_outcome [simp]: "moves A {} s (record_wua_outcome req s)"
  by (rule moves_same_items; simp add: tick_def noted_def interrupt_reason_def record_wua_outcome_def Let_def
      split: prod.split)+

lemma items_change_item [simp]:
  "ws_items (change_item k f s) = update_where (\<lambda>it. ref_of it = k) f (ws_items s)"
  "ws_posts (change_item k f s) = ws_posts s"
  by (simp_all add: change_item_def)

lemma moves_update:
  assumes keep: "\<And>it. ref_of it = k \<Longrightarrow> ref_of (f it) = k"
    and ok: "\<And>it. ref_of it = k \<Longrightarrow> item_ok it \<Longrightarrow> item_ok (f it)"
    and pending: "\<And>it. ref_of it = k \<Longrightarrow> wi_status (f it) = ''pending''
                    \<Longrightarrow> wi_status it = ''pending'' \<and> k \<notin> D \<or> k \<in> A"
    and D: "D \<subseteq> {k}"
  shows "moves A D s (change_item k f s)"
proof -
  let ?t = "ws_items s" and ?u = "update_where (\<lambda>it. ref_of it = k) f (ws_items s)"
  have refs: "map ref_of ?u = map ref_of ?t" by (rule map_update_where) (simp add: keep)
  have "items_inv s \<Longrightarrow> items_inv (change_item k f s)"
    unfolding items_inv_def items_change_item refs
    by (auto simp: list_all_iff update_where_def ok)
  moreover have "refs s = refs (change_item k f s)"
    unfolding refs_def items_change_item by (simp only: refs set_map [symmetric])
  moreover have "pend (change_item k f s) \<subseteq> pend s - D \<union> A"
  proof
    fix r assume "r \<in> pend (change_item k f s)"
    then obtain it where it: "it \<in> set ?t"
      and r: "r = ref_of (if ref_of it = k then f it else it)"
      and st: "wi_status (if ref_of it = k then f it else it) = ''pending''"
      unfolding pend_def items_change_item update_where_def by auto
    have same: "ref_of it = r" using r keep by (simp split: if_splits)
    have "wi_status it = ''pending'' \<and> r \<notin> D \<or> r \<in> A"
      using st pending [of it] D same by (auto split: if_splits)
    then show "r \<in> pend s - D \<union> A" using it same unfolding pend_def by auto
  qed
  ultimately show ?thesis by (simp add: moves_def)
qed

lemma moves_change_item:
  assumes "\<And>it. ref_of (f it) = ref_of it" and "\<And>it. wi_status (f it) = wi_status it"
  shows "moves {} {} s (change_item k f s)"
  by (rule moves_update) (use assms in \<open>simp_all add: item_ok_def\<close>)

lemma moves_settle:
  assumes "\<And>it. ref_of (f it) = ref_of it" and "\<And>it. wi_status (f it) = st"
    and "st \<in> set patch_item_statuses" and "st \<noteq> ''pending''"
  shows "moves {} {k} s (change_item k f s)"
  by (rule moves_update) (use assms in \<open>simp_all add: item_ok_def\<close>)

lemma item_at_refs:
  assumes "k \<in> refs s" obtains it where "item_at s k = Some it" "it \<in> set (ws_items s)" "ref_of it = k"
proof -
  have "item_at s k \<noteq> None" using assms by (auto simp: refs_def item_at_def find_None_iff)
  then obtain it where "item_at s k = Some it" by auto
  moreover have "it \<in> set (ws_items s) \<and> ref_of it = k"
    using calculation unfolding item_at_def by (auto simp: find_Some_iff)
  ultimately show ?thesis using that by simp
qed

lemma batches_Nil [simp]: "batches [] = []"
  by (simp add: batches.simps)

lemma batches_step: "xs \<noteq> [] \<Longrightarrow> batches xs = take max_items_per_post xs # batches (drop max_items_per_post xs)"
  by (subst batches.simps) simp

lemma batches_ok:
  "list_all item_ok xs \<Longrightarrow> list_all batch_ok (batches xs)"
proof (induction xs rule: batches.induct)
  case (1 xs)
  show ?case
  proof (cases "xs = []")
    case False
    have drop: "list_all item_ok (drop max_items_per_post xs)" and take: "list_all item_ok (take max_items_per_post xs)"
      using 1(2) by (auto simp: list_all_iff dest: in_set_takeD in_set_dropD)
    moreover have "take max_items_per_post xs \<noteq> []" using False by (simp add: max_items_per_post_def)
    ultimately show ?thesis using 1(1) [OF False drop] by (simp add: batches_step [OF False] batch_ok_def)
  qed simp
qed

lemma concat_batches [simp]: "concat (batches xs) = xs"
proof (induction xs rule: batches.induct)
  case (1 xs)
  then show ?case by (cases "xs = []") (simp_all add: batches_step)
qed

lemma moves_post:
  assumes "set ks \<subseteq> refs s"
  shows "moves A {} s (post e ks s)"
proof -
  have "items_inv s \<Longrightarrow> list_all item_ok (map (\<lambda>k. the (item_at s k)) ks)"
    using assms by (auto simp: list_all_iff items_inv_def elim!: item_at_refs dest!: subsetD)
  then show ?thesis
    using batches_ok by (auto simp: moves_def post_def items_inv_def refs_def pend_def)
qed

lemma moves_finish:
  assumes "k \<in> refs s" and "st \<in> set patch_item_statuses" and "st \<noteq> ''pending''"
  shows "moves {} {k} s (finish e k st m s)"
proof -
  let ?f = "\<lambda>it. it\<lparr>wi_status := st, wi_message := m, wi_completed := we_clock e (ws_ticks s)\<rparr>"
  have c: "moves {} {k} s (change_item k ?f (tick s))"
    by (rule moves_seq0 [OF moves_tick moves_settle]) (use assms in \<open>simp_all add: ref_of_def\<close>)
  have "moves {} {} (change_item k ?f (tick s)) (finish e k st m s)"
    unfolding finish_def by (rule moves_post) (use moves_refs [OF c, of "{k}"] assms in simp)
  then show ?thesis by (rule moves_seq [OF c]) simp
qed

lemma ref_of_merged [simp]: "ref_of (merged it cur) = ref_of it" "wi_status (merged it cur) = wi_status it"
  by (simp_all add: merged_def ref_of_def)

lemma moves_upsert:
  assumes ok: "item_ok it"
  shows "moves (if wi_status it = ''pending'' then {ref_of it} else {}) {ref_of it} s (upsert it s)"
    and "ref_of it \<in> refs (upsert it s)"
proof -
  let ?A = "if wi_status it = ''pending'' then {ref_of it} else {}"
  show "moves ?A {ref_of it} s (upsert it s)"
  proof (cases "item_at s (ref_of it)")
    case None
    then have "ref_of it \<notin> refs s" by (auto simp: item_at_def find_None_iff refs_def)
    then show ?thesis
      using None ok by (auto simp: upsert_def moves_def items_inv_def refs_def pend_def)
  next
    case (Some cur)
    have "moves ?A {ref_of it} s (change_item (ref_of it) (merged it) s)"
      by (rule moves_update) (use ok in \<open>auto simp: item_ok_def\<close>)
    with Some show ?thesis by (simp add: upsert_def)
  qed
  show "ref_of it \<in> refs (upsert it s)"
  proof (cases "item_at s (ref_of it)")
    case (Some cur)
    then have "ref_of it \<in> refs s"
      unfolding item_at_def find_Some_iff refs_def by (metis image_eqI nth_mem)
    moreover have "moves ?A {ref_of it} s (upsert it s)" by fact
    ultimately show ?thesis by (auto simp: moves_def)
  qed (simp add: upsert_def refs_def)
qed

lemma moves_upsert_settled:
  "item_ok it \<Longrightarrow> wi_status it \<noteq> ''pending'' \<Longrightarrow> moves {} {ref_of it} s (upsert it s)"
  using moves_upsert(1) [of it s] by simp

lemma moves_upsert_pending: "item_ok it \<Longrightarrow> moves {ref_of it} {} s (upsert it s)"
  by (rule moves_mono [OF moves_upsert(1)]) auto

lemma upsert_refs: "item_ok it \<Longrightarrow> insert (ref_of it) (refs s) \<subseteq> refs (upsert it s)"
  using moves_upsert [of it s] by (simp add: moves_def)

lemma upsert_all_refs:
  "list_all item_ok its \<Longrightarrow> ref_of ` set its \<union> refs s \<subseteq> refs (upsert_all its s)"
proof (induction its arbitrary: s)
  case (Cons it its)
  then show ?case using upsert_refs [of it s] by simp blast
qed simp

lemma moves_upsert_all_pending:
  "list_all item_ok its \<Longrightarrow> moves (ref_of ` set its) {} s (upsert_all its s)"
proof (induction its arbitrary: s)
  case (Cons it its)
  have "moves ({ref_of it} - {} \<union> ref_of ` set its) ({} \<union> {}) s (upsert_all its (upsert it s))"
    by (rule moves_trans [OF moves_upsert_pending Cons.IH]) (use Cons.prems in simp_all)
  then show ?case by simp
qed simp

lemma moves_upsert_all_settled:
  "list_all (\<lambda>it. item_ok it \<and> wi_status it \<noteq> ''pending'') its
     \<Longrightarrow> moves {} (ref_of ` set its) s (upsert_all its s)"
proof (induction its arbitrary: s)
  case (Cons it its)
  show ?case unfolding upsert_all.simps
    by (rule moves_seq [OF moves_upsert_settled Cons.IH]) (use Cons.prems in auto)
qed simp

section \<open>Every operation settles what it handles\<close>

lemma ref_of_simps [simp]:
  "ref_of (blank_item k i st) = (k, i)"
  "ref_of (it\<lparr>wi_message := m\<rparr>) = ref_of it"
  "ref_of (it\<lparr>wi_completed := c\<rparr>) = ref_of it"
  "ref_of (it\<lparr>wi_status := st\<rparr>) = ref_of it"
  "ref_of (it\<lparr>wi_title := t\<rparr>) = ref_of it"
  "ref_of (it\<lparr>wi_reboot := b\<rparr>) = ref_of it"
  "ref_of (it\<lparr>wi_started := t\<rparr>) = ref_of it"
  "ref_of (it\<lparr>wi_hresult := h\<rparr>) = ref_of it"
  "ref_of (it\<lparr>wi_exit_code := x\<rparr>) = ref_of it"
  "ref_of (it\<lparr>wi_result_code := r\<rparr>) = ref_of it"
  "ref_of (wua_item u st m) = wua_ref u"
  by (simp_all add: ref_of_def blank_item_def wua_item_def wua_ref_def)

lemma status_simps [simp]:
  "wi_status (blank_item k i st) = st" "wi_status (wua_item u st m) = st"
  by (simp_all add: blank_item_def wua_item_def)

lemma moves_set_fields:
  "moves {} {} s (change_item k (\<lambda>it. it\<lparr>wi_reboot := b\<rparr>) s)"
  "moves {} {} s (change_item k (\<lambda>it. it\<lparr>wi_started := t\<rparr>) s)"
  "moves {} {} s (change_item k (\<lambda>it. it\<lparr>wi_hresult := h\<rparr>) s)"
  "moves {} {} s (change_item k (\<lambda>it. it\<lparr>wi_exit_code := x\<rparr>) s)"
  "moves {} {} s (change_item k (\<lambda>it. it\<lparr>wi_hresult := h, wi_result_code := r\<rparr>) s)"
  "moves {} {} s (change_item k (\<lambda>it. it\<lparr>wi_exit_code := x, wi_reboot := b\<rparr>) s)"
  "moves {} {} s (change_item k (\<lambda>it. it\<lparr>wi_result_code := r, wi_hresult := h, wi_reboot := b\<rparr>) s)"
  by (rule moves_change_item; simp)+

lemma refs_change_item: "(\<And>it. ref_of (f it) = ref_of it) \<Longrightarrow> refs (change_item k f s) = refs s"
  unfolding refs_def items_change_item set_map [symmetric] by (simp add: map_update_where)

lemma refs_simps [simp]:
  "refs (tick s) = refs s" "refs (noted ev s) = refs s" "refs (post e ks s) = refs s"
  "refs (snd (interrupt_reason e s)) = refs s"
  by (simp_all add: refs_def tick_def noted_def post_def interrupt_reason_def Let_def split: prod.split)

lemma statuses_ok [simp]:
  "''pending'' \<in> set patch_item_statuses" "''would_install'' \<in> set patch_item_statuses"
  "''not_applicable'' \<in> set patch_item_statuses" "''installed'' \<in> set patch_item_statuses"
  "''installed_with_errors'' \<in> set patch_item_statuses" "''installed_pending_reboot'' \<in> set patch_item_statuses"
  "''already_installed'' \<in> set patch_item_statuses" "''failed'' \<in> set patch_item_statuses"
  "''aborted'' \<in> set patch_item_statuses" "''skipped'' \<in> set patch_item_statuses"
  by (simp_all add: patch_item_statuses_def)

lemma wua_result_status_ok [simp]:
  "wua_result_status rc \<in> set patch_item_statuses" "wua_result_status rc \<noteq> ''pending''"
  by (simp_all add: wua_result_status_def)

text \<open>The outcomes of an upgrade have a final status.\<close>

definition outcome_ok :: "winget_outcome \<Rightarrow> bool" where
  "outcome_ok oc \<longleftrightarrow> oc_status oc \<in> set patch_item_statuses \<and> oc_status oc \<noteq> ''pending''"

lemma outcome_ok_intros:
  "outcome_ok a \<Longrightarrow> outcome_ok b \<Longrightarrow> outcome_ok (if c then a else b)"
  "outcome_ok (outcome ''would_install'' m)" "outcome_ok (outcome ''not_applicable'' m)"
  "outcome_ok (outcome ''skipped'' m)" "outcome_ok (outcome ''failed'' m)"
  "outcome_ok (outcome ''installed'' m)" "outcome_ok (oc\<lparr>oc_reboot := r\<rparr>) \<longleftrightarrow> outcome_ok oc"
  by (simp_all add: outcome_ok_def outcome_def)

lemma winget_outcome_ok [simp]: "outcome_ok (classify_winget_upgrade_exit code dry out tid)"
  unfolding classify_winget_upgrade_exit_def outcome_ok_intros(7) by (intro outcome_ok_intros(1-6) outcome_ok_intros(7) [THEN iffD2])

lemma moves_finish_after:
  assumes "moves {} {} s s1" and "k \<in> refs s" and "st \<in> set patch_item_statuses" and "st \<noteq> ''pending''"
  shows "moves {} {k} s (finish e k st m s1)"
  by (rule moves_seq0 [OF assms(1) moves_finish]) (use assms moves_refs [OF assms(1), of "{k}"] in auto)

lemma moves_finish_all:
  "set ks \<subseteq> refs s \<Longrightarrow> st \<in> set patch_item_statuses \<Longrightarrow> st \<noteq> ''pending''
     \<Longrightarrow> moves {} (set ks) s (finish_all e ks st m s)"
proof (induction ks arbitrary: s)
  case (Cons k ks)
  have f: "moves {} {k} s (finish e k st m s)" by (rule moves_finish) (use Cons.prems in auto)
  show ?case unfolding finish_all.simps
    by (rule moves_seq [OF f Cons.IH]) (use Cons.prems moves_refs [OF f, of "set ks"] in auto)
qed simp

lemma poll_moves: "interrupt_reason e s = (reason, s1) \<Longrightarrow> moves A {} s s1 \<and> refs s1 = refs s"
  using moves_poll [of A s e] refs_simps(4) [of e s] by simp

lemma moves_poll_seq:
  assumes "interrupt_reason e s = (reason, s1)" and "moves {} D s1 s'" shows "moves {} D s s'"
  by (rule moves_seq0 [OF _ assms(2)]) (use poll_moves [OF assms(1)] in simp)

lemma moves_download_failed:
  assumes "wua_ref ` set us \<subseteq> refs s"
  shows "moves {} (wua_ref ` set us) s (wua_download_failed e us err timed s)"
proof -
  obtain reason s1 where poll: "interrupt_reason e s = (reason, s1)" by (cases "interrupt_reason e s") auto
  have "moves {} (set (map wua_ref us)) s1 (finish_all e (map wua_ref us) st m s1)"
    if "st \<in> {''skipped'', ''failed''}" for st m
    by (rule moves_finish_all) (use that assms poll_moves [OF poll] in auto)
  then show ?thesis
    unfolding wua_download_failed_def Let_def poll prod.case
    by (auto intro: moves_poll_seq [OF poll])
qed

lemma moves_fail_downloads:
  "wua_ref ` set us \<subseteq> refs s \<Longrightarrow> fail_downloads e dl us s = (rest, s')
     \<Longrightarrow> moves {} (wua_ref ` set us - wua_ref ` set rest) s s' \<and> set rest \<subseteq> set us"
proof (induction us arbitrary: s rest)
  case (Cons u us)
  show ?case
  proof (cases "\<exists>res. dl (to_lower (wu_id u)) = Some res \<and> or_code res \<noteq> 2 \<and> or_code res \<noteq> 3")
    case True
    then obtain res where res: "dl (to_lower (wu_id u)) = Some res" "or_code res \<noteq> 2" "or_code res \<noteq> 3" by auto
    define s1 where "s1 = finish e (wua_ref u) ''failed''
        (''Download '' @ to_lower (wua_result_message (or_code res) (or_hresult res)))
        (change_item (wua_ref u) (\<lambda>it. it\<lparr>wi_hresult := normalise_hresult (or_hresult res),
                                          wi_result_code := Some (to_int32 (or_code res))\<rparr>) s)"
    have m: "moves {} {wua_ref u} s s1"
      unfolding s1_def by (rule moves_finish_after [OF moves_set_fields(5)]) (use Cons.prems in auto)
    have f: "fail_downloads e dl us s1 = (rest, s')" using Cons.prems(2) res by (simp add: s1_def)
    have "wua_ref ` set us \<subseteq> refs s1" by (rule moves_refs [OF m]) (use Cons.prems in auto)
    then have m': "moves {} (wua_ref ` set us - wua_ref ` set rest) s1 s'" and sub: "set rest \<subseteq> set us"
      using Cons.IH [OF _ f] by auto
    have "moves {} (wua_ref ` set (u # us) - wua_ref ` set rest) s s'" by (rule moves_seq [OF m m']) auto
    with sub show ?thesis by auto
  next
    case False
    then obtain rest' where f: "fail_downloads e dl us s = (rest', s')" and "rest = u # rest'"
      using Cons.prems(2) by (auto split: option.splits prod.splits if_splits)
    moreover have m: "moves {} (wua_ref ` set us - wua_ref ` set rest') s s'" and sub: "set rest' \<subseteq> set us"
      using Cons.IH [OF _ f] Cons.prems(1) by auto
    have "moves {} (wua_ref ` set (u # us) - wua_ref ` set (u # rest')) s s'" by (rule moves_mono [OF m]) auto
    ultimately show ?thesis using sub by auto
  qed
qed simp

lemma moves_apply_install_result:
  assumes "k \<in> refs s"
  shows "moves {} {k} s (apply_install_result e k answer s)"
proof (cases answer)
  case (Inl res)
  then show ?thesis using assms
    unfolding apply_install_result_def Let_def
    by (auto intro!: moves_finish moves_finish_after [OF moves_set_fields(1)] moves_finish_after [OF moves_set_fields(7)])
next
  case (Inr err)
  then show ?thesis using assms
    unfolding apply_install_result_def Let_def
    by (auto intro!: moves_finish moves_finish_after [OF moves_set_fields(3)] split: wua_error.split)
qed

lemma moves_recheck:
  assumes "wua_ref u \<in> refs s"
  shows "moves {} {wua_ref u} s (snd (recheck_after_timeout e u limit s))"
proof -
  have n: "moves {} {} s (noted (EvStatus (wu_id u)) s)" by simp
  have r: "moves {} {} s (change_item (wua_ref u) (\<lambda>it. it\<lparr>wi_reboot := True\<rparr>) (noted (EvStatus (wu_id u)) s))"
    by (rule moves_seq0 [OF n moves_set_fields(1)])
  show ?thesis
  proof (cases "recheck_answer (we_status e (length (ws_trace s)) (wu_id u))")
    case None
    then show ?thesis using moves_finish_after [OF n assms] by (simp add: recheck_after_timeout_def)
  next
    case (Some st)
    then show ?thesis using moves_finish_after [OF n assms] moves_finish_after [OF r assms]
      by (simp add: recheck_after_timeout_def Let_def)
  qed
qed

lemma moves_install_one:
  assumes u: "wua_ref u \<in> refs s"
  shows "moves {} {wua_ref u} s (snd (install_one e u blocked s))"
proof -
  let ?k = "wua_ref u" let ?c = "change_item ?k (\<lambda>it. it\<lparr>wi_started := we_clock e (ws_ticks s)\<rparr>) (tick s)"
  have c: "moves {} {} s ?c" by (rule moves_seq0 [OF moves_tick moves_set_fields(2)])
  have k: "?k \<in> refs ?c" using moves_refs [OF c, of "{?k}"] u by simp
  have p: "moves {} {} s (post e [?k] ?c)" by (rule moves_seq0 [OF c moves_post]) (use k in simp)
  have n: "moves {} {} s (noted (EvInstall (wu_id u)) (post e [?k] ?c))" by (rule moves_seq0 [OF p moves_noted])
  have r: "?k \<in> refs (noted (EvInstall (wu_id u)) (post e [?k] ?c))" using k by simp
  show ?thesis
    unfolding install_one_def Let_def
    by (auto simp: case_prod_beta intro!: moves_seq0 [OF n] moves_recheck [OF r] moves_apply_install_result [OF r]
        split: install_answer.split)
qed

lemma moves_install_loop:
  "wua_ref ` set us \<subseteq> refs s \<Longrightarrow> moves {} (wua_ref ` set us) s (install_loop e us blocked s)"
proof (induction us arbitrary: blocked s)
  case (Cons u us)
  obtain reason s1 where poll: "interrupt_reason e s = (reason, s1)" by (cases "interrupt_reason e s") auto
  have sub: "wua_ref ` set (u # us) \<subseteq> refs s1" using Cons.prems poll_moves [OF poll] by simp
  have step: "moves {} (wua_ref ` set (u # us)) s1 (install_loop e us b s2)"
    if one: "moves {} {wua_ref u} s1 s2" for s2 b
    by (rule moves_seq [OF one Cons.IH]) (use sub moves_refs [OF one, of "wua_ref ` set us"] in auto)
  have skip: "moves {} {wua_ref u} s1 (finish e (wua_ref u) ''skipped'' m s1)" for m
    by (rule moves_finish) (use sub in auto)
  have one: "moves {} {wua_ref u} s1 (snd (install_one e u [] s1))"
    by (rule moves_install_one) (use sub in auto)
  show ?case
    using step [OF skip, of blocked reason] step [OF skip, of blocked blocked]
      step [OF one, of "fst (install_one e u [] s1)"]
    by (auto simp: poll case_prod_beta intro: moves_poll_seq [OF poll])
qed simp

lemma moves_wua_install:
  assumes "wua_ref ` set us \<subseteq> refs s"
  shows "moves {} (wua_ref ` set us) s (wua_install e us s)"
proof -
  let ?s1 = "noted (EvDownload (map wu_id us)) s"
  have sub: "wua_ref ` set us \<subseteq> refs ?s1" using assms by simp
  have n: "moves {} {} s ?s1" by simp
  have "moves {} (wua_ref ` set us) ?s1 (install_loop e rest [] s2)"
    if f: "fail_downloads e dl us ?s1 = (rest, s2)" for dl rest s2
  proof -
    have m: "moves {} (wua_ref ` set us - wua_ref ` set rest) ?s1 s2" and "set rest \<subseteq> set us"
      using moves_fail_downloads [OF sub f] by auto
    then have "moves {} (wua_ref ` set rest) s2 (install_loop e rest [] s2)"
      by (intro moves_install_loop moves_refs [OF m]) (use sub in auto)
    from moves_seq [OF m this] show ?thesis by auto
  qed
  then show ?thesis
    unfolding wua_install_def Let_def
    by (auto simp: case_prod_beta intro!: moves_seq0 [OF n] moves_download_failed [OF sub] split: sum.split)
qed

section \<open>Selection and the phases\<close>

lemma code_of_lower_char:
  "(of_char (lower_char c) :: nat) = (if 65 \<le> (of_char c :: nat) \<and> of_char c \<le> (90 :: nat) then of_char c + 32 else of_char c)"
  by (simp add: lower_char_def Let_def)

lemma lower_char_dash: "lower_char c = CHR ''-'' \<longleftrightarrow> c = CHR ''-''"
proof
  assume "lower_char c = CHR ''-''"
  then have "(of_char (lower_char c) :: nat) = 45" by simp
  then have "(of_char c :: nat) = of_char CHR ''-''" unfolding code_of_lower_char by (auto split: if_splits)
  then show "c = CHR ''-''" by (simp only: of_char_eq_iff)
qed (simp add: lower_char_def)

lemma split_on_to_lower: "split_on CHR ''-'' (to_lower s) = map to_lower (split_on CHR ''-'' s)"
proof (induction s)
  case (Cons c s)
  then show ?case
    by (cases "split_on CHR ''-'' s") (simp_all add: to_lower_def lower_char_dash)
qed (simp add: to_lower_def)

lemma hex_digit_lower: "is_hex_digit c \<Longrightarrow> is_hex_digit (lower_char c)"
  unfolding is_hex_digit_def is_digit_def Let_def code_of_lower_char by auto

lemma valid_guid_lower: "is_valid_wua_guid g \<Longrightarrow> is_valid_wua_guid (to_lower g)"
  unfolding is_valid_wua_guid_def split_on_to_lower
  by (auto simp: comp_def to_lower_def list_all_iff hex_digit_lower)

lemma update_by_id_Some:
  "update_by_id us t = Some u \<Longrightarrow> u \<in> set us \<and> to_lower (wu_id u) = t"
  unfolding update_by_id_def by (auto dest: map_of_SomeD)

definition wua_targets :: "string list \<Rightarrow> item_ref set" where
  "wua_targets ids = (\<lambda>i. (''wua'', to_lower i)) ` set ids"

text \<open>Items the selection decides: acceptable, and not pending.\<close>

definition decided_ok :: "win_item \<Rightarrow> bool" where
  "decided_ok it \<longleftrightarrow> item_ok it \<and> wi_status it \<noteq> ''pending''"

lemma valid_wua_target [simp]: "valid_windows_patch_target (''wua'', i) \<longleftrightarrow> is_valid_wua_guid i"
  "valid_windows_patch_target (''winget'', i) \<longleftrightarrow> is_valid_winget_id i"
  by (simp_all add: valid_windows_patch_target_def)

lemma choose_targets_covers:
  assumes "choose_targets (update_by_id us) ts = (chosen, decided)" and "list_all is_valid_wua_guid ts"
  shows "list_all decided_ok decided
     \<and> list_all (\<lambda>u. is_valid_wua_guid (to_lower (wu_id u))) chosen
     \<and> wua_targets ts \<subseteq> ref_of ` set decided \<union> wua_ref ` set chosen"
  using assms
proof (induction ts arbitrary: chosen decided)
  case Nil
  then show ?case by (simp add: wua_targets_def)
next
  case (Cons t ts)
  obtain ch de where rest: "choose_targets (update_by_id us) ts = (ch, de)" by fastforce
  have ih: "list_all decided_ok de" "list_all (\<lambda>u. is_valid_wua_guid (to_lower (wu_id u))) ch"
    "wua_targets ts \<subseteq> ref_of ` set de \<union> wua_ref ` set ch"
    using Cons.IH [OF rest] Cons.prems by auto
  have t: "is_valid_wua_guid (to_lower t)" using Cons.prems valid_guid_lower by simp
  show ?case
  proof (cases "update_by_id us (to_lower t)")
    case None
    moreover have "decided_ok ((blank_item ''wua'' (to_lower t) ''not_applicable'')\<lparr>wi_message := msg_no_longer_offered\<rparr>)"
      using t by (simp add: decided_ok_def item_ok_def)
    ultimately show ?thesis using Cons.prems(1) rest ih by (auto simp: wua_targets_def)
  next
    case (Some u)
    then have "to_lower (wu_id u) = to_lower t" by (simp add: update_by_id_Some)
    then show ?thesis using Cons.prems(1) rest ih t Some
      by (auto simp: wua_targets_def wua_ref_def)
  qed
qed

lemma decide_update_ok:
  assumes "decide_update reboot u = Some it" and "is_valid_wua_guid (to_lower (wu_id u))"
  shows "decided_ok it \<and> ref_of it = wua_ref u"
  using assms unfolding decide_update_def
  by (auto simp: decided_ok_def item_ok_def wua_ref_def split: if_splits)

lemma select_covers:
  assumes sel: "select_wua_updates scan pa ids = (install, decided)" and ids: "list_all is_valid_wua_guid ids"
  shows "list_all decided_ok decided"
    and "list_all (\<lambda>u. is_valid_wua_guid (to_lower (wu_id u))) install"
    and "\<not> pa \<Longrightarrow> wua_targets ids \<subseteq> ref_of ` set decided \<union> wua_ref ` set install"
proof -
  let ?d = "decide_update (sc_reboot_first scan)"
  obtain chosen de where ch: "(if pa then (filter (\<lambda>u. patch_all_eligible u \<and> is_valid_wua_guid (wu_id u)) (sc_updates scan), [])
      else choose_targets (update_by_id (sc_updates scan)) ids) = (chosen, de)" by fastforce
  have ok: "list_all decided_ok de \<and> list_all (\<lambda>u. is_valid_wua_guid (to_lower (wu_id u))) chosen
      \<and> (\<not> pa \<longrightarrow> wua_targets ids \<subseteq> ref_of ` set de \<union> wua_ref ` set chosen)"
    using ch choose_targets_covers [OF _ ids, of "sc_updates scan" chosen de]
    by (auto simp: list_all_iff valid_guid_lower split: if_splits)
  have install: "set install = {u \<in> set chosen. ?d u = None}"
    and decided: "set decided = set de \<union> (\<lambda>u. the (?d u)) ` {u \<in> set chosen. ?d u \<noteq> None}"
  proof -
    have "install = order_for_install (filter (\<lambda>u. ?d u = None) chosen)"
      and "decided = de @ map (\<lambda>u. the (?d u)) (filter (\<lambda>u. ?d u \<noteq> None) chosen)"
      using sel unfolding select_wua_updates_def ch Let_def prod.case by (simp_all only: prod.inject)
    then show "set install = {u \<in> set chosen. ?d u = None}"
      and "set decided = set de \<union> (\<lambda>u. the (?d u)) ` {u \<in> set chosen. ?d u \<noteq> None}"
      by (simp_all only: order_for_install_def set_stable_sort_by set_append set_map set_filter)
  qed
  have split: "decided_ok (the (?d u)) \<and> ref_of (the (?d u)) = wua_ref u" if "u \<in> set chosen" "?d u \<noteq> None" for u
    using decide_update_ok [of "sc_reboot_first scan" u "the (?d u)"] ok that by (auto simp: list_all_iff)
  show "list_all decided_ok decided" using ok split by (auto simp: list_all_iff decided)
  show "list_all (\<lambda>u. is_valid_wua_guid (to_lower (wu_id u))) install"
    using ok by (auto simp: list_all_iff install)
  have "wua_ref ` set chosen \<subseteq> ref_of ` set decided \<union> wua_ref ` set install"
  proof
    fix r assume "r \<in> wua_ref ` set chosen"
    then obtain u where u: "u \<in> set chosen" "r = wua_ref u" by auto
    show "r \<in> ref_of ` set decided \<union> wua_ref ` set install"
    proof (cases "?d u")
      case None
      then show ?thesis using u by (simp add: install)
    next
      case (Some it)
      then have "the (?d u) \<in> set decided" using u by (force simp: decided)
      then show ?thesis using split [of u] u Some by (metis UnI1 image_eqI option.distinct(1))
    qed
  qed
  moreover have "ref_of ` set de \<subseteq> ref_of ` set decided" by (auto simp: decided)
  ultimately show "\<not> pa \<Longrightarrow> wua_targets ids \<subseteq> ref_of ` set decided \<union> wua_ref ` set install"
    using ok by blast
qed

lemma moves_record_decided:
  "list_all decided_ok its \<Longrightarrow> moves {} (ref_of ` set its) s (record_decided e its s)
     \<and> ref_of ` set its \<subseteq> refs (record_decided e its s)"
proof (induction its arbitrary: s)
  case (Cons it its)
  let ?it = "it\<lparr>wi_completed := we_clock e (ws_ticks s)\<rparr>"
  have ok: "item_ok ?it" "wi_status ?it \<noteq> ''pending''"
    using Cons.prems by (auto simp: decided_ok_def item_ok_def)
  have m: "moves {} {ref_of it} s (upsert ?it (tick s))"
    using moves_seq0 [OF moves_tick moves_upsert_settled [OF ok]] by simp
  have r: "ref_of it \<in> refs (upsert ?it (tick s))" using moves_upsert(2) [OF ok(1)] by simp
  have ih: "moves {} (ref_of ` set its) (upsert ?it (tick s)) (record_decided e its (upsert ?it (tick s)))"
    and sub: "ref_of ` set its \<subseteq> refs (record_decided e its (upsert ?it (tick s)))"
    using Cons.IH Cons.prems by auto
  have "moves {} (ref_of ` set (it # its)) s (record_decided e (it # its) s)"
    unfolding record_decided.simps by (rule moves_seq [OF m ih]) auto
  moreover have "ref_of it \<in> refs (record_decided e its (upsert ?it (tick s)))"
    using moves_refs [OF ih, of "{ref_of it}"] r by simp
  ultimately show ?case using sub by simp
qed simp

lemma moves_record_queued:
  "list_all (\<lambda>u. is_valid_wua_guid (to_lower (wu_id u))) us
     \<Longrightarrow> moves (if dry then {} else wua_ref ` set us) (wua_ref ` set us) s (record_queued e dry us s)
         \<and> wua_ref ` set us \<subseteq> refs (record_queued e dry us s)"
proof (induction us arbitrary: s)
  case (Cons u us)
  let ?it = "queued_item e dry u (ws_ticks s)" let ?s = "if dry then tick s else s" let ?s1 = "upsert ?it ?s"
  have ref: "ref_of ?it = wua_ref u" by (simp add: queued_item_def Let_def)
  have ok: "item_ok ?it" using Cons.prems
    by (simp add: queued_item_def Let_def item_ok_def wua_ref_def)
  have st: "wi_status ?it = ''pending'' \<longleftrightarrow> \<not> dry" by (simp add: queued_item_def Let_def)
  have t: "moves {} {} s ?s" by simp
  have m: "moves (if dry then {} else {wua_ref u}) {wua_ref u} ?s ?s1"
    using moves_upsert(1) [OF ok, of ?s] unfolding ref st by (cases dry) simp_all
  have m': "moves (if dry then {} else {wua_ref u}) {wua_ref u} s ?s1"
    using moves_trans [OF t m] by simp
  have ih: "moves (if dry then {} else wua_ref ` set us) (wua_ref ` set us) ?s1 (record_queued e dry us ?s1)"
    and sub: "wua_ref ` set us \<subseteq> refs (record_queued e dry us ?s1)"
    using Cons.IH Cons.prems by auto
  have "wua_ref u \<in> refs ?s1" using moves_upsert(2) [OF ok, of ?s] by (simp add: ref)
  then have "wua_ref u \<in> refs (record_queued e dry us ?s1)" using moves_refs [OF ih, of "{wua_ref u}"] by simp
  moreover have "moves (if dry then {} else wua_ref ` set (u # us)) (wua_ref ` set (u # us)) s (record_queued e dry us ?s1)"
    by (rule moves_mono [OF moves_trans [OF m' ih]]) auto
  ultimately show ?case using sub by simp
qed simp

lemma moves_wua_selected:
  assumes ids: "list_all is_valid_wua_guid ids"
  shows "moves {} (if rq_patch_all req then {} else wua_targets ids) s (wua_selected e req scan ids s)"
proof -
  obtain install decided where sel: "select_wua_updates scan (rq_patch_all req) ids = (install, decided)"
    by fastforce
  note cov = select_covers [OF sel ids]
  let ?Q = "wua_ref ` set install" let ?D = "ref_of ` set decided"
  define s1 where "s1 = record_decided e decided s"
  define s2 where "s2 = record_queued e (rq_dry req) install s1"
  define s3 where "s3 = post e (map ref_of decided @ map wua_ref install) s2"
  have d: "moves {} ?D s s1" "?D \<subseteq> refs s1" using moves_record_decided [OF cov(1), of s e] by (auto simp: s1_def)
  have q: "moves (if rq_dry req then {} else ?Q) ?Q s1 s2" "?Q \<subseteq> refs s2"
    using moves_record_queued [OF cov(2), of "rq_dry req" s1 e] by (auto simp: s2_def)
  have p: "moves {} {} s2 s3" unfolding s3_def
    by (rule moves_post) (use q moves_refs [OF q(1) d(2)] in auto)
  have s3: "moves (if rq_dry req then {} else ?Q) (?D \<union> ?Q) s s3"
    by (rule moves_mono [OF moves_trans [OF moves_trans [OF d(1) q(1)] p]]) auto
  have q3: "?Q \<subseteq> refs s3" using moves_refs [OF p q(2)] .
  have "moves {} (?D \<union> ?Q) s (if rq_dry req \<or> install = [] then s3 else wua_install e install s3)"
  proof (cases "rq_dry req \<or> install = []")
    case True
    then show ?thesis using s3 by (auto split: if_splits)
  next
    case False
    have "moves {} (?D \<union> ?Q) s (wua_install e install s3)"
      by (rule moves_mono [OF moves_trans [OF s3 moves_wua_install [OF q3]]]) auto
    with False show ?thesis by simp
  qed
  then have "moves {} (?D \<union> ?Q) s (wua_selected e req scan ids s)"
    unfolding wua_selected_def sel Let_def prod.case s1_def [symmetric] s2_def [symmetric] s3_def [symmetric] .
  then show ?thesis by (rule moves_mono) (use cov(3) in auto)
qed

lemma moves_fail_wua_targets:
  assumes ids: "list_all is_valid_wua_guid ids" and st: "st \<in> set patch_item_statuses" "st \<noteq> ''pending''"
  shows "moves {} (wua_targets ids) s (fail_wua_targets e ids st m s)"
proof -
  let ?its = "map (\<lambda>i. (blank_item ''wua'' (to_lower i) st)\<lparr>wi_message := m\<rparr>) ids"
  have ok: "list_all (\<lambda>it. item_ok it \<and> wi_status it \<noteq> ''pending'') ?its"
    using assms by (auto simp: list_all_iff item_ok_def valid_guid_lower)
  have ref: "ref_of ` set ?its = wua_targets ids" by (auto simp: wua_targets_def image_iff)
  have m: "moves {} (wua_targets ids) s (upsert_all ?its s)"
    using moves_upsert_all_settled [OF ok] unfolding ref .
  have "list_all item_ok ?its" using ok by (simp add: list_all_iff)
  from upsert_all_refs [OF this, of s] have "wua_targets ids \<subseteq> refs (upsert_all ?its s)" by (simp only: ref Un_subset_iff)
  then have p: "moves {} {} (upsert_all ?its s) (fail_wua_targets e ids st m s)"
    unfolding fail_wua_targets_def by (intro moves_post) (auto simp: wua_targets_def)
  show ?thesis by (rule moves_seq [OF m p]) simp
qed

lemma moves_run_wua_phase:
  assumes ids: "list_all is_valid_wua_guid ids"
  shows "moves {} (if rq_patch_all req then {} else wua_targets ids) s (run_wua_phase e req ids s)"
proof -
  let ?T = "if rq_patch_all req then {} else wua_targets ids" let ?s1 = "noted EvScan s"
  have failed: "moves {} ?T ?s1 (wua_scan_failed e req ids err timed ?s1)" for err timed
  proof -
    obtain reason s2 where poll: "interrupt_reason e ?s1 = (reason, s2)" by (cases "interrupt_reason e ?s1") auto
    have f: "moves {} ?T s2 (fail_wua_targets e ids st m s2)" if "st \<in> {''skipped'', ''failed''}" for st m
      by (rule moves_mono [OF moves_fail_wua_targets [OF ids]]) (use that in auto)
    have err: "moves {} {} s2 (s2\<lparr>ws_errors := es\<rparr>)" for es by (rule moves_same_items) simp_all
    show ?thesis unfolding wua_scan_failed_def Let_def poll prod.case
      using f err by (intro moves_poll_seq [OF poll]) auto
  qed
  have "moves {} ?T ?s1 (case we_scan e of Inl (err, t) \<Rightarrow> wua_scan_failed e req ids err t ?s1
                                         | Inr scan \<Rightarrow> wua_selected e req scan ids ?s1)"
    by (cases "we_scan e") (simp_all only: sum.case split_beta failed moves_wua_selected [OF ids, of req])
  then have "moves {} ?T s (case we_scan e of Inl (err, t) \<Rightarrow> wua_scan_failed e req ids err t ?s1
                                         | Inr scan \<Rightarrow> wua_selected e req scan ids ?s1)"
    by (rule moves_seq0 [OF moves_noted])
  from moves_seq [OF this moves_outcome] show ?thesis
    unfolding run_wua_phase_def Let_def by auto
qed

lemma moves_fail_winget_targets:
  "list_all is_valid_winget_id ids \<Longrightarrow> moves {} (winget_ref ` set ids) s (fail_winget_targets e ids s)
     \<and> winget_ref ` set ids \<subseteq> refs (fail_winget_targets e ids s)"
proof (induction ids arbitrary: s)
  case (Cons i ids)
  define it where "it = (blank_item ''winget'' i ''failed'')\<lparr>wi_message := msg_no_winget, wi_completed := we_clock e (ws_ticks s)\<rparr>"
  have ok: "item_ok it" "wi_status it \<noteq> ''pending''" and ref: "ref_of it = winget_ref i"
    using Cons.prems by (simp_all add: it_def item_ok_def winget_ref_def)
  have m: "moves {} {winget_ref i} s (upsert it (tick s))"
    using moves_seq0 [OF moves_tick moves_upsert_settled [OF ok]] by (simp add: ref)
  have r: "winget_ref i \<in> refs (upsert it (tick s))" using moves_upsert(2) [OF ok(1)] by (simp add: ref)
  have ih: "moves {} (winget_ref ` set ids) (upsert it (tick s)) (fail_winget_targets e ids (upsert it (tick s)))"
    and sub: "winget_ref ` set ids \<subseteq> refs (fail_winget_targets e ids (upsert it (tick s)))"
    using Cons.IH Cons.prems by auto
  have "winget_ref i \<in> refs (fail_winget_targets e ids (upsert it (tick s)))"
    using moves_refs [OF ih, of "{winget_ref i}"] r by simp
  moreover have "moves {} (winget_ref ` set (i # ids)) s (fail_winget_targets e ids (upsert it (tick s)))"
    by (rule moves_seq [OF m ih]) auto
  ultimately show ?case using sub by (simp add: it_def)
qed simp

lemma moves_queue_apps:
  "queue_apps apps seen s = (queue, s')
     \<Longrightarrow> moves (winget_ref ` set queue) {} s s' \<and> winget_ref ` set queue \<subseteq> refs s'"
proof (induction apps seen s arbitrary: queue s' rule: queue_apps.induct)
  case (2 name tid needs apps seen s)
  show ?case
  proof (cases "\<not> needs \<or> tid = [] \<or> \<not> is_valid_winget_id tid \<or> to_lower tid \<in> seen")
    case True
    then show ?thesis using 2 by simp
  next
    case False
    define it where "it = (blank_item ''winget'' tid ''pending'')\<lparr>wi_title := name\<rparr>"
    obtain ids where q: "queue_apps apps (insert (to_lower tid) seen) (upsert it s) = (ids, s')" "queue = tid # ids"
      using 2(3) False by (auto simp: it_def split: prod.splits)
    have ok: "item_ok it" and ref: "ref_of it = winget_ref tid"
      using False by (simp_all add: it_def item_ok_def winget_ref_def)
    have m: "moves {winget_ref tid} {} s (upsert it s)" using moves_upsert_pending [OF ok] by (simp add: ref)
    have ih: "moves (winget_ref ` set ids) {} (upsert it s) s'" and sub: "winget_ref ` set ids \<subseteq> refs s'"
      using 2(2) [OF False] q by (auto simp: it_def)
    have "winget_ref tid \<in> refs s'"
      using moves_refs [OF ih, of "{winget_ref tid}"] moves_upsert(2) [OF ok, of s] by (simp add: ref)
    moreover have "moves (winget_ref ` set queue) {} s s'"
      by (rule moves_mono [OF moves_trans [OF m ih]]) (auto simp: q)
    ultimately show ?thesis using sub by (simp add: q)
  qed
qed simp

lemma moves_upgrade_app:
  assumes k: "winget_ref tid \<in> refs s"
  shows "moves {} {winget_ref tid} s (upgrade_app e tid s)"
proof -
  let ?k = "winget_ref tid" let ?s = "noted (EvUpgrade tid) (post e [?k] s)"
  have n: "moves {} {} s ?s" by (rule moves_seq0 [OF moves_post moves_noted]) (use k in simp)
  show ?thesis
  proof (cases "we_upgrade e (length (ws_trace s)) tid")
    case (Inl err)
    then show ?thesis using moves_finish_after [OF n k, of "''failed''"] by (simp add: upgrade_app_def Let_def)
  next
    case (Inr res)
    obtain code out where r: "res = (code, out)" by fastforce
    obtain before after where ren: "we_renames e (length (ws_trace s)) = (before, after)" by fastforce
    define oc where "oc = classify_winget_upgrade_exit code False out tid"
    define oc' where "oc' = (if oc_status oc = ''installed'' \<and> new_pending_renames before after
        then oc\<lparr>oc_reboot := True, oc_message := msg_deferred_replace\<rparr> else oc)"
    have st: "oc_status oc' \<in> set patch_item_statuses" "oc_status oc' \<noteq> ''pending''"
      using winget_outcome_ok [of code False out tid] by (auto simp: oc'_def oc_def outcome_ok_def)
    have c: "moves {} {} s (change_item ?k (\<lambda>it. it\<lparr>wi_exit_code := x, wi_reboot := b\<rparr>) ?s)" for x b
      by (rule moves_seq0 [OF n moves_set_fields(6)])
    have "upgrade_app e tid s = finish e ?k (oc_status oc') (oc_message oc')
        (change_item ?k (\<lambda>it. it\<lparr>wi_exit_code := Some (uint code), wi_reboot := oc_reboot oc'\<rparr>) ?s)"
      unfolding upgrade_app_def oc'_def oc_def using Inr r ren by (simp add: Let_def)
    then show ?thesis using moves_finish_after [OF c k st] by simp
  qed
qed

lemma moves_check_failed:
  assumes k: "winget_ref tid \<in> refs s"
  shows "moves {} {winget_ref tid} s (check_failed e tid err s)"
proof -
  obtain reason s1 where poll: "interrupt_reason e s = (reason, s1)" by (cases "interrupt_reason e s") auto
  have k1: "winget_ref tid \<in> refs s1" using k poll_moves [OF poll] by simp
  show ?thesis
    unfolding check_failed_def Let_def poll prod.case
    by (intro moves_poll_seq [OF poll])
      (use moves_finish [OF k1] moves_finish_after [OF moves_set_fields(4) k1] in \<open>auto split: winget_error.split\<close>)
qed

lemma moves_check_app:
  assumes k: "winget_ref tid \<in> refs s"
  shows "moves {} {winget_ref tid} s (check_app e dry tid s)"
proof -
  let ?k = "winget_ref tid"
  obtain reason s1 where poll: "interrupt_reason e s = (reason, s1)" by (cases "interrupt_reason e s") auto
  have k1: "?k \<in> refs s1" using k poll_moves [OF poll] by simp
  define s3 where "s3 = noted (EvState tid) (change_item ?k (\<lambda>it. it\<lparr>wi_started := we_clock e (ws_ticks s1)\<rparr>) (tick s1))"
  have m: "moves {} {} s1 s3" unfolding s3_def
    by (rule moves_seq0 [OF moves_seq0 [OF moves_tick moves_set_fields(2)] moves_noted])
  have k3: "?k \<in> refs s3" using moves_refs [OF m, of "{?k}"] k1 by simp
  have fin: "moves {} {?k} s1 (finish e ?k st msg s3)"
    if "st \<in> {''skipped'', ''not_applicable'', ''would_install''}" for st msg
    by (rule moves_finish_after [OF m k1]) (use that in auto)
  have skip: "moves {} {?k} s1 (finish e ?k ''skipped'' msg s1)" for msg by (rule moves_finish [OF k1]) simp_all
  note rest = fin moves_seq0 [OF m moves_check_failed [OF k3]] moves_seq0 [OF m moves_upgrade_app [OF k3]]
  show ?thesis
    unfolding check_app_def Let_def poll prod.case s3_def [symmetric]
    by (intro moves_poll_seq [OF poll])
      (use skip rest in \<open>auto split: sum.split upgrade_state.split\<close>)
qed

lemma moves_check_apps:
  "winget_ref ` set ids \<subseteq> refs s \<Longrightarrow> moves {} (winget_ref ` set ids) s (check_apps e dry ids s)"
proof (induction ids arbitrary: s)
  case (Cons tid ids)
  have one: "moves {} {winget_ref tid} s (check_app e dry tid s)"
    by (rule moves_check_app) (use Cons.prems in auto)
  show ?case unfolding check_apps.simps
    by (rule moves_seq [OF one Cons.IH]) (use Cons.prems moves_refs [OF one, of "winget_ref ` set ids"] in auto)
qed simp

lemma moves_run_winget_phase:
  assumes ids: "list_all is_valid_winget_id ids" and sub: "\<not> rq_patch_all req \<Longrightarrow> winget_ref ` set ids \<subseteq> refs s"
  shows "moves {} (if rq_patch_all req then {} else winget_ref ` set ids) s (run_winget_phase e req ids s)"
proof -
  have none: "moves {} (winget_ref ` set ids) s (post e (map winget_ref ids) (fail_winget_targets e ids s))"
  proof -
    have f: "moves {} (winget_ref ` set ids) s (fail_winget_targets e ids s)"
      and r: "winget_ref ` set ids \<subseteq> refs (fail_winget_targets e ids s)"
      using moves_fail_winget_targets [OF ids, of s e] by auto
    show ?thesis by (rule moves_seq [OF f moves_post]) (use r in auto)
  qed
  show ?thesis
  proof (cases "we_resolve e \<and> rq_patch_all req")
    case True
    obtain queue s1 where q: "queue_apps (we_updatable e) {} s = (queue, s1)" by fastforce
    have m: "moves (winget_ref ` set queue) {} s s1" and r: "winget_ref ` set queue \<subseteq> refs s1"
      using moves_queue_apps [OF q] by auto
    have p: "moves {} {} s1 (post e (map winget_ref queue) s1)" by (rule moves_post) (use r in auto)
    have c: "moves {} (winget_ref ` set queue) (post e (map winget_ref queue) s1)
        (check_apps e (rq_dry req) queue (post e (map winget_ref queue) s1))"
      by (rule moves_check_apps) (use r in simp)
    have "moves {} {} s (check_apps e (rq_dry req) queue (post e (map winget_ref queue) s1))"
      by (rule moves_mono [OF moves_trans [OF moves_trans [OF m p] c]]) auto
    then show ?thesis using True q by (simp add: run_winget_phase_def)
  next
    case False
    have "moves {} (winget_ref ` set ids) s (run_winget_phase e req ids s)"
      using False none moves_check_apps [OF sub] by (auto simp: run_winget_phase_def)
    then show ?thesis by (rule moves_mono) auto
  qed
qed

text \<open>A request as \<open>NewWindowsPatchRequest\<close> accepts it.\<close>

lemma collect_targets_valid:
  "collect_targets ts seen acc rej = (accepted, rejected) \<Longrightarrow> list_all valid_windows_patch_target acc
     \<Longrightarrow> list_all valid_windows_patch_target accepted"
proof (induction ts seen acc rej rule: collect_targets.induct)
  case (2 t ts seen acc rej)
  have "valid_windows_patch_target t \<Longrightarrow>
      valid_windows_patch_target (if fst t = ''wua'' then (fst t, to_lower (snd t)) else t)"
    by (cases t) (auto simp: valid_guid_lower)
  with 2 show ?case by (auto simp: Let_def split: if_splits)
qed simp

lemma collect_targets_lower:
  "collect_targets ts seen acc rej = (accepted, rejected)
     \<Longrightarrow> list_all (\<lambda>t. fst t = ''wua'' \<longrightarrow> to_lower (snd t) = snd t) acc
     \<Longrightarrow> list_all (\<lambda>t. fst t = ''wua'' \<longrightarrow> to_lower (snd t) = snd t) accepted"
  by (induction ts seen acc rej rule: collect_targets.induct) (auto simp: Let_def split: if_splits)

definition request_ok :: "win_request \<Rightarrow> bool" where
  "request_ok req \<longleftrightarrow> list_all valid_windows_patch_target (rq_targets req)
     \<and> list_all (\<lambda>t. fst t = ''wua'' \<longrightarrow> to_lower (snd t) = snd t) (rq_targets req)"

lemma new_request_ok:
  "new_windows_patch_request pt dry ts upd apps = (req, rejected, None) \<Longrightarrow> request_ok req"
  using collect_targets_valid [of ts "{}" "[]" "[]"] collect_targets_lower [of ts "{}" "[]" "[]"]
  by (auto simp: new_windows_patch_request_def request_ok_def Let_def split: if_splits prod.splits)

lemma target_ids_valid:
  assumes "request_ok req"
  shows "list_all is_valid_wua_guid (target_ids req ''wua'')"
    and "list_all is_valid_winget_id (target_ids req ''winget'')"
    and "set (rq_targets req) = wua_targets (target_ids req ''wua'') \<union> winget_ref ` set (target_ids req ''winget'')"
proof -
  have kinds: "(k, i) \<in> set (rq_targets req) \<Longrightarrow>
      k = ''wua'' \<and> is_valid_wua_guid i \<and> to_lower i = i \<or> k = ''winget'' \<and> is_valid_winget_id i" for k i
    using assms unfolding request_ok_def list_all_iff valid_windows_patch_target_def
    by (metis fst_conv snd_conv)
  show "list_all is_valid_wua_guid (target_ids req ''wua'')"
    and "list_all is_valid_winget_id (target_ids req ''winget'')"
    using kinds by (auto simp: target_ids_def list_all_iff)
  have mem: "i \<in> set (target_ids req k) \<longleftrightarrow> (k, i) \<in> set (rq_targets req)" for k i
    by (force simp: target_ids_def)
  show "set (rq_targets req) = wua_targets (target_ids req ''wua'') \<union> winget_ref ` set (target_ids req ''winget'')"
    (is "?l = ?r")
  proof
    show "?l \<subseteq> ?r"
    proof
      fix t assume t: "t \<in> ?l"
      obtain k i where ki: "t = (k, i)" by fastforce
      show "t \<in> ?r"
        using kinds [of k i] t mem [of i k] unfolding ki wua_targets_def winget_ref_def by (auto intro: rev_image_eqI)
    qed
    show "?r \<subseteq> ?l"
    proof -
      have "(''wua'', to_lower i) \<in> ?l" if "i \<in> set (target_ids req ''wua'')" for i
        using that kinds [of "''wua''" i] mem [of i "''wua''"] by simp
      then show ?thesis using mem by (auto simp: wua_targets_def winget_ref_def)
    qed
  qed
qed

lemma items_inv_new [simp]: "items_inv new_windows_patch_run" "refs new_windows_patch_run = {}" "pend new_windows_patch_run = {}"
  by (simp_all add: items_inv_def new_windows_patch_run_def refs_def pend_def)

text \<open>The state a run ends with: well formed, nothing pending, every target among the items.\<close>

lemma run_phases_settles:
  assumes ok: "request_ok req"
  shows "items_inv (run_phases e req)" and "pend (run_phases e req) = {}"
    and "\<not> rq_patch_all req \<Longrightarrow> set (rq_targets req) \<subseteq> refs (run_phases e req)"
proof -
  let ?W = "target_ids req ''wua''" and ?G = "target_ids req ''winget''"
  note valid = target_ids_valid [OF ok]
  define T where "T = (if rq_patch_all req then {} else set (rq_targets req))"
  define s0 where "s0 = upsert_all (pending_targets req) new_windows_patch_run"
  define s1 where "s1 = (if rq_patch_all req \<and> rq_updates req \<or> ?W \<noteq> [] then run_wua_phase e req ?W s0 else s0)"
  have its: "list_all item_ok (pending_targets req)"
    using valid(1,2) by (auto simp: pending_targets_def list_all_iff item_ok_def valid_guid_lower)
  have ref: "ref_of ` set (pending_targets req) = T"
    unfolding T_def pending_targets_def valid(3) wua_targets_def
    by (simp add: image_Un image_image winget_ref_def)
  have m0: "moves T {} new_windows_patch_run s0"
    using moves_upsert_all_pending [OF its] unfolding s0_def ref by simp
  have r0: "T \<subseteq> refs s0" using upsert_all_refs [OF its, of new_windows_patch_run] by (simp add: s0_def ref)
  have m1: "moves {} (if rq_patch_all req then {} else wua_targets ?W) s0 s1"
    using moves_run_wua_phase [OF valid(1), of req s0 e] by (auto simp: s1_def wua_targets_def)
  have r1: "T \<subseteq> refs s1" by (rule moves_refs [OF m1 r0])
  have m2: "moves {} (if rq_patch_all req then {} else winget_ref ` set ?G) s1 (run_phases e req)"
  proof (cases "rq_patch_all req \<and> rq_apps req \<or> ?G \<noteq> []")
    case True
    have r: "run_phases e req = run_winget_phase e req ?G s1" using True unfolding run_phases_def s1_def s0_def Let_def by simp
    have "\<not> rq_patch_all req \<Longrightarrow> winget_ref ` set ?G \<subseteq> refs s1" using r1 valid(3) by (auto simp: T_def)
    from moves_run_winget_phase [OF valid(2) this] show ?thesis unfolding r .
  next
    case False
    then have "run_phases e req = s1" and "?G = []" unfolding run_phases_def s1_def s0_def Let_def by auto
    then show ?thesis by simp
  qed
  show "items_inv (run_phases e req)"
    by (rule moves_inv [OF m2 moves_inv [OF m1 moves_inv [OF m0 items_inv_new(1)]]])
  have "moves {} T new_windows_patch_run (run_phases e req)"
    by (rule moves_mono [OF moves_trans [OF moves_trans [OF m0 m1] m2]]) (auto simp: T_def valid(3))
  from moves_pend [OF this] show "pend (run_phases e req) = {}" by simp
  show "\<not> rq_patch_all req \<Longrightarrow> set (rq_targets req) \<subseteq> refs (run_phases e req)"
    using moves_refs [OF m2 r1] by (simp add: T_def)
qed

section \<open>How a run ends\<close>

lemma final_stage_items:
  assumes "new_windows_patch_request pt dry ts upd apps = (req, rejected, None)"
  shows "ws_items (snd (win_run e req)) = wr_items (fst (win_run e req))
     \<and> wr_items (fst (win_run e req)) = ws_items (run_phases e req)
     \<and> snd (win_run e req) = post e (map ref_of (ws_items (run_phases e req))) (run_phases e req)"
proof -
  have "\<not> (rq_patch_all req \<and> \<not> rq_updates req \<and> \<not> rq_apps req)"
    using assms by (auto simp: new_windows_patch_request_def Let_def split: if_splits prod.splits)
  moreover have "\<not> (\<not> rq_patch_all req \<and> target_ids req ''wua'' = [] \<and> target_ids req ''winget'' = [])"
  proof
    assume none: "\<not> rq_patch_all req \<and> target_ids req ''wua'' = [] \<and> target_ids req ''winget'' = []"
    then have "set (rq_targets req) = {}"
      using target_ids_valid(3) [OF new_request_ok [OF assms]] by (simp add: wua_targets_def)
    then show False
      using assms none by (auto simp: new_windows_patch_request_def Let_def split: if_splits prod.splits)
  qed
  moreover have "ws_items (post e ks s) = ws_items s" for ks s by (simp add: post_def)
  ultimately show ?thesis unfolding win_run_def Let_def by (auto simp: case_prod_beta)
qed

text \<open>
  C21: A run that \<open>NewWindowsPatchRequest\<close> accepted ends with every requested target among its items,
  one item per target, each with a final status the server knows: none is left pending, whatever the
  backends answer and whenever the run is stopped.
\<close>

theorem finished_run_settles_every_target:
  assumes "new_windows_patch_request pt dry ts upd apps = (req, rejected, None)"
  shows "distinct (map (\<lambda>it. (wi_kind it, wi_id it)) (wr_items (fst (win_run e req))))
     \<and> (\<forall>it \<in> set (wr_items (fst (win_run e req))).
           wi_status it \<noteq> ''pending'' \<and> wi_status it \<in> set patch_item_statuses)
     \<and> (\<not> rq_patch_all req \<longrightarrow> (\<forall>t \<in> set (rq_targets req).
           \<exists>it \<in> set (wr_items (fst (win_run e req))). (wi_kind it, wi_id it) = t))"
proof -
  let ?s = "run_phases e req"
  note settled = run_phases_settles [OF new_request_ok [OF assms], of e]
  have items: "wr_items (fst (win_run e req)) = ws_items ?s" using final_stage_items [OF assms] by simp
  have "distinct (map (\<lambda>it. (wi_kind it, wi_id it)) (ws_items ?s))"
    using settled(1) by (simp add: items_inv_def ref_of_def [abs_def])
  moreover have "wi_status it \<noteq> ''pending'' \<and> wi_status it \<in> set patch_item_statuses"
    if "it \<in> set (ws_items ?s)" for it
    using that settled(1,2) by (auto simp: items_inv_def item_ok_def list_all_iff pend_def)
  moreover have "\<exists>it \<in> set (ws_items ?s). (wi_kind it, wi_id it) = t"
    if "\<not> rq_patch_all req" "t \<in> set (rq_targets req)" for t
  proof -
    have "t \<in> ref_of ` set (ws_items ?s)" using settled(3) [OF that(1)] that(2) by (auto simp: refs_def)
    then show ?thesis by (auto simp: ref_of_def)
  qed
  ultimately show ?thesis unfolding items by blast
qed

section \<open>The server's view: what a run posts, and what it is asked for\<close>

text \<open>The JSON of an item (\<open>models.PatchRunItem\<close>): empty fields are left out.\<close>

definition json_item :: "win_item \<Rightarrow> agent_item" where
  "json_item it =
     \<lparr>ai_kind = wi_kind it, ai_id = wi_id it,
      ai_revision = (if wi_revision it = 0 then None else Some (wi_revision it)),
      ai_title = wi_title it, ai_kb = wi_kb it, ai_status = wi_status it,
      ai_result_code = wi_result_code it, ai_hresult = wi_hresult it, ai_exit_code = wi_exit_code it,
      ai_reboot_required = Some (wi_reboot it), ai_download_bytes = None, ai_message = wi_message it,
      ai_started_at = non_empty (wi_started it), ai_completed_at = non_empty (wi_completed it)\<rparr>"

definition plain_char :: "char \<Rightarrow> bool" where
  "plain_char c \<longleftrightarrow> 32 < (of_char c :: nat) \<and> (of_char c :: nat) < 128"

lemma plain_word_chars: "plain_word w \<longleftrightarrow> w \<noteq> [] \<and> list_all plain_char w"
  by (simp add: plain_word_def plain_char_def list_all_iff)

lemma plain_codes:
  "is_hex_digit c \<Longrightarrow> plain_char c" "is_winget_char c \<Longrightarrow> plain_char c" "is_alnum c \<Longrightarrow> plain_char c"
  by (auto simp: is_digit_def is_hex_digit_def is_winget_char_def is_alnum_def is_lower_def is_upper_def
      plain_char_def Let_def)

lemma winget_id_plain: "is_valid_winget_id s \<Longrightarrow> plain_word s"
  by (cases s) (auto simp: is_valid_winget_id_def plain_word_chars list_all_iff plain_codes)

lemma split_on_chars: "set s \<subseteq> insert c (\<Union> (set ` set (split_on c s)))"
proof (induction s)
  case (Cons d s)
  then show ?case by (cases "split_on c s") auto
qed simp

lemma guid_plain:
  assumes "is_valid_wua_guid s"
  shows "plain_word s"
proof -
  have "c = CHR ''-'' \<or> is_hex_digit c" if "c \<in> set s" for c
    using that split_on_chars [of s "CHR ''-''"] assms by (fastforce simp: is_valid_wua_guid_def list_all_iff)
  moreover have "plain_char CHR ''-''" by (simp add: plain_char_def)
  ultimately have "list_all plain_char s" using plain_codes(1) by (metis list_all_iff)
  moreover have "s \<noteq> []" using assms by (auto simp: is_valid_wua_guid_def)
  ultimately show ?thesis by (simp add: plain_word_chars)
qed

lemma json_item_checked: "item_ok it \<Longrightarrow> \<exists>tid. checked_id (json_item it) = Inr tid"
  by (auto simp: item_ok_def ref_of_def valid_windows_patch_target_def checked_id_def json_item_def Let_def
      trim_space_plain guid_plain winget_id_plain valid_guid_lower split: if_splits)

lemma normalise_from_accepts:
  "list_all (\<lambda>it. (\<exists>tid. checked_id it = Inr tid) \<and> ai_status it \<in> set patch_item_statuses) its
     \<Longrightarrow> \<exists>rows. normalise_from tm i its seen acc = Inr rows"
proof (induction its arbitrary: i seen acc)
  case (Cons it its)
  then obtain tid where "checked_id it = Inr tid" by auto
  then show ?case using Cons by (auto simp: Let_def split: option.split)
qed simp

text \<open>
  C22: Every report a run posts is accepted by the server: within its limit of items, every kind,
  identifier and status valid, so no report is lost to \<open>RecordAgentItems\<close>'s checks.
\<close>

theorem posted_reports_are_accepted:
  assumes "new_windows_patch_request pt dry ts upd apps = (req, rejected, None)"
    and "batch \<in> set (ws_posts (snd (win_run e req)))"
  shows "\<exists>rows. normalise_agent_items tm (map json_item batch) = Inr rows"
proof -
  let ?s = "run_phases e req"
  have m: "moves {} {} ?s (post e (map ref_of (ws_items ?s)) ?s)"
    by (rule moves_post) (auto simp: refs_def)
  have "items_inv (snd (win_run e req))"
    using moves_inv [OF m run_phases_settles(1) [OF new_request_ok [OF assms(1)]]]
      final_stage_items [OF assms(1), of e] by simp
  then have ok: "batch_ok batch" using assms(2) by (simp add: items_inv_def list_all_iff)
  then have "list_all (\<lambda>it. (\<exists>tid. checked_id it = Inr tid) \<and> ai_status it \<in> set patch_item_statuses)
      (map json_item batch)"
    using json_item_checked by (auto simp: batch_ok_def list_all_iff item_ok_def) (simp add: json_item_def)
  from normalise_from_accepts [OF this] ok show ?thesis
    by (simp add: normalise_agent_items_def batch_ok_def max_items_per_report_def max_items_per_post_def)
qed

lemma collect_targets_valid_all:
  "list_all valid_windows_patch_target ts
     \<Longrightarrow> \<exists>acc'. collect_targets ts seen acc rej = (acc @ acc', rej)
         \<and> (\<forall>t \<in> set ts. seen_key (fst t) (to_lower (snd t)) \<in> seen
              \<or> (\<exists>t' \<in> set acc'. fst t' = fst t \<and> to_lower (snd t') = to_lower (snd t)))"
proof (induction ts arbitrary: seen acc)
  case (Cons t ts)
  define t' where "t' = (if fst t = ''wua'' then (fst t, to_lower (snd t)) else t)"
  define key where "key = seen_key (fst t') (to_lower (snd t'))"
  have v: "valid_windows_patch_target t" and vs: "list_all valid_windows_patch_target ts" using Cons.prems by auto
  have key: "key = seen_key (fst t) (to_lower (snd t))" by (simp add: key_def t'_def)
  have same: "fst t' = fst t" "to_lower (snd t') = to_lower (snd t)" by (simp_all add: t'_def)
  have nul: "nul \<notin> set (fst u)" if "valid_windows_patch_target u" for u
    using that by (intro item_kind_no_nul) (auto simp: valid_windows_patch_target_def item_kind_def split: if_splits)
  have kind: "seen_key (fst u) (to_lower (snd u)) = key \<longleftrightarrow> fst u = fst t \<and> to_lower (snd u) = to_lower (snd t)"
    if "valid_windows_patch_target u" for u
    unfolding key by (rule seen_key_inj [OF nul [OF that] nul [OF v]])
  show ?case
  proof (cases "key \<in> seen")
    case True
    have step: "collect_targets (t # ts) seen acc rej = collect_targets ts seen acc rej"
      using v True by (simp add: Let_def t'_def [symmetric] key_def [symmetric])
    show ?thesis unfolding step using Cons.IH [OF vs, of seen acc] True key by auto
  next
    case False
    have step: "collect_targets (t # ts) seen acc rej = collect_targets ts (insert key seen) (acc @ [t']) rej"
      using v False by (simp add: Let_def t'_def [symmetric] key_def [symmetric])
    obtain acc' where a: "collect_targets ts (insert key seen) (acc @ [t']) rej = ((acc @ [t']) @ acc', rej)"
      and cov: "\<forall>u \<in> set ts. seen_key (fst u) (to_lower (snd u)) \<in> insert key seen
              \<or> (\<exists>u' \<in> set acc'. fst u' = fst u \<and> to_lower (snd u') = to_lower (snd u))"
      using Cons.IH [OF vs, of "insert key seen" "acc @ [t']"] by blast
    have "\<forall>u \<in> set ts. seen_key (fst u) (to_lower (snd u)) \<in> seen
              \<or> (\<exists>u' \<in> set (t' # acc'). fst u' = fst u \<and> to_lower (snd u') = to_lower (snd u))"
      using cov kind vs same by (auto simp: list_all_iff)
    with a step same show ?thesis by (intro exI [of _ "t' # acc'"]) auto
  qed
qed simp

text \<open>
  C23: The targets of a run the server dispatches are all accepted by the agent: the message's targets
  give a request without error, none is rejected, and each is among the request's targets up to case.
\<close>

theorem dispatched_targets_are_accepted:
  assumes task: "process_task e os_of pm_of p task_id connected send_ok db = (Inr (TaskSent m), db')"
    and ts: "rm_targets m = Some ts"
  shows "\<exists>req. new_windows_patch_request (rm_type m) (rm_dry_run m) ts (rm_include_updates m) (rm_include_apps m)
           = (req, [], None)
         \<and> (\<forall>t \<in> set ts. \<exists>t' \<in> set (rq_targets req). fst t' = fst t \<and> to_lower (snd t') = to_lower (snd t))"
proof -
  obtain mid where "sent_ok e p m mid db'" using task by (rule process_task_sent)
  then obtain run w its where its: "list_all dispatchable its" "w \<and> rp_type p = ''patch_package'' \<longrightarrow> its \<noteq> []"
    and m: "m = build_run_patch_message p run w its" unfolding sent_ok_def by blast
  have type: "rm_type m = ''patch_package''" and ts': "ts = map (\<lambda>i. (it_kind i, it_identifier i)) its" and ne: "its \<noteq> []"
    using ts its(2) unfolding m build_run_patch_message_def Let_def by (auto split: if_splits)
  have "list_all valid_windows_patch_target ts"
    using its(1) by (auto simp: ts' list_all_iff dispatchable_def)
  from collect_targets_valid_all [OF this, of "{}" "[]" "[]"] obtain acc
    where acc: "collect_targets ts {} [] [] = (acc, [])"
      and cov: "\<forall>t \<in> set ts. \<exists>t' \<in> set acc. fst t' = fst t \<and> to_lower (snd t') = to_lower (snd t)" by auto
  have "acc \<noteq> []" using cov ne by (cases its) (auto simp: ts')
  then show ?thesis using acc cov by (simp add: new_windows_patch_request_def Let_def type)
qed

section \<open>Witnesses\<close>

definition sample_targets :: "win_target list" where
  "sample_targets = [(''wua'', sample_guid), (''winget'', ''Vendor.App''), (''winget'', ''vendor.app'')]"

definition sample_accepted :: win_request where
  "sample_accepted =
     \<lparr>rq_patch_all = False, rq_dry = False, rq_updates = True, rq_apps = True,
      rq_targets = [(''wua'', sample_guid), (''winget'', ''Vendor.App'')]\<rparr>"

lemma sample_request_accepted:
  "new_windows_patch_request ''patch_package'' False sample_targets None None = (sample_accepted, [], None)"
  by code_simp

lemma sample_items:
  "map (\<lambda>it. (wi_id it, wi_status it)) (wr_items (fst (win_run (sample_win_env (\<lambda>n. 4 \<le> n)) sample_accepted)))
     = [(sample_guid, ''installed''), (''Vendor.App'', ''skipped'')]"
  by code_simp

theorem finished_run_settles_every_target_witness:
  "\<exists>it \<in> set (wr_items (fst (win_run (sample_win_env (\<lambda>n. 4 \<le> n)) sample_accepted))).
     (wi_kind it, wi_id it) = (''winget'', ''Vendor.App'')"
  using finished_run_settles_every_target [OF sample_request_accepted, of "sample_win_env (\<lambda>n. 4 \<le> n)"]
  by (simp add: sample_accepted_def)

definition sample_posts :: "win_item list list" where
  "sample_posts = ws_posts (snd (win_run (sample_win_env (\<lambda>n. 4 \<le> n)) sample_accepted))"

lemma sample_posts_lengths: "map length sample_posts = [1, 1, 1, 1, 2]"
  by code_simp

theorem posted_reports_are_accepted_witness:
  "\<exists>rows. normalise_agent_items (\<lambda>_. None) (map json_item (hd sample_posts)) = Inr rows"
proof -
  have "sample_posts \<noteq> []" using sample_posts_lengths by auto
  then have "hd sample_posts \<in> set sample_posts" by (rule hd_in_set)
  then show ?thesis unfolding sample_posts_def
    by (rule posted_reports_are_accepted [OF sample_request_accepted])
qed

text \<open>A queued Windows run of one update, as the server dispatches it.\<close>

definition sample_win_db :: store_db where
  "sample_win_db =
     (sample_db ''queued'')
       \<lparr>items := [\<lparr>it_id = ''i1'', it_run = ''r'', it_host = ''h'', it_kind = ''wua'', it_identifier = sample_guid,
          it_revision = None, it_title = ''Update'', it_kb = None, it_status = ''pending'', it_result_code = None,
          it_hresult = None, it_exit_code = None, it_reboot_required = False, it_download_bytes = None,
          it_message = None, it_started_at = None, it_completed_at = None\<rparr>]\<rparr>"

definition sample_win_task :: "(store_error + task_outcome) \<times> store_db" where
  "sample_win_task = process_task sample_env (\<lambda>_. Some ''windows'') (\<lambda>_. None)
     (sample_payload\<lparr>rp_type := ''patch_package''\<rparr>) ''t'' True True sample_win_db"

definition sample_win_message :: run_message where
  "sample_win_message = build_run_patch_message (sample_payload\<lparr>rp_type := ''patch_package''\<rparr>)
     (sample_run ''r'' ''queued'') True (items sample_win_db)"

lemma sample_win_task_sent: "fst sample_win_task = Inr (TaskSent sample_win_message)"
  by code_simp

theorem dispatched_targets_are_accepted_witness:
  "\<exists>req. new_windows_patch_request ''patch_package'' False [(''wua'', sample_guid)] None None = (req, [], None)"
proof -
  have "process_task sample_env (\<lambda>_. Some ''windows'') (\<lambda>_. None) (sample_payload\<lparr>rp_type := ''patch_package''\<rparr>)
      ''t'' True True sample_win_db = (Inr (TaskSent sample_win_message), snd sample_win_task)"
    using sample_win_task_sent unfolding sample_win_task_def by (metis prod.collapse)
  from dispatched_targets_are_accepted [OF this, of "[(''wua'', sample_guid)]"]
  show ?thesis
    by (auto simp: sample_win_message_def sample_win_db_def build_run_patch_message_def sample_payload_def)
qed

end
