(* ===== verification/VersionOrder.thy ===== *)
theory VersionOrder
  imports Prelude
begin

text \<open>
  Comparing versions: the contract of a three-way comparison, and the server's semantic version
  comparison (\<open>internal/util/version.go\<close>, which the agent repeats in
  \<open>internal/pkgversion/compare.go\<close>) with the gate built on it
  (\<open>WindowsAgentCanPatch\<close>, \<open>internal/store/windows_patch_ids.go\<close>).

  Every comparison returns -1, 0 or 1.  A comparison is only worth the name if it is a total
  preorder: sorting and picking the newest version rely on it.  The locale states that contract on a
  carrier of well-formed values; comparing lists element by element, comparing a key and comparing
  by a second criterion preserve it.
\<close>

section \<open>Three-way comparisons\<close>

locale three_way =
  fixes ok :: "'a \<Rightarrow> bool"
    and cmp :: "'a \<Rightarrow> 'a \<Rightarrow> int"
  assumes cmp_range: "ok a \<Longrightarrow> ok b \<Longrightarrow> cmp a b \<in> {- 1, 0, 1}"
    and cmp_flip: "ok a \<Longrightarrow> ok b \<Longrightarrow> cmp b a = - cmp a b"
    and cmp_le_trans: "ok a \<Longrightarrow> ok b \<Longrightarrow> ok c \<Longrightarrow> cmp a b \<le> 0 \<Longrightarrow> cmp b c \<le> 0 \<Longrightarrow> cmp a c \<le> 0"
begin

lemma cmp_refl: "ok a \<Longrightarrow> cmp a a = 0"
  using cmp_flip [of a a] by simp

lemma cmp_total: "ok a \<Longrightarrow> ok b \<Longrightarrow> cmp a b \<le> 0 \<or> cmp b a \<le> 0"
  using cmp_flip [of a b] by linarith

lemma cmp_lt_le_trans:
  "ok a \<Longrightarrow> ok b \<Longrightarrow> ok c \<Longrightarrow> cmp a b < 0 \<Longrightarrow> cmp b c \<le> 0 \<Longrightarrow> cmp a c < 0"
  using cmp_le_trans [of a b c] cmp_le_trans [of b c a] cmp_flip [of a b] cmp_flip [of a c] by fastforce

lemma cmp_le_lt_trans:
  "ok a \<Longrightarrow> ok b \<Longrightarrow> ok c \<Longrightarrow> cmp a b \<le> 0 \<Longrightarrow> cmp b c < 0 \<Longrightarrow> cmp a c < 0"
  using cmp_le_trans [of a b c] cmp_le_trans [of c a b] cmp_flip [of b c] cmp_flip [of a c] by fastforce

lemma cmp_eq_trans:
  "ok a \<Longrightarrow> ok b \<Longrightarrow> ok c \<Longrightarrow> cmp a b = 0 \<Longrightarrow> cmp b c = 0 \<Longrightarrow> cmp a c = 0"
  using cmp_le_trans [of a b c] cmp_le_trans [of c b a] cmp_flip [of a b] cmp_flip [of b c] cmp_flip [of a c]
  by simp

text \<open>Equal elements compare alike.\<close>

lemma cmp_eq_cong:
  assumes "ok a" "ok b" "ok c" and e: "cmp a b = 0"
  shows "cmp a c = cmp b c"
proof -
  have ba: "cmp b a = 0" using e assms cmp_flip [of a b] by simp
  have "cmp a c < 0 \<longleftrightarrow> cmp b c < 0"
    using assms ba cmp_le_lt_trans [of a b c] cmp_le_lt_trans [of b a c] by auto
  moreover have "cmp a c \<le> 0 \<longleftrightarrow> cmp b c \<le> 0"
    using assms ba cmp_le_trans [of a b c] cmp_le_trans [of b a c] by auto
  ultimately show ?thesis using cmp_range [of a c] cmp_range [of b c] assms by auto
qed

end

lemma three_way_str: "three_way (\<lambda>_. True) str_compare"
  by unfold_locales (auto simp: str_compare_def split: if_splits)

definition order_cmp :: "'a :: linorder \<Rightarrow> 'a \<Rightarrow> int" where
  "order_cmp a b = (if a < b then - 1 else if a > b then 1 else 0)"

lemma three_way_order: "three_way (\<lambda>_. True) order_cmp"
  by unfold_locales (auto simp: order_cmp_def split: if_splits)

lemma three_way_key:
  assumes t: "three_way ok cmp" and f: "\<And>x. ok' x \<Longrightarrow> ok (f x)"
  shows "three_way ok' (\<lambda>a b. cmp (f a) (f b))"
proof
  fix a b c
  assume ok: "ok' a" "ok' b"
  show "cmp (f a) (f b) \<in> {- 1, 0, 1}" by (rule three_way.cmp_range [OF t f f]) (rule ok)+
  show "cmp (f b) (f a) = - cmp (f a) (f b)" by (rule three_way.cmp_flip [OF t f f]) (rule ok)+
  assume "ok' c" and "cmp (f a) (f b) \<le> 0" "cmp (f b) (f c) \<le> 0"
  with ok show "cmp (f a) (f c) \<le> 0" by (blast intro: three_way.cmp_le_trans [OF t f f f])
qed

lemma three_way_mono: "three_way ok cmp \<Longrightarrow> (\<And>x. ok' x \<Longrightarrow> ok x) \<Longrightarrow> three_way ok' cmp"
  using three_way_key [of ok cmp ok' "\<lambda>x. x"] by simp

lemma three_way_cong:
  assumes t: "three_way ok cmp" and e: "\<And>a b. ok a \<Longrightarrow> ok b \<Longrightarrow> cmp' a b = cmp a b"
  shows "three_way ok cmp'"
proof
  fix a b c
  assume ok: "ok a" "ok b"
  show "cmp' a b \<in> {- 1, 0, 1}" unfolding e [OF ok] by (rule three_way.cmp_range [OF t ok])
  show "cmp' b a = - cmp' a b" unfolding e [OF ok] e [OF ok(2,1)] by (rule three_way.cmp_flip [OF t ok])
  assume okc: "ok c"
  assume "cmp' a b \<le> 0" "cmp' b c \<le> 0"
  then show "cmp' a c \<le> 0"
    unfolding e [OF ok] e [OF ok(2) okc] e [OF ok(1) okc] by (rule three_way.cmp_le_trans [OF t ok okc])
qed

text \<open>First by one comparison, then by another.\<close>

definition seq_cmp :: "('a \<Rightarrow> 'a \<Rightarrow> int) \<Rightarrow> ('a \<Rightarrow> 'a \<Rightarrow> int) \<Rightarrow> 'a \<Rightarrow> 'a \<Rightarrow> int" where
  "seq_cmp c1 c2 a b = (if c1 a b \<noteq> 0 then c1 a b else c2 a b)"

lemma three_way_seq:
  assumes t1: "three_way ok c1" and t2: "three_way ok c2"
  shows "three_way ok (seq_cmp c1 c2)"
proof
  fix a b c
  assume ok: "ok a" "ok b"
  show "seq_cmp c1 c2 a b \<in> {- 1, 0, 1}"
    using three_way.cmp_range [OF t1 ok] three_way.cmp_range [OF t2 ok] by (auto simp: seq_cmp_def)
  show "seq_cmp c1 c2 b a = - seq_cmp c1 c2 a b"
    using three_way.cmp_flip [OF t1 ok] three_way.cmp_flip [OF t2 ok] by (auto simp: seq_cmp_def)
  assume okc: "ok c" and le: "seq_cmp c1 c2 a b \<le> 0" "seq_cmp c1 c2 b c \<le> 0"
  show "seq_cmp c1 c2 a c \<le> 0"
  proof (cases "c1 a b = 0 \<and> c1 b c = 0")
    case True
    then have "c1 a c = 0" using three_way.cmp_eq_trans [OF t1 ok okc] by blast
    with True le show ?thesis
      using three_way.cmp_le_trans [OF t2 ok okc] by (simp add: seq_cmp_def)
  next
    case False
    have "c1 a b \<le> 0" "c1 b c \<le> 0" using le by (auto simp: seq_cmp_def split: if_splits)
    with False have "c1 a c < 0"
      using three_way.cmp_lt_le_trans [OF t1 ok okc] three_way.cmp_le_lt_trans [OF t1 ok okc] by force
    then show ?thesis by (simp add: seq_cmp_def)
  qed
qed

text \<open>Element by element, a proper prefix first.\<close>

fun lex_cmp :: "('a \<Rightarrow> 'a \<Rightarrow> int) \<Rightarrow> 'a list \<Rightarrow> 'a list \<Rightarrow> int" where
  "lex_cmp cmp [] [] = 0"
| "lex_cmp cmp [] (y # ys) = - 1"
| "lex_cmp cmp (x # xs) [] = 1"
| "lex_cmp cmp (x # xs) (y # ys) = (if cmp x y \<noteq> 0 then cmp x y else lex_cmp cmp xs ys)"

lemma three_way_lex:
  assumes t: "three_way ok cmp"
  shows "three_way (list_all ok) (lex_cmp cmp)"
proof
  show "lex_cmp cmp a b \<in> {- 1, 0, 1}" if "list_all ok a" "list_all ok b" for a b
    using that
  proof (induction a arbitrary: b)
    case Nil
    then show ?case by (cases b) auto
  next
    case (Cons x xs)
    then show ?case using three_way.cmp_range [OF t, of x] by (cases b) auto
  qed
  show flip: "lex_cmp cmp b a = - lex_cmp cmp a b" if "list_all ok a" "list_all ok b" for a b
    using that
  proof (induction a arbitrary: b)
    case Nil
    then show ?case by (cases b) auto
  next
    case (Cons x xs)
    then show ?case using three_way.cmp_flip [OF t, of x] by (cases b) auto
  qed
  show "lex_cmp cmp a c \<le> 0"
    if "list_all ok a" "list_all ok b" "list_all ok c" "lex_cmp cmp a b \<le> 0" "lex_cmp cmp b c \<le> 0" for a b c
    using that
  proof (induction a arbitrary: b c)
    case Nil
    then show ?case by (cases c) auto
  next
    case (Cons x xs)
    then obtain y ys where b: "b = y # ys" by (cases b) auto
    with Cons.prems obtain z zs where c: "c = z # zs" by (cases c) auto
    have ok: "ok x" "ok y" "ok z" using Cons.prems b c by auto
    show ?case
    proof (cases "cmp x y = 0 \<and> cmp y z = 0")
      case True
      then have "cmp x z = 0" using three_way.cmp_eq_trans [OF t ok] by blast
      with True Cons.IH [of ys zs] Cons.prems show ?thesis by (simp add: b c)
    next
      case False
      have "cmp x y \<le> 0" "cmp y z \<le> 0" using Cons.prems by (auto simp: b c split: if_splits)
      with False have "cmp x z < 0"
        using three_way.cmp_lt_le_trans [OF t ok] three_way.cmp_le_lt_trans [OF t ok] by force
      then show ?thesis by (simp add: c)
    qed
  qed
qed

section \<open>Semantic versions\<close>

definition before_byte :: "char \<Rightarrow> string \<Rightarrow> string" where
  "before_byte c v = takeWhile (\<lambda>x. x \<noteq> c) v"

definition split_pre_release :: "string \<Rightarrow> string \<times> string" where
  "split_pre_release v =
     (let v1 = trim_space (trim_prefix (trim_space v) ''v'');
          v2 = (if CHR ''+'' \<in> set v1 then before_byte CHR ''+'' v1 else v1)
      in if CHR ''-'' \<in> set v2
         then (before_byte CHR ''-'' v2, tl (dropWhile (\<lambda>x. x \<noteq> CHR ''-'') v2))
         else (v2, []))"

text \<open>The error of \<open>Atoi\<close> is dropped: a part that is no number counts with the value \<open>Atoi\<close> returns.\<close>

definition parse_version_parts :: "string \<Rightarrow> int list" where
  "parse_version_parts v = map (\<lambda>p. fst (atoi (trim_space (trim_prefix p ''v'')))) (split_on CHR ''.'' v)"

fun compare_numeric_parts :: "int list \<Rightarrow> int list \<Rightarrow> int" where
  "compare_numeric_parts [] [] = 0"
| "compare_numeric_parts (a # as) [] =
     (if a > 0 then 1 else if a < 0 then - 1 else compare_numeric_parts as [])"
| "compare_numeric_parts [] (b # bs) =
     (if 0 > b then 1 else if 0 < b then - 1 else compare_numeric_parts [] bs)"
| "compare_numeric_parts (a # as) (b # bs) =
     (if a > b then 1 else if a < b then - 1 else compare_numeric_parts as bs)"

fun compare_pre_parts :: "string list \<Rightarrow> string list \<Rightarrow> int" where
  "compare_pre_parts [] [] = 0"
| "compare_pre_parts [] (b # bs) = - 1"
| "compare_pre_parts (a # as) [] = 1"
| "compare_pre_parts (a # as) (b # bs) =
     (case (atoi a, atoi b) of
        ((na, None), (nb, None)) \<Rightarrow>
          if na \<noteq> nb then (if na > nb then 1 else - 1) else compare_pre_parts as bs
      | ((na, None), (nb, Some _)) \<Rightarrow> - 1
      | ((na, Some _), (nb, None)) \<Rightarrow> 1
      | ((na, Some _), (nb, Some _)) \<Rightarrow>
          if a \<noteq> b then (if a > b then 1 else - 1) else compare_pre_parts as bs)"

definition compare_pre_release :: "string \<Rightarrow> string \<Rightarrow> int" where
  "compare_pre_release a b = compare_pre_parts (split_on CHR ''.'' a) (split_on CHR ''.'' b)"

definition compare_versions :: "string \<Rightarrow> string \<Rightarrow> int" where
  "compare_versions v1 v2 =
     (let (c1, pre1) = split_pre_release v1; (c2, pre2) = split_pre_release v2;
          c = compare_numeric_parts (parse_version_parts c1) (parse_version_parts c2)
      in if c \<noteq> 0 then c
         else if pre1 = [] \<and> pre2 = [] then 0
         else if pre1 = [] then 1
         else if pre2 = [] then - 1
         else compare_pre_release pre1 pre2)"

definition min_windows_patch_agent_version :: string where
  "min_windows_patch_agent_version = ''2.1.4''"

definition windows_agent_can_patch :: "string option \<Rightarrow> bool" where
  "windows_agent_can_patch agent_version =
     (let v = (case agent_version of None \<Rightarrow> [] | Some v \<Rightarrow> v)
      in v \<noteq> [] \<and> compare_versions v (min_windows_patch_agent_version @ ''-0'') \<ge> 0)"

section \<open>Semantic versions are totally ordered\<close>

lemma numeric_flip: "compare_numeric_parts b a = - compare_numeric_parts a b"
  by (induction a b rule: compare_numeric_parts.induct) auto

lemma numeric_range: "compare_numeric_parts a b \<in> {- 1, 0, 1}"
  by (induction a b rule: compare_numeric_parts.induct) auto

text \<open>Missing parts count as zero.\<close>

definition pad_hd :: "int list \<Rightarrow> int" where
  "pad_hd a = (case a of [] \<Rightarrow> 0 | x # _ \<Rightarrow> x)"

lemma pad_hd_simps [simp]: "pad_hd [] = 0" "pad_hd (x # xs) = x"
  by (simp_all add: pad_hd_def)

lemma numeric_unfold:
  "a \<noteq> [] \<or> b \<noteq> [] \<Longrightarrow> compare_numeric_parts a b =
     (if pad_hd a > pad_hd b then 1 else if pad_hd a < pad_hd b then - 1
      else compare_numeric_parts (tl a) (tl b))"
  by (cases a; cases b) auto

lemma numeric_trans:
  "compare_numeric_parts a b \<le> 0 \<Longrightarrow> compare_numeric_parts b c \<le> 0 \<Longrightarrow> compare_numeric_parts a c \<le> 0"
proof (induction "length a + length b + length c" arbitrary: a b c rule: less_induct)
  case less
  show ?case
  proof (cases "a = [] \<and> b = [] \<and> c = []")
    case False
    have ab: "pad_hd a \<le> pad_hd b" "pad_hd a = pad_hd b \<Longrightarrow> compare_numeric_parts (tl a) (tl b) \<le> 0"
      using less.prems(1) numeric_unfold [of a b] by (cases "a = [] \<and> b = []"; auto split: if_splits)+
    have bc: "pad_hd b \<le> pad_hd c" "pad_hd b = pad_hd c \<Longrightarrow> compare_numeric_parts (tl b) (tl c) \<le> 0"
      using less.prems(2) numeric_unfold [of b c] by (cases "b = [] \<and> c = []"; auto split: if_splits)+
    have shorter: "length (tl a) + length (tl b) + length (tl c) < length a + length b + length c"
      using False by (cases a; cases b; cases c) simp_all
    have tls: "compare_numeric_parts (tl a) (tl b) \<le> 0 \<Longrightarrow> compare_numeric_parts (tl b) (tl c) \<le> 0
        \<Longrightarrow> compare_numeric_parts (tl a) (tl c) \<le> 0"
      by (rule less.hyps [OF shorter])
    show ?thesis
    proof (cases "a = [] \<and> c = []")
      case True
      then show ?thesis by simp
    next
      case False
      with ab bc tls show ?thesis using numeric_unfold [of a c] by auto
    qed
  qed simp
qed

lemma three_way_numeric: "three_way (\<lambda>_. True) compare_numeric_parts"
  by unfold_locales (rule numeric_range, rule numeric_flip, rule numeric_trans)

text \<open>A pre-release identifier: numbers first, by value, then the others, as strings.\<close>

definition pre_part_cmp :: "string \<Rightarrow> string \<Rightarrow> int" where
  "pre_part_cmp a b =
     (case (atoi a, atoi b) of
        ((na, None), (nb, None)) \<Rightarrow> order_cmp na nb
      | ((na, None), (nb, Some _)) \<Rightarrow> - 1
      | ((na, Some _), (nb, None)) \<Rightarrow> 1
      | ((na, Some _), (nb, Some _)) \<Rightarrow> str_compare a b)"

lemma three_way_pre_part: "three_way (\<lambda>_. True) pre_part_cmp"
proof
  fix a b c
  show "pre_part_cmp a b \<in> {- 1, 0, 1}"
    by (auto simp: pre_part_cmp_def order_cmp_def str_compare_def split: prod.split option.split)
  show "pre_part_cmp b a = - pre_part_cmp a b"
    by (auto simp: pre_part_cmp_def order_cmp_def str_compare_def split: prod.split option.split)
  assume "pre_part_cmp a b \<le> 0" "pre_part_cmp b c \<le> 0"
  then show "pre_part_cmp a c \<le> 0"
    by (auto simp: pre_part_cmp_def order_cmp_def str_compare_def split: prod.splits option.splits if_splits)
qed

lemma compare_pre_parts_lex: "compare_pre_parts a b = lex_cmp pre_part_cmp a b"
  by (induction a b rule: compare_pre_parts.induct)
    (auto simp: pre_part_cmp_def order_cmp_def str_compare_def split: prod.split option.split)

lemma three_way_pre_release: "three_way (\<lambda>_. True) compare_pre_release"
proof -
  have "three_way (\<lambda>_. True) (\<lambda>a b. lex_cmp pre_part_cmp (split_on CHR ''.'' a) (split_on CHR ''.'' b))"
    by (rule three_way_key [OF three_way_lex [OF three_way_pre_part]]) (simp add: list_all_iff)
  then show ?thesis
    by (rule three_way_cong) (simp add: compare_pre_release_def compare_pre_parts_lex)
qed

text \<open>No pre-release ranks above every pre-release.\<close>

definition release_cmp :: "string \<Rightarrow> string \<Rightarrow> int" where
  "release_cmp pre1 pre2 =
     (if pre1 = [] \<and> pre2 = [] then 0 else if pre1 = [] then 1 else if pre2 = [] then - 1
      else compare_pre_release pre1 pre2)"

lemma three_way_release: "three_way (\<lambda>_. True) release_cmp"
proof
  note t = three_way_pre_release
  fix a b c
  show "release_cmp a b \<in> {- 1, 0, 1}"
    using three_way.cmp_range [OF t, of a b] by (auto simp: release_cmp_def)
  show "release_cmp b a = - release_cmp a b"
    using three_way.cmp_flip [OF t, of a b] by (simp add: release_cmp_def)
  assume "release_cmp a b \<le> 0" "release_cmp b c \<le> 0"
  then show "release_cmp a c \<le> 0"
    using three_way.cmp_le_trans [OF t, of a b c] by (auto simp: release_cmp_def split: if_splits)
qed

interpretation semver: three_way "\<lambda>_. True" compare_versions
proof -
  have core: "three_way (\<lambda>_. True) (\<lambda>v w. compare_numeric_parts (parse_version_parts (fst (split_pre_release v)))
      (parse_version_parts (fst (split_pre_release w))))"
    by (rule three_way_key [OF three_way_numeric]) simp
  have pre: "three_way (\<lambda>_. True) (\<lambda>v w. release_cmp (snd (split_pre_release v)) (snd (split_pre_release w)))"
    by (rule three_way_key [OF three_way_release]) simp
  show "three_way (\<lambda>_. True) compare_versions"
    by (rule three_way_cong [OF three_way_seq [OF core pre]])
      (simp add: compare_versions_def seq_cmp_def release_cmp_def case_prod_beta Let_def)
qed

section \<open>Properties\<close>

text \<open>
  C36: The semantic version comparison is a total preorder on all strings, well-formed versions or
  not: it returns -1, 0 or 1, swapping its arguments flips the sign, and at-most is transitive.
\<close>

theorem compare_versions_total_preorder:
  "compare_versions a b \<in> {- 1, 0, 1} \<and> compare_versions b a = - compare_versions a b
   \<and> (compare_versions a b \<le> 0 \<longrightarrow> compare_versions b c \<le> 0 \<longrightarrow> compare_versions a c \<le> 0)"
  using semver.cmp_range [OF TrueI TrueI, of a b] semver.cmp_flip [OF TrueI TrueI, of a b]
    semver.cmp_le_trans [OF TrueI TrueI TrueI, of a b c]
  by simp

theorem compare_versions_total_preorder_witness: "compare_versions ''2.0.3-rc.4'' ''2.1'' \<le> 0"
proof -
  have "compare_versions ''2.0.3-rc.4'' ''2.0.3'' \<le> 0" and "compare_versions ''2.0.3'' ''2.1'' \<le> 0"
    by code_simp+
  then show ?thesis
    using compare_versions_total_preorder [of "''2.0.3-rc.4''" "''2.0.3''" "''2.1''"] by blast
qed

lemma trim_prefix_append: "v \<noteq> [] \<Longrightarrow> trim_prefix (v @ s) [c] = trim_prefix v [c] @ s"
  by (cases v) (simp_all add: trim_prefix_def has_prefix_def)

lemma plain_trim_prefix:
  assumes "plain_word v"
  shows "trim_space (trim_prefix v [c]) = trim_prefix v [c]"
proof (cases "trim_prefix v [c] = []")
  case True
  then show ?thesis by (simp add: trim_space_empty_iff all_space.simps [of "[]"])
next
  case False
  have "set (trim_prefix v [c]) \<subseteq> set v" by (auto simp: trim_prefix_def dest: in_set_dropD)
  then have "plain_word (trim_prefix v [c])"
    using assms False by (auto simp: plain_word_def list_all_iff)
  then show ?thesis by (rule trim_space_plain)
qed

lemma split_pre_release_plain:
  assumes v: "plain_word v" "CHR ''+'' \<notin> set v" "CHR ''-'' \<notin> set v"
    and pre: "pre = [] \<or> plain_word pre \<and> CHR ''+'' \<notin> set pre"
  shows "split_pre_release (v @ (if pre = [] then [] else CHR ''-'' # pre)) = (trim_prefix v ''v'', pre)"
proof -
  let ?core = "trim_prefix v ''v''"
  let ?w = "v @ (if pre = [] then [] else CHR ''-'' # pre)"
  have sub: "set ?core \<subseteq> set v" by (auto simp: trim_prefix_def dest: in_set_dropD)
  have w: "plain_word ?w" using v pre by (auto simp: plain_word_def)
  have "trim_space (trim_prefix (trim_space ?w) ''v'') = ?core @ (if pre = [] then [] else CHR ''-'' # pre)"
    using plain_trim_prefix [OF w, of "CHR ''v''"] trim_space_plain [OF w] trim_prefix_append [of v _ "CHR ''v''"] v(1)
    by (simp add: plain_word_def split: if_splits)
  moreover have "CHR ''+'' \<notin> set (?core @ (if pre = [] then [] else CHR ''-'' # pre))"
    using sub v(2) pre by auto
  moreover have "takeWhile (\<lambda>x. x \<noteq> CHR ''-'') (?core @ CHR ''-'' # pre) = ?core"
    and "dropWhile (\<lambda>x. x \<noteq> CHR ''-'') (?core @ CHR ''-'' # pre) = CHR ''-'' # pre"
    using sub v(3) by (subst takeWhile_append2 dropWhile_append2; auto)+
  ultimately show ?thesis
    using sub v(3) unfolding split_pre_release_def Let_def before_byte_def by (auto simp: subset_iff)
qed

text \<open>
  A pre-release ranks below its release: appending a hyphen and any identifiers to a version
  gives a lower version.
\<close>

lemma pre_release_below_release:
  assumes "plain_word v" "CHR ''+'' \<notin> set v" "CHR ''-'' \<notin> set v" "plain_word pre" "CHR ''+'' \<notin> set pre"
  shows "compare_versions (v @ ''-'' @ pre) v = - 1"
proof -
  have "pre \<noteq> []" using assms(4) by (simp add: plain_word_def)
  then show ?thesis
    using split_pre_release_plain [OF assms(1-3), of pre] split_pre_release_plain [OF assms(1-3), of "[]"] assms(4,5)
      three_way.cmp_refl [OF three_way_numeric]
    by (simp add: compare_versions_def)
qed

lemma pre_release_below_release_witness: "compare_versions ''2.0.3-rc.4'' ''2.0.3'' = - 1"
  using pre_release_below_release [of "''2.0.3''" "''rc.4''"] by (simp add: plain_word_def)

text \<open>
  The agent version gate is upward closed: an agent at least as new as one that may be sent a
  Windows run may be sent one too, and every pre-release of the minimum passes.
\<close>

lemma windows_agent_gate_upward_closed:
  assumes "windows_agent_can_patch (Some v)" and "compare_versions v w \<le> 0" and "w \<noteq> []"
  shows "windows_agent_can_patch (Some w)"
  using assms semver.cmp_le_trans [of "min_windows_patch_agent_version @ ''-0''" v w]
    semver.cmp_flip [of v "min_windows_patch_agent_version @ ''-0''"]
    semver.cmp_flip [of w "min_windows_patch_agent_version @ ''-0''"]
  by (simp add: windows_agent_can_patch_def)

lemma windows_agent_gate_upward_closed_witness: "windows_agent_can_patch (Some ''2.1.4'')"
proof -
  have "windows_agent_can_patch (Some ''2.1.4-rc.2'')" and "compare_versions ''2.1.4-rc.2'' ''2.1.4'' \<le> 0"
    by code_simp+
  then show ?thesis by (rule windows_agent_gate_upward_closed) simp
qed

end
