(* ===== verification/RpmVersion.thy ===== *)
theory RpmVersion
  imports VersionOrder
begin

text \<open>
  RPM version comparison (\<open>internal/packages/rpm_version.go\<close> of the agent): \<open>rpmvercmp\<close> with its
  two index variables as the remaining strings, and the comparison of whole
  \<open>[epoch:]version-release\<close> strings.  The reference is a comparison of token lists: \<open>rpmvercmp\<close>
  compares the tokens of its arguments one by one, which makes it a total preorder.
\<close>

section \<open>The code\<close>

definition is_rpm_alpha :: "char \<Rightarrow> bool" where
  "is_rpm_alpha c \<longleftrightarrow> is_lower c \<or> is_upper c"

definition rpm_sep :: "char \<Rightarrow> bool" where
  "rpm_sep c \<longleftrightarrow> \<not> is_digit c \<and> \<not> is_rpm_alpha c \<and> c \<noteq> CHR ''~'' \<and> c \<noteq> CHR ''^''"

definition rpm_skip :: "string \<Rightarrow> string" where
  "rpm_skip s = dropWhile rpm_sep s"

definition starts_with :: "char \<Rightarrow> string \<Rightarrow> bool" where
  "starts_with c s \<longleftrightarrow> s \<noteq> [] \<and> hd s = c"

definition trim_zeros :: "string \<Rightarrow> string" where
  "trim_zeros s = dropWhile (\<lambda>c. c = CHR ''0'') s"

definition rpm_rest :: "string \<Rightarrow> string \<Rightarrow> int" where
  "rpm_rest a b = (if a = [] \<and> b = [] then 0 else if a = [] then - 1 else 1)"

lemma rpm_skip_length: "length (rpm_skip s) \<le> length s"
  by (simp add: rpm_skip_def length_dropWhile_le)

lemma tl_skip_length: "starts_with c (rpm_skip s) \<Longrightarrow> length (tl (rpm_skip s)) < length s"
  using rpm_skip_length [of s] by (cases "rpm_skip s") (auto simp: starts_with_def)

lemma drop_skip_length:
  "rpm_skip s \<noteq> [] \<Longrightarrow> cls (hd (rpm_skip s)) \<Longrightarrow> length (dropWhile cls (rpm_skip s)) < length s"
  using rpm_skip_length [of s] length_dropWhile_le [of cls "tl (rpm_skip s)"]
  by (cases "rpm_skip s") auto

lemma rpm_skip_hd: "rpm_skip s \<noteq> [] \<Longrightarrow> \<not> rpm_sep (hd (rpm_skip s))"
  unfolding rpm_skip_def by (rule hd_dropWhile)

function rpm_loop :: "string \<Rightarrow> string \<Rightarrow> int" where
  "rpm_loop a0 b0 =
     (if a0 = [] \<and> b0 = [] then rpm_rest [] []
      else let a = rpm_skip a0; b = rpm_skip b0
      in if starts_with CHR ''~'' a \<or> starts_with CHR ''~'' b then
           (if \<not> starts_with CHR ''~'' a then 1
            else if \<not> starts_with CHR ''~'' b then - 1
            else rpm_loop (tl a) (tl b))
         else if starts_with CHR ''^'' a \<or> starts_with CHR ''^'' b then
           (if a = [] then - 1
            else if b = [] then 1
            else if \<not> starts_with CHR ''^'' a then 1
            else if \<not> starts_with CHR ''^'' b then - 1
            else rpm_loop (tl a) (tl b))
         else if a = [] \<or> b = [] then rpm_rest a b
         else
           let numeric = is_digit (hd a);
               cls = (if numeric then is_digit else is_rpm_alpha);
               sa = takeWhile cls a; sb = takeWhile cls b
           in if sb = [] then (if numeric then 1 else - 1)
              else
                let ta = (if numeric then trim_zeros sa else sa);
                    tb = (if numeric then trim_zeros sb else sb)
                in if numeric \<and> length ta \<noteq> length tb then (if length ta > length tb then 1 else - 1)
                   else if str_compare ta tb \<noteq> 0 then str_compare ta tb
                   else rpm_loop (dropWhile cls a) (dropWhile cls b))"
  by pat_completeness auto
termination
proof (relation "measure (\<lambda>(a, b). length a + length b)", goal_cases)
  case (2 a0 b0 a b)
  then show ?case using tl_skip_length [of "CHR ''~''" a0] tl_skip_length [of "CHR ''~''" b0] by simp
next
  case (3 a0 b0 a b)
  then show ?case using tl_skip_length [of "CHR ''^''" a0] tl_skip_length [of "CHR ''^''" b0] by simp
next
  case (4 a0 b0 a b numeric cls sa sb ta tb)
  have "cls (hd a)"
    using 4 rpm_skip_hd [of a0] by (auto simp: rpm_sep_def starts_with_def)
  moreover have "length (dropWhile cls b) \<le> length b0"
    using 4 rpm_skip_length [of b0] length_dropWhile_le [of cls b] by simp
  ultimately show ?case using 4 drop_skip_length [of a0 cls] by simp
qed simp

declare rpm_loop.simps [simp del]

definition rpmvercmp :: "string \<Rightarrow> string \<Rightarrow> int" where
  "rpmvercmp a b = (if a = b then 0 else rpm_loop a b)"

definition split_rpm_evr :: "string \<Rightarrow> string \<times> string \<times> string" where
  "split_rpm_evr evr0 =
     (let (epoch, evr) = (case cut_on CHR '':'' evr0 of
            Some (e, rest) \<Rightarrow> (if e \<noteq> [] then e else ''0'', rest)
          | None \<Rightarrow> (''0'', evr0))
      in case cut_last CHR ''-'' evr of
           Some (v, r) \<Rightarrow> (epoch, v, r)
         | None \<Rightarrow> (epoch, evr, []))"

definition compare_rpm_evr :: "string \<Rightarrow> string \<Rightarrow> int" where
  "compare_rpm_evr a b =
     (let (ea, va, ra) = split_rpm_evr a; (eb, vb, rb) = split_rpm_evr b
      in if rpmvercmp ea eb \<noteq> 0 then rpmvercmp ea eb
         else if rpmvercmp va vb \<noteq> 0 then rpmvercmp va vb
         else if ra = [] \<or> rb = [] then 0
         else rpmvercmp ra rb)"

section \<open>The reference: tokens\<close>

text \<open>In this order: a tilde ranks below the end, the end below a caret, then letters, then numbers.\<close>

datatype rpm_token = Tilde | Finish | Caret | Alpha string | Num nat

fun rpm_rank :: "rpm_token \<Rightarrow> nat" where
  "rpm_rank Tilde = 0"
| "rpm_rank Finish = 1"
| "rpm_rank Caret = 2"
| "rpm_rank (Alpha s) = 3"
| "rpm_rank (Num n) = 4"

definition rpm_token_cmp :: "rpm_token \<Rightarrow> rpm_token \<Rightarrow> int" where
  "rpm_token_cmp x y =
     (case (x, y) of
        (Alpha s, Alpha t) \<Rightarrow> str_compare s t
      | (Num m, Num n) \<Rightarrow> order_cmp m n
      | _ \<Rightarrow> order_cmp (rpm_rank x) (rpm_rank y))"

function rpm_tokens :: "string \<Rightarrow> rpm_token list" where
  "rpm_tokens s0 =
     (let s = rpm_skip s0
      in if s = [] then [Finish]
         else if starts_with CHR ''~'' s then Tilde # rpm_tokens (tl s)
         else if starts_with CHR ''^'' s then Caret # rpm_tokens (tl s)
         else if is_digit (hd s) then Num (nat_of_digits (takeWhile is_digit s)) # rpm_tokens (dropWhile is_digit s)
         else Alpha (takeWhile is_rpm_alpha s) # rpm_tokens (dropWhile is_rpm_alpha s))"
  by pat_completeness auto
termination
proof (relation "measure length", goal_cases)
  case (5 s0 s)
  then have "is_rpm_alpha (hd s)" using rpm_skip_hd [of s0] by (auto simp: rpm_sep_def starts_with_def)
  with 5 show ?case using drop_skip_length [of s0 is_rpm_alpha] by simp
qed (use tl_skip_length drop_skip_length in auto)

declare rpm_tokens.simps [simp del]

lemma three_way_rpm_token: "three_way (\<lambda>_. True) rpm_token_cmp"
proof
  fix a b c
  show "rpm_token_cmp a b \<in> {- 1, 0, 1}"
    by (cases a; cases b) (simp_all add: rpm_token_cmp_def order_cmp_def str_compare_def)
  show "rpm_token_cmp b a = - rpm_token_cmp a b"
    by (cases a; cases b) (auto simp: rpm_token_cmp_def order_cmp_def str_compare_def)
  show "rpm_token_cmp a b \<le> 0 \<Longrightarrow> rpm_token_cmp b c \<le> 0 \<Longrightarrow> rpm_token_cmp a c \<le> 0"
    by (cases a; cases b; cases c)
      (auto simp: rpm_token_cmp_def order_cmp_def str_compare_def split: if_splits)
qed

lemma rpm_token_cmp_simps [simp]:
  "rpm_token_cmp Tilde Tilde = 0" "rpm_token_cmp Caret Caret = 0" "rpm_token_cmp Finish Finish = 0"
  "rpm_token_cmp Tilde Finish = - 1" "rpm_token_cmp Tilde Caret = - 1"
  "rpm_token_cmp Tilde (Alpha s) = - 1" "rpm_token_cmp Tilde (Num n) = - 1"
  "rpm_token_cmp Finish Tilde = 1" "rpm_token_cmp Caret Tilde = 1"
  "rpm_token_cmp (Alpha s) Tilde = 1" "rpm_token_cmp (Num n) Tilde = 1"
  "rpm_token_cmp Finish Caret = - 1" "rpm_token_cmp Finish (Alpha s) = - 1" "rpm_token_cmp Finish (Num n) = - 1"
  "rpm_token_cmp Caret Finish = 1" "rpm_token_cmp (Alpha s) Finish = 1" "rpm_token_cmp (Num n) Finish = 1"
  "rpm_token_cmp Caret (Alpha s) = - 1" "rpm_token_cmp Caret (Num n) = - 1"
  "rpm_token_cmp (Alpha s) Caret = 1" "rpm_token_cmp (Num n) Caret = 1"
  by (simp_all add: rpm_token_cmp_def order_cmp_def)

section \<open>Numbers as digit strings\<close>

lemma nat_of_digits_from:
  "foldl (\<lambda>n c. n * 10 + digit_val c) m ds = m * 10 ^ length ds + nat_of_digits ds"
proof (induction ds arbitrary: m)
  case Nil
  then show ?case by (simp add: nat_of_digits_def)
next
  case (Cons d ds)
  have "nat_of_digits (d # ds) = digit_val d * 10 ^ length ds + nat_of_digits ds"
    using Cons.IH [of "0 * 10 + digit_val d"] by (simp add: nat_of_digits_def [of "d # ds"])
  then show ?case
    using Cons.IH [of "m * 10 + digit_val d"] by (simp add: algebra_simps)
qed

lemma nat_of_digits_simps [simp]:
  "nat_of_digits [] = 0"
  "nat_of_digits (d # ds) = digit_val d * 10 ^ length ds + nat_of_digits ds"
  using nat_of_digits_from [of "digit_val d" ds] by (simp_all add: nat_of_digits_def)

lemma digit_val_bound: "is_digit c \<Longrightarrow> digit_val c \<le> 9"
  by (simp add: is_digit_def digit_val_def Let_def le_diff_conv)

lemma nat_of_digits_bound: "list_all is_digit ds \<Longrightarrow> nat_of_digits ds < 10 ^ length ds"
proof (induction ds)
  case (Cons d ds)
  then have "digit_val d * 10 ^ length ds \<le> 9 * 10 ^ length ds"
    by (intro mult_le_mono1 digit_val_bound) simp
  moreover have "nat_of_digits ds < 10 ^ length ds" using Cons by simp
  ultimately show ?case by (simp only: nat_of_digits_simps list.size power_Suc add_Suc_right add_0_right)
qed simp

lemma nat_of_digits_trim [simp]: "nat_of_digits (trim_zeros s) = nat_of_digits s"
  by (induction s) (simp_all add: trim_zeros_def digit_val_def)

lemma digit_less: "is_digit c \<Longrightarrow> is_digit d \<Longrightarrow> c < d \<longleftrightarrow> digit_val c < digit_val d"
  by (auto simp: is_digit_def digit_val_def Let_def less_char_def)

lemma digit_eq: "is_digit c \<Longrightarrow> is_digit d \<Longrightarrow> digit_val c = digit_val d \<longleftrightarrow> c = d"
  using digit_less [of c d] digit_less [of d c] by (metis less_irrefl neqE)

lemma digits_compare_same_length:
  "list_all is_digit a \<Longrightarrow> list_all is_digit b \<Longrightarrow> length a = length b
     \<Longrightarrow> str_compare a b = order_cmp (nat_of_digits a) (nat_of_digits b)"
proof (induction a arbitrary: b)
  case (Cons x xs)
  then obtain y ys where b: "b = y # ys" by (cases b) auto
  have d: "is_digit x" "is_digit y" and len: "length xs = length ys" using Cons.prems b by auto
  have bx: "nat_of_digits xs < 10 ^ length ys" "nat_of_digits ys < 10 ^ length ys"
    using nat_of_digits_bound Cons.prems b len by force+
  have gap: "m < n \<Longrightarrow> m * 10 ^ k + u < n * 10 ^ k + w" if "u < 10 ^ k" for m n k u w :: nat
  proof -
    assume "m < n"
    then have "(m + 1) * 10 ^ k \<le> n * 10 ^ k" by (intro mult_le_mono1) simp
    with that show ?thesis by simp
  qed
  consider "x < y" | "y < x" | "x = y" by (metis neqE)
  then show ?case
  proof cases
    case 1
    then show ?thesis
      using gap [OF bx(1), of "digit_val x" "digit_val y" "nat_of_digits ys"] d len
      by (simp add: b str_compare_def order_cmp_def digit_less)
  next
    case 2
    then show ?thesis
      using gap [OF bx(2), of "digit_val y" "digit_val x" "nat_of_digits xs"] d len
      by (auto simp: b str_compare_def order_cmp_def digit_less)
  next
    case 3
    with Cons.IH [of ys] Cons.prems b show ?thesis by (auto simp: str_compare_def order_cmp_def split: if_splits)
  qed
qed (simp add: str_compare_def order_cmp_def)

lemma trimmed_lower_bound:
  assumes "list_all is_digit s" and "trim_zeros s \<noteq> []"
  shows "10 ^ (length (trim_zeros s) - 1) \<le> nat_of_digits s"
proof -
  obtain d ds where t: "trim_zeros s = d # ds" using assms(2) by (cases "trim_zeros s") auto
  have "d \<noteq> CHR ''0''" using t hd_dropWhile [of "\<lambda>c. c = CHR ''0''" s] assms(2)
    by (simp add: trim_zeros_def)
  moreover have "is_digit d"
    using assms(1) t set_dropWhileD [of d "\<lambda>c. c = CHR ''0''" s] by (auto simp: trim_zeros_def list_all_iff)
  moreover have "digit_val CHR ''0'' = 0" "is_digit CHR ''0''" by (simp_all add: digit_val_def is_digit_def)
  ultimately have "1 \<le> digit_val d" using digit_eq [of d "CHR ''0''"] by (metis One_nat_def Suc_leI neq0_conv)
  then have "1 * 10 ^ length ds \<le> digit_val d * 10 ^ length ds" by (intro mult_le_mono1)
  moreover have "nat_of_digits s = digit_val d * 10 ^ length ds + nat_of_digits ds"
    using nat_of_digits_trim [of s] unfolding t by simp
  ultimately show ?thesis unfolding t by (simp only: list.size add_Suc_right add_0_right diff_Suc_1)
qed

lemma trimmed_digits: "list_all is_digit s \<Longrightarrow> list_all is_digit (trim_zeros s)"
  by (auto simp: trim_zeros_def list_all_iff dest: set_dropWhileD)

lemma shorter_is_smaller:
  assumes "list_all is_digit a" "list_all is_digit b" and l: "length (trim_zeros a) < length (trim_zeros b)"
  shows "nat_of_digits a < nat_of_digits b"
proof -
  have "nat_of_digits (trim_zeros a) < 10 ^ length (trim_zeros a)"
    by (rule nat_of_digits_bound [OF trimmed_digits [OF assms(1)]])
  also have "\<dots> \<le> 10 ^ (length (trim_zeros b) - 1)" using l by (intro power_increasing) auto
  also have "\<dots> \<le> nat_of_digits b" using l by (intro trimmed_lower_bound assms) auto
  finally show ?thesis by simp
qed

lemma digits_compare:
  assumes "list_all is_digit a" "list_all is_digit b"
  shows "(if length (trim_zeros a) \<noteq> length (trim_zeros b)
          then (if length (trim_zeros a) > length (trim_zeros b) then 1 else - 1)
          else str_compare (trim_zeros a) (trim_zeros b))
       = order_cmp (nat_of_digits a) (nat_of_digits b)"
proof -
  consider "length (trim_zeros a) < length (trim_zeros b)" | "length (trim_zeros b) < length (trim_zeros a)"
    | "length (trim_zeros a) = length (trim_zeros b)" by linarith
  then show ?thesis
  proof cases
    case 3
    then show ?thesis
      using digits_compare_same_length [OF trimmed_digits [OF assms(1)] trimmed_digits [OF assms(2)]] by simp
  qed (use shorter_is_smaller [OF assms] shorter_is_smaller [OF assms(2,1)] in \<open>auto simp: order_cmp_def\<close>)
qed

section \<open>The loop compares tokens\<close>

lemma takeWhile_digits: "list_all is_digit (takeWhile is_digit s)"
  by (auto simp: list_all_iff dest: set_takeWhileD)

lemma digit_not_alpha: "is_digit c \<Longrightarrow> \<not> is_rpm_alpha c"
  by (auto simp: is_digit_def is_rpm_alpha_def is_lower_def is_upper_def Let_def)

lemma rpm_tokens_skip:
  "rpm_tokens s = (let t = rpm_skip s
      in if t = [] then [Finish]
         else if starts_with CHR ''~'' t then Tilde # rpm_tokens (tl t)
         else if starts_with CHR ''^'' t then Caret # rpm_tokens (tl t)
         else if is_digit (hd t) then Num (nat_of_digits (takeWhile is_digit t)) # rpm_tokens (dropWhile is_digit t)
         else Alpha (takeWhile is_rpm_alpha t) # rpm_tokens (dropWhile is_rpm_alpha t))"
  by (rule rpm_tokens.simps)

lemma rpm_tokens_Nil: "rpm_tokens [] = [Finish]"
  by (simp add: rpm_tokens.simps [of "[]"] rpm_skip_def)

text \<open>The segments at the head of two strings, compared as the loop does.\<close>

lemma segment_compare:
  assumes a: "a \<noteq> []" "\<not> rpm_sep (hd a)" "\<not> starts_with CHR ''~'' a" "\<not> starts_with CHR ''^'' a"
    and b: "b \<noteq> []" "\<not> rpm_sep (hd b)" "\<not> starts_with CHR ''~'' b" "\<not> starts_with CHR ''^'' b"
    and cls: "cls = (if is_digit (hd a) then is_digit else is_rpm_alpha)"
  defines "ta \<equiv> (if is_digit (hd a) then trim_zeros (takeWhile cls a) else takeWhile cls a)"
    and "tb \<equiv> (if is_digit (hd a) then trim_zeros (takeWhile cls b) else takeWhile cls b)"
    and "tok \<equiv> (\<lambda>s. if is_digit (hd s) then Num (nat_of_digits (takeWhile is_digit s)) else Alpha (takeWhile is_rpm_alpha s))"
  shows "rpm_token_cmp (tok a) (tok b) =
      (if takeWhile cls b = [] then (if is_digit (hd a) then 1 else - 1)
       else if is_digit (hd a) \<and> length ta \<noteq> length tb then (if length ta > length tb then 1 else - 1)
       else str_compare ta tb)"
    and "takeWhile cls b \<noteq> [] \<Longrightarrow> is_digit (hd b) = is_digit (hd a)"
proof -
  have hb: "is_digit (hd b) \<or> is_rpm_alpha (hd b)" using b by (auto simp: rpm_sep_def starts_with_def)
  have tw: "takeWhile cls b = [] \<longleftrightarrow> \<not> cls (hd b)" using b(1) by (cases b) auto
  show same: "takeWhile cls b \<noteq> [] \<Longrightarrow> is_digit (hd b) = is_digit (hd a)"
    using tw cls hb digit_not_alpha by (auto split: if_splits)
  show "rpm_token_cmp (tok a) (tok b) =
      (if takeWhile cls b = [] then (if is_digit (hd a) then 1 else - 1)
       else if is_digit (hd a) \<and> length ta \<noteq> length tb then (if length ta > length tb then 1 else - 1)
       else str_compare ta tb)"
  proof (cases "takeWhile cls b = []")
    case True
    then have "is_digit (hd b) \<noteq> is_digit (hd a)"
      using tw cls hb digit_not_alpha by (auto split: if_splits)
    with True show ?thesis by (auto simp: tok_def rpm_token_cmp_def order_cmp_def)
  next
    case False
    with same have s: "is_digit (hd b) = is_digit (hd a)" by blast
    show ?thesis
    proof (cases "is_digit (hd a)")
      case True
      then show ?thesis
        using False s
        by (simp add: tok_def rpm_token_cmp_def cls ta_def tb_def
            digits_compare [OF takeWhile_digits takeWhile_digits, of a b, symmetric])
    next
      case na: False
      with False s show ?thesis by (simp add: tok_def rpm_token_cmp_def cls ta_def tb_def)
    qed
  qed
qed

lemma rpm_loop_tokens: "rpm_loop a0 b0 = lex_cmp rpm_token_cmp (rpm_tokens a0) (rpm_tokens b0)"
proof (induction a0 b0 rule: rpm_loop.induct)
  case (1 a0 b0)
  show ?case
  proof (cases "a0 = [] \<and> b0 = []")
    case True
    then show ?thesis
      by (simp add: rpm_loop.simps [of "[]" "[]"] rpm_tokens_Nil rpm_rest_def)
  next
    case ne: False
    define a where "a = rpm_skip a0"
    define b where "b = rpm_skip b0"
    have sa: "a \<noteq> [] \<Longrightarrow> \<not> rpm_sep (hd a)" and sb: "b \<noteq> [] \<Longrightarrow> \<not> rpm_sep (hd b)"
      unfolding a_def b_def by (rule rpm_skip_hd, assumption)+
    note loop = rpm_loop.simps [of a0 b0, unfolded if_not_P [OF ne], folded a_def b_def, unfolded Let_def]
    note toks = rpm_tokens_skip [of a0, folded a_def, unfolded Let_def] rpm_tokens_skip [of b0, folded b_def, unfolded Let_def]
    have sw: "starts_with c s \<Longrightarrow> s \<noteq> []" for c s by (simp add: starts_with_def)
    show ?thesis
    proof (cases "starts_with CHR ''~'' a \<or> starts_with CHR ''~'' b")
      case tilde: True
      show ?thesis
      proof (cases "starts_with CHR ''~'' a \<and> starts_with CHR ''~'' b")
        case True
        with 1(1) [OF ne a_def b_def tilde] show ?thesis
          using ne True by (auto simp: loop toks dest: sw)
      next
        case False
        with tilde ne show ?thesis
          by (auto simp: loop toks dest: sw)
      qed
    next
      case nt: False
      show ?thesis
      proof (cases "starts_with CHR ''^'' a \<or> starts_with CHR ''^'' b")
        case caret: True
        show ?thesis
        proof (cases "starts_with CHR ''^'' a \<and> starts_with CHR ''^'' b")
          case True
          with 1(2) [OF ne a_def b_def nt caret] show ?thesis
            using ne nt True by (auto simp: loop toks dest: sw)
        next
          case False
          with caret nt ne show ?thesis
            by (auto simp: loop toks dest: sw)
        qed
      next
        case nc: False
        show ?thesis
        proof (cases "a = [] \<or> b = []")
          case True
          with nt nc ne show ?thesis
            by (auto simp: loop toks rpm_rest_def)
        next
          case full: False
          then have full': "a \<noteq> []" "b \<noteq> []" by auto
          define cls where "cls = (if is_digit (hd a) then is_digit else is_rpm_alpha)"
          define ta where "ta = (if is_digit (hd a) then trim_zeros (takeWhile cls a) else takeWhile cls a)"
          define tb where "tb = (if is_digit (hd a) then trim_zeros (takeWhile cls b) else takeWhile cls b)"
          have nta: "\<not> starts_with CHR ''~'' a" "\<not> starts_with CHR ''~'' b"
            "\<not> starts_with CHR ''^'' a" "\<not> starts_with CHR ''^'' b" using nt nc by auto
          note seg = segment_compare [OF full'(1) sa [OF full'(1)] nta(1,3) full'(2) sb [OF full'(2)] nta(2,4) cls_def,
              folded ta_def tb_def]
          have L: "rpm_loop a0 b0 =
             (if takeWhile cls b = [] then (if is_digit (hd a) then 1 else - 1)
              else if is_digit (hd a) \<and> length ta \<noteq> length tb then (if length ta > length tb then 1 else - 1)
              else if str_compare ta tb \<noteq> 0 then str_compare ta tb
              else rpm_loop (dropWhile cls a) (dropWhile cls b))"
            unfolding loop using ne nt nc full nta by (simp add: cls_def ta_def tb_def)
          have T: "rpm_tokens a0 = (if is_digit (hd a) then Num (nat_of_digits (takeWhile is_digit a)) else Alpha (takeWhile is_rpm_alpha a)) # rpm_tokens (dropWhile cls a)"
            using full' nta by (simp add: toks cls_def)
          have Tb: "rpm_tokens b0 = (if is_digit (hd b) then Num (nat_of_digits (takeWhile is_digit b)) else Alpha (takeWhile is_rpm_alpha b))
              # rpm_tokens (if is_digit (hd b) then dropWhile is_digit b else dropWhile is_rpm_alpha b)"
            using full' nta by (simp add: toks)
          show ?thesis
          proof (cases "takeWhile cls b = [] \<or> is_digit (hd a) \<and> length ta \<noteq> length tb \<or> str_compare ta tb \<noteq> 0")
            case True
            then show ?thesis unfolding L T Tb lex_cmp.simps seg(1) by auto
          next
            case False
            then have ih: "rpm_loop (dropWhile cls a) (dropWhile cls b)
                = lex_cmp rpm_token_cmp (rpm_tokens (dropWhile cls a)) (rpm_tokens (dropWhile cls b))"
              by (intro 1(3) [OF ne a_def b_def nt nc full refl cls_def refl refl _ ta_def tb_def]) auto
            have "dropWhile cls b = (if is_digit (hd b) then dropWhile is_digit b else dropWhile is_rpm_alpha b)"
              using seg(2) False by (simp add: cls_def)
            with False ih show ?thesis unfolding L T Tb lex_cmp.simps seg(1) by simp
          qed
        qed
      qed
    qed
  qed
qed

section \<open>Properties\<close>

lemma rpmvercmp_tokens: "rpmvercmp a b = lex_cmp rpm_token_cmp (rpm_tokens a) (rpm_tokens b)"
  using three_way.cmp_refl [OF three_way_lex [OF three_way_rpm_token], of "rpm_tokens b"]
  by (simp add: rpmvercmp_def rpm_loop_tokens list_all_iff)

interpretation rpm: three_way "\<lambda>_. True" rpmvercmp
proof -
  have "three_way (\<lambda>_. True) (\<lambda>a b. lex_cmp rpm_token_cmp (rpm_tokens a) (rpm_tokens b))"
    by (rule three_way_key [OF three_way_lex [OF three_way_rpm_token]]) (simp add: list_all_iff)
  then show "three_way (\<lambda>_. True) rpmvercmp"
    by (rule three_way_cong) (simp add: rpmvercmp_tokens)
qed

text \<open>
  C37: The agent's rpmvercmp is the comparison of token lists: separators only separate, numbers
  compare by value whatever their length and leading zeros, a tilde ranks below the end, the end
  below a caret, a caret below letters, letters below numbers.
\<close>

theorem rpmvercmp_compares_tokens:
  "rpmvercmp a b = lex_cmp rpm_token_cmp (rpm_tokens a) (rpm_tokens b)"
  by (rule rpmvercmp_tokens)

text \<open>
  rpmvercmp is a total preorder on all strings, and comparing whole epoch:version-release
  strings never depends on the order of the arguments.
\<close>

lemma rpm_order_laws:
  "rpmvercmp a b \<in> {- 1, 0, 1} \<and> rpmvercmp b a = - rpmvercmp a b
   \<and> (rpmvercmp a b \<le> 0 \<longrightarrow> rpmvercmp b c \<le> 0 \<longrightarrow> rpmvercmp a c \<le> 0)
   \<and> compare_rpm_evr b a = - compare_rpm_evr a b"
proof -
  have flip: "rpmvercmp y x = - rpmvercmp x y" for x y by (rule rpm.cmp_flip) simp_all
  have "compare_rpm_evr b a = - compare_rpm_evr a b"
    by (simp add: compare_rpm_evr_def case_prod_beta Let_def flip [of "fst (split_rpm_evr b)"]
        flip [of "fst (snd (split_rpm_evr b))"] flip [of "snd (snd (split_rpm_evr b))"])
  then show ?thesis
    using rpm.cmp_range [OF TrueI TrueI, of a b] flip rpm.cmp_le_trans [OF TrueI TrueI TrueI, of a b c] by blast
qed

lemma rpm_order_laws_witness: "rpmvercmp ''1.0~rc1'' ''1.0.1'' \<le> 0"
proof -
  have "rpmvercmp ''1.0~rc1'' ''1.0'' \<le> 0" and "rpmvercmp ''1.0'' ''1.0.1'' \<le> 0" by code_simp+
  then show ?thesis using rpm_order_laws [of "''1.0~rc1''" "''1.0''" "''1.0.1''"] by blast
qed

end
