(* ===== verification/ApkVersion.thy ===== *)
theory ApkVersion
  imports VersionOrder
begin

text \<open>
  Alpine version comparison (\<open>internal/packages/apk_version.go\<close> of the agent): the lexer with its
  token kinds in the order of the Go constants, token comparison for apk-tools 3 and 2, validity,
  and the comparison loop.  Numbers are 64-bit unsigned and wrap, as \<open>n*10 + digit\<close> does in Go.

  The reference is again a comparison of token lists.  The loop terminates because every step
  consumes input or ends the token stream.
\<close>

section \<open>Tokens\<close>

text \<open>\<open>apkToken...\<close> and \<open>apkSuffix...\<close> count from 0.\<close>

definition tok_initial_digit :: nat where "tok_initial_digit = 0"
definition tok_digit :: nat where "tok_digit = 1"
definition tok_letter :: nat where "tok_letter = 2"
definition tok_suffix :: nat where "tok_suffix = 3"
definition tok_suffix_no :: nat where "tok_suffix_no = 4"
definition tok_commit_hash :: nat where "tok_commit_hash = 5"
definition tok_revision_no :: nat where "tok_revision_no = 6"
definition tok_end :: nat where "tok_end = 7"
definition tok_invalid :: nat where "tok_invalid = 8"

lemmas tok_defs = tok_initial_digit_def tok_digit_def tok_letter_def tok_suffix_def tok_suffix_no_def
  tok_commit_hash_def tok_revision_no_def tok_end_def tok_invalid_def

definition suffix_none :: nat where "suffix_none = 5"

definition apk_suffix_values :: "(string \<times> nat) list" where
  "apk_suffix_values =
     [(''alpha'', 1), (''beta'', 2), (''pre'', 3), (''rc'', 4), (''cvs'', 6), (''svn'', 7), (''git'', 8),
      (''hg'', 9), (''p'', 10)]"

definition suffix_value :: "string \<Rightarrow> nat" where
  "suffix_value s = (case map_of apk_suffix_values s of None \<Rightarrow> 0 | Some v \<Rightarrow> v)"

record apk_token =
  tk_kind :: nat
  tk_suffix :: nat
  tk_number :: "64 word"
  tk_value :: string

record apk_lexer =
  lx_s :: string
  lx_t :: apk_token

definition number_of :: "string \<Rightarrow> 64 word" where
  "number_of ds = foldl (\<lambda>n c. n * 10 + of_nat (digit_val c)) 0 ds"

section \<open>The lexer\<close>

definition lex_digits :: "apk_lexer \<Rightarrow> apk_lexer" where
  "lex_digits l =
     (let v = takeWhile is_digit (lx_s l);
          t = (lx_t l)\<lparr>tk_number := number_of v, tk_value := v\<rparr>
      in l\<lparr>lx_s := dropWhile is_digit (lx_s l),
           lx_t := (if v = [] then t\<lparr>tk_kind := tok_invalid\<rparr> else t)\<rparr>)"

definition lex_invalid :: "apk_lexer \<Rightarrow> apk_lexer" where
  "lex_invalid l = l\<lparr>lx_t := (lx_t l)\<lparr>tk_kind := tok_invalid\<rparr>\<rparr>"

definition lex_next :: "apk_lexer \<Rightarrow> apk_lexer" where
  "lex_next l =
     (let t = lx_t l; kind = tk_kind t
      in case lx_s l of
           [] \<Rightarrow> l\<lparr>lx_t := t\<lparr>tk_kind := tok_end\<rparr>\<rparr>
         | c # rest \<Rightarrow>
             if is_lower c then
               (if kind > tok_digit then lex_invalid l
                else l\<lparr>lx_s := rest, lx_t := t\<lparr>tk_kind := tok_letter, tk_value := [c]\<rparr>\<rparr>)
             else if c = CHR ''.'' then
               (if kind > tok_digit then lex_invalid l
                else lex_digits (l\<lparr>lx_s := rest, lx_t := t\<lparr>tk_kind := tok_digit\<rparr>\<rparr>))
             else if c = CHR ''_'' then
               (if kind > tok_suffix_no then lex_invalid l
                else let v = takeWhile is_lower rest;
                         t1 = t\<lparr>tk_value := v, tk_suffix := suffix_value v\<rparr>
                     in l\<lparr>lx_s := dropWhile is_lower rest,
                          lx_t := (if suffix_value v = 0 then t1\<lparr>tk_kind := tok_invalid\<rparr>
                                   else t1\<lparr>tk_kind := tok_suffix\<rparr>)\<rparr>)
             else if is_digit c then
               (if kind \<noteq> tok_suffix then lex_invalid l
                else lex_digits (l\<lparr>lx_t := t\<lparr>tk_kind := tok_suffix_no\<rparr>\<rparr>))
             else if c = CHR ''~'' then
               (if kind \<ge> tok_commit_hash then lex_invalid l
                else let v = takeWhile is_hex_digit rest; t1 = t\<lparr>tk_value := v\<rparr>
                     in l\<lparr>lx_s := dropWhile is_hex_digit rest,
                          lx_t := (if v = [] then t1\<lparr>tk_kind := tok_invalid\<rparr>
                                   else t1\<lparr>tk_kind := tok_commit_hash\<rparr>)\<rparr>)
             else if c = CHR ''-'' then
               (if kind \<ge> tok_revision_no \<or> \<not> has_prefix (lx_s l) ''-r'' then lex_invalid l
                else lex_digits (l\<lparr>lx_s := drop 2 (lx_s l), lx_t := t\<lparr>tk_kind := tok_revision_no\<rparr>\<rparr>))
             else lex_invalid l)"

definition lex_start :: "string \<Rightarrow> apk_lexer" where
  "lex_start s =
     lex_digits \<lparr>lx_s = s, lx_t = \<lparr>tk_kind = tok_initial_digit, tk_suffix = 0, tk_number = 0, tk_value = []\<rparr>\<rparr>"

section \<open>Comparison\<close>

definition legacy_key :: "string \<Rightarrow> int \<times> 64 word \<times> bool" where
  "legacy_key s =
     (let zeros = length (takeWhile (\<lambda>c. c = CHR ''0'') s); n = number_of (drop zeros s)
      in if zeros = 0 then (int (min (unat n) (2 ^ 31)), 0, False)
         else (- int zeros, n, zeros < length s))"

definition cmp_int :: "int \<Rightarrow> int \<Rightarrow> int" where
  "cmp_int a b = (if a < b then - 1 else if a > b then 1 else 0)"

definition legacy_leading_zero_compare :: "string \<Rightarrow> string \<Rightarrow> int" where
  "legacy_leading_zero_compare a b =
     (let (ka, ra, hasA) = legacy_key a; (kb, rb, hasB) = legacy_key b
      in if ka \<noteq> kb then cmp_int ka kb
         else if hasA \<noteq> hasB then (if hasA then 1 else - 1)
         else if ra < rb then - 1 else if ra > rb then 1 else 0)"

definition word_cmp :: "64 word \<Rightarrow> 64 word \<Rightarrow> int" where
  "word_cmp x y = (if x < y then - 1 else if x > y then 1 else 0)"

definition apk_token_compare :: "bool \<Rightarrow> apk_token \<Rightarrow> apk_token \<Rightarrow> int" where
  "apk_token_compare legacy a b =
     (let kind = tk_kind a
      in if kind = tok_digit \<and> (has_prefix (tk_value a) ''0'' \<or> has_prefix (tk_value b) ''0'') then
           (if legacy then legacy_leading_zero_compare (tk_value a) (tk_value b)
            else str_compare (tk_value a) (tk_value b))
         else if kind \<in> {tok_digit, tok_initial_digit, tok_suffix_no, tok_revision_no} then
           word_cmp (tk_number a) (tk_number b)
         else if kind = tok_letter then
           word_cmp (of_nat (of_char (hd (tk_value a)))) (of_nat (of_char (hd (tk_value b))))
         else if kind = tok_suffix then word_cmp (of_nat (tk_suffix a)) (of_nat (tk_suffix b))
         else str_compare (tk_value a) (tk_value b))"

text \<open>How the loop ends: at the first tokens of different kind.\<close>

definition apk_last :: "apk_token \<Rightarrow> apk_token \<Rightarrow> int" where
  "apk_last a b =
     (if tk_kind a = tk_kind b then 0
      else if tk_kind a = tok_suffix \<and> tk_suffix a < suffix_none then - 1
      else if tk_kind b = tok_suffix \<and> tk_suffix b < suffix_none then 1
      else if tk_kind a > tk_kind b then - 1 else 1)"

text \<open>What is left to lex decreases: a step shortens the input or leaves a kind past the last token.\<close>

definition lex_left :: "apk_lexer \<Rightarrow> nat" where
  "lex_left l = (if tk_kind (lx_t l) < tok_end then Suc (length (lx_s l)) else 0)"

lemma lex_digits_left:
  "tk_kind (lx_t l) < tok_end \<Longrightarrow> lex_left (lex_digits l) \<le> Suc (length (dropWhile is_digit (lx_s l)))"
  by (simp add: lex_left_def lex_digits_def Let_def tok_defs)

lemma lex_digits_consumes:
  "lx_s l = c # cs \<Longrightarrow> is_digit c \<Longrightarrow> lex_left (lex_digits l) \<le> Suc (length cs)"
  using length_dropWhile_le [of is_digit cs] by (simp add: lex_left_def lex_digits_def Let_def tok_defs)

lemma lex_next_left:
  assumes k: "tk_kind (lx_t l) < tok_end"
  shows "lex_left (lex_next l) < lex_left l"
proof (cases "lx_s l")
  case Nil
  with k show ?thesis by (simp add: lex_next_def lex_left_def tok_defs Let_def)
next
  case (Cons c rest)
  note le = length_dropWhile_le [of is_digit rest] length_dropWhile_le [of is_lower rest]
    length_dropWhile_le [of is_hex_digit rest] length_dropWhile_le [of is_digit "tl rest"]
  have two: "drop 2 (c # rest) = tl rest" by (cases rest) simp_all
  have dr: "length (dropWhile is_digit (drop (Suc 0) rest)) \<le> length rest"
    using length_dropWhile_le [of is_digit "drop (Suc 0) rest"] by simp
  show ?thesis
    using Cons k le dr
    by (auto simp: lex_next_def lex_left_def lex_digits_def lex_invalid_def Let_def tok_defs two split: if_splits)
qed

function apk_compare_loop :: "bool \<Rightarrow> apk_lexer \<Rightarrow> apk_lexer \<Rightarrow> int" where
  "apk_compare_loop legacy la lb =
     (if tk_kind (lx_t la) = tk_kind (lx_t lb) \<and> tk_kind (lx_t la) < tok_end then
        (if apk_token_compare legacy (lx_t la) (lx_t lb) \<noteq> 0 then apk_token_compare legacy (lx_t la) (lx_t lb)
         else apk_compare_loop legacy (lex_next la) (lex_next lb))
      else apk_last (lx_t la) (lx_t lb))"
  by pat_completeness auto
termination
  by (relation "measure (\<lambda>(legacy, la, lb). lex_left la)") (auto simp: lex_next_left)

declare apk_compare_loop.simps [simp del]

definition compare_apk :: "bool \<Rightarrow> string \<Rightarrow> string \<Rightarrow> int" where
  "compare_apk legacy a b = apk_compare_loop legacy (lex_start a) (lex_start b)"

definition apk_version_comparer :: "int \<Rightarrow> string \<Rightarrow> string \<Rightarrow> int" where
  "apk_version_comparer apk_major = (if apk_major = 2 then compare_apk True else compare_apk False)"

function apk_valid_loop :: "apk_lexer \<Rightarrow> bool" where
  "apk_valid_loop l =
     (if tk_kind (lx_t l) < tok_end then apk_valid_loop (lex_next l) else tk_kind (lx_t l) = tok_end)"
  by pat_completeness auto
termination
  by (relation "measure lex_left") (auto simp: lex_next_left)

declare apk_valid_loop.simps [simp del]

definition apk_version_valid :: "string \<Rightarrow> bool" where
  "apk_version_valid v = apk_valid_loop (lex_start v)"

section \<open>The reference: token streams\<close>

function apk_tokens :: "apk_lexer \<Rightarrow> apk_token list" where
  "apk_tokens l = lx_t l # (if tk_kind (lx_t l) < tok_end then apk_tokens (lex_next l) else [])"
  by pat_completeness auto
termination
  by (relation "measure lex_left") (auto simp: lex_next_left)

declare apk_tokens.simps [simp del]

definition apk_order :: "bool \<Rightarrow> apk_token \<Rightarrow> apk_token \<Rightarrow> int" where
  "apk_order legacy a b =
     (if tk_kind a = tk_kind b
      then (if tk_kind a < tok_end then apk_token_compare legacy a b else 0)
      else apk_last a b)"

lemma apk_last_nonzero: "tk_kind a \<noteq> tk_kind b \<Longrightarrow> apk_last a b \<noteq> 0"
  by (simp add: apk_last_def)

lemma apk_compare_loop_tokens:
  "apk_compare_loop legacy la lb = lex_cmp (apk_order legacy) (apk_tokens la) (apk_tokens lb)"
proof (induction legacy la lb rule: apk_compare_loop.induct)
  case (1 legacy la lb)
  show ?case
  proof (cases "tk_kind (lx_t la) = tk_kind (lx_t lb)")
    case True
    then show ?thesis
      using 1 by (simp add: apk_compare_loop.simps [of legacy la lb] apk_tokens.simps [of la] apk_tokens.simps [of lb]
          apk_order_def apk_last_def)
  next
    case False
    then show ?thesis
      by (simp add: apk_compare_loop.simps [of legacy la lb] apk_tokens.simps [of la] apk_tokens.simps [of lb]
          apk_order_def apk_last_nonzero)
  qed
qed

text \<open>What the lexer guarantees of the tokens it compares.\<close>

definition token_ok :: "apk_token \<Rightarrow> bool" where
  "token_ok t \<longleftrightarrow> tk_kind t \<le> tok_invalid
     \<and> (tk_kind t = tok_digit \<longrightarrow> tk_value t \<noteq> [] \<and> list_all is_digit (tk_value t))
     \<and> (tk_kind t = tok_suffix \<longrightarrow> tk_suffix t \<le> 10)"

lemma suffix_value_le: "suffix_value s \<le> 10"
  by (simp add: suffix_value_def apk_suffix_values_def)

lemma lex_digits_ok: "tk_kind (lx_t l) \<le> 8 \<Longrightarrow> tk_kind (lx_t l) \<noteq> tok_suffix \<Longrightarrow> token_ok (lx_t (lex_digits l))"
  by (auto simp: token_ok_def lex_digits_def Let_def tok_defs list_all_iff dest: set_takeWhileD)

lemma token_okI: "tk_kind t \<noteq> 1 \<Longrightarrow> tk_kind t \<le> 8 \<Longrightarrow> (tk_kind t = tok_suffix \<longrightarrow> tk_suffix t \<le> 10) \<Longrightarrow> token_ok t"
  by (simp add: token_ok_def tok_defs)

lemma lex_next_ok: "token_ok (lx_t (lex_next l))"
proof (cases "lx_s l")
  case Nil
  then show ?thesis by (simp add: lex_next_def Let_def token_ok_def tok_defs)
next
  case (Cons c rest)
  then show ?thesis
    unfolding lex_next_def Let_def lex_invalid_def
    by (simp add: lex_digits_ok [unfolded tok_defs] token_okI [unfolded tok_defs] tok_defs suffix_value_le)
qed

lemma apk_tokens_ok: "token_ok (lx_t l) \<Longrightarrow> list_all token_ok (apk_tokens l)"
  by (induction l rule: apk_tokens.induct)
    (simp add: apk_tokens.simps lex_next_ok)

lemma lex_start_ok: "list_all token_ok (apk_tokens (lex_start s))"
  unfolding lex_start_def by (rule apk_tokens_ok, rule lex_digits_ok) (simp_all add: tok_defs)

section \<open>Token comparison is a total preorder\<close>

lemma three_way_word: "three_way (\<lambda>_. True) word_cmp"
  by unfold_locales (auto simp: word_cmp_def split: if_splits)

lemma three_way_int: "three_way (\<lambda>_. True) cmp_int"
  by unfold_locales (auto simp: cmp_int_def split: if_splits)

lemma three_way_legacy: "three_way (\<lambda>_. True) legacy_leading_zero_compare"
proof -
  have bools: "three_way (\<lambda>_. True) (\<lambda>a b :: bool. if a = b then 0 else if a then 1 else - 1 :: int)"
    by unfold_locales (auto split: if_splits)
  note keys = three_way_key [where ok' = "\<lambda>_. True" and f = "\<lambda>s. fst (legacy_key s)", OF three_way_int]
    three_way_key [where ok' = "\<lambda>_. True" and f = "\<lambda>s. snd (snd (legacy_key s))", OF bools]
    three_way_key [where ok' = "\<lambda>_. True" and f = "\<lambda>s. fst (snd (legacy_key s))", OF three_way_word]
  show ?thesis
    by (rule three_way_cong [OF three_way_seq [OF keys(1) three_way_seq [OF keys(2,3)]]])
      (auto simp: legacy_leading_zero_compare_def seq_cmp_def cmp_int_def word_cmp_def case_prod_beta Let_def)
qed

text \<open>Values in classes: first by class, then within a class.\<close>

lemma three_way_classes:
  assumes same: "\<And>r. three_way (\<lambda>x. ok x \<and> rank x = (r :: nat)) c"
    and other: "\<And>a b. ok a \<Longrightarrow> ok b \<Longrightarrow> rank a \<noteq> rank b \<Longrightarrow> c a b = order_cmp (rank a) (rank b)"
  shows "three_way ok c"
proof
  fix a b d
  assume ok: "ok a" "ok b"
  note at = three_way.cmp_range [OF same [of "rank a"]] three_way.cmp_flip [OF same [of "rank a"]]
    three_way.cmp_le_trans [OF same [of "rank a"]]
  show "c a b \<in> {- 1, 0, 1}"
  proof (cases "rank a = rank b")
    case True
    show ?thesis by (rule at(1)) (simp_all add: ok True)
  next
    case False
    show ?thesis unfolding other [OF ok False] by (simp add: order_cmp_def)
  qed
  show "c b a = - c a b"
  proof (cases "rank a = rank b")
    case True
    show ?thesis by (rule at(2)) (simp_all add: ok True)
  next
    case False
    show ?thesis
      unfolding other [OF ok False] other [OF ok(2,1) False [symmetric]] using False by (simp add: order_cmp_def)
  qed
  assume okd: "ok d" and le: "c a b \<le> 0" "c b d \<le> 0"
  have up: "rank x \<le> rank y" if "ok x" "ok y" "c x y \<le> 0" for x y
    by (rule ccontr) (use that other [of x y] in \<open>simp add: order_cmp_def\<close>)
  have steps: "rank a \<le> rank b" "rank b \<le> rank d" by (rule up, (rule ok okd le)+)+
  show "c a d \<le> 0"
  proof (cases "rank a = rank d")
    case True
    show ?thesis by (rule at(3) [of a b d]) (use True steps ok okd le in simp_all)
  next
    case False
    show ?thesis unfolding other [OF ok(1) okd False] using False steps by (simp add: order_cmp_def)
  qed
qed

definition lead_rank :: "apk_token \<Rightarrow> nat" where
  "lead_rank t = (if has_prefix (tk_value t) ''0'' then 0 else 1)"

lemma three_way_eqI:
  assumes "three_way (\<lambda>_. True) cmp"
    and "\<And>a b. ok a \<Longrightarrow> ok b \<Longrightarrow> c a b = cmp (f a) (f b)"
  shows "three_way ok c"
  by (rule three_way_cong [OF three_way_key [OF assms(1), of ok f]]) (use assms(2) in simp_all)

lemma leading_zero: "has_prefix s ''0'' \<longleftrightarrow> (\<exists>cs. s = CHR ''0'' # cs)"
  by (cases s) (auto simp: has_prefix_def)

lemma nonzero_above_zero: "is_digit c \<Longrightarrow> c \<noteq> CHR ''0'' \<Longrightarrow> CHR ''0'' < c"
  using of_char_eq_iff [of c "CHR ''0''", where 'a = nat] by (auto simp: is_digit_def Let_def less_char_def)

lemma legacy_zero_below:
  assumes "has_prefix a ''0''" and "\<not> has_prefix b ''0''"
  shows "legacy_leading_zero_compare a b = - 1" and "legacy_leading_zero_compare b a = 1"
proof -
  have za: "takeWhile (\<lambda>c. c = CHR ''0'') a \<noteq> []" using assms(1) by (auto simp: leading_zero)
  have zb: "takeWhile (\<lambda>c. c = CHR ''0'') b = []" using assms(2) by (cases b) (auto simp: leading_zero)
  have "fst (legacy_key a) < 0" using za by (simp add: legacy_key_def Let_def)
  moreover have "0 \<le> fst (legacy_key b)" using zb by (simp add: legacy_key_def Let_def)
  ultimately show "legacy_leading_zero_compare a b = - 1" and "legacy_leading_zero_compare b a = 1"
    by (auto simp: legacy_leading_zero_compare_def case_prod_beta cmp_int_def)
qed

lemma digit_token_order:
  assumes "tk_kind a = tok_digit"
  shows "apk_token_compare legacy a b =
    (if has_prefix (tk_value a) ''0'' \<or> has_prefix (tk_value b) ''0''
     then (if legacy then legacy_leading_zero_compare (tk_value a) (tk_value b) else str_compare (tk_value a) (tk_value b))
     else word_cmp (tk_number a) (tk_number b))"
  using assms by (simp add: apk_token_compare_def tok_defs)

lemma three_way_digit: "three_way (\<lambda>t. token_ok t \<and> tk_kind t = tok_digit) (apk_token_compare legacy)"
proof (rule three_way_classes [where rank = lead_rank])
  fix r
  show "three_way (\<lambda>x. (token_ok x \<and> tk_kind x = tok_digit) \<and> lead_rank x = r) (apk_token_compare legacy)"
  proof (cases "r = 0")
    case True
    show ?thesis
    proof (cases legacy)
      case leg: True
      show ?thesis
        by (rule three_way_eqI [OF three_way_legacy, where f = tk_value])
          (use True leg in \<open>auto simp: digit_token_order lead_rank_def split: if_splits\<close>)
    next
      case False
      show ?thesis
        by (rule three_way_eqI [OF three_way_str, where f = tk_value])
          (use True False in \<open>auto simp: digit_token_order lead_rank_def split: if_splits\<close>)
    qed
  next
    case False
    show ?thesis
      by (rule three_way_eqI [OF three_way_word, where f = tk_number])
        (use False in \<open>auto simp: digit_token_order lead_rank_def split: if_splits\<close>)
  qed
next
  fix a b
  assume a: "token_ok a \<and> tk_kind a = tok_digit" and b: "token_ok b \<and> tk_kind b = tok_digit"
    and ne: "lead_rank a \<noteq> lead_rank b"
  have below: "str_compare u v = - 1 \<and> str_compare v u = 1"
    if uv: "has_prefix u ''0''" "\<not> has_prefix v ''0''" "v \<noteq> []" "list_all is_digit v" for u v
  proof -
    obtain c cs where v: "v = c # cs" using uv(3) by (cases v) auto
    then have "CHR ''0'' < c" using uv by (intro nonzero_above_zero) (auto simp: leading_zero)
    then show ?thesis using uv(1) v by (auto simp: leading_zero str_compare_def)
  qed
  show "apk_token_compare legacy a b = order_cmp (lead_rank a) (lead_rank b)"
    using a b ne below legacy_zero_below
    by (auto simp: digit_token_order lead_rank_def order_cmp_def token_ok_def split: if_splits)
qed

lemma three_way_same_kind: "three_way (\<lambda>t. token_ok t \<and> tk_kind t = k) (apk_token_compare legacy)"
proof -
  consider "k = tok_digit" | "k \<in> {tok_initial_digit, tok_suffix_no, tok_revision_no}" | "k = tok_letter"
    | "k = tok_suffix" | "k \<notin> {tok_digit, tok_initial_digit, tok_suffix_no, tok_revision_no, tok_letter, tok_suffix}"
    by blast
  then show ?thesis
  proof cases
    case 1
    then show ?thesis using three_way_digit by simp
  next
    case 2
    then show ?thesis
      by (intro three_way_eqI [OF three_way_word, where f = tk_number])
        (auto simp: apk_token_compare_def tok_defs)
  next
    case 3
    then show ?thesis
      by (intro three_way_eqI [OF three_way_word, where f = "\<lambda>t. of_nat (of_char (hd (tk_value t)))"])
        (simp add: apk_token_compare_def tok_defs)
  next
    case 4
    then show ?thesis
      by (intro three_way_eqI [OF three_way_word, where f = "\<lambda>t. of_nat (tk_suffix t)"])
        (simp add: apk_token_compare_def tok_defs)
  next
    case 5
    then show ?thesis
      by (intro three_way_eqI [OF three_way_str, where f = tk_value])
        (auto simp: apk_token_compare_def Let_def)
  qed
qed

text \<open>
  Tokens by rank: a pre-release suffix below everything, then the kinds from the last to the first:
  whatever continues a version longer ranks lower than what breaks off earlier.
\<close>

definition apk_rank :: "apk_token \<Rightarrow> nat" where
  "apk_rank t = (if tk_kind t = tok_suffix \<and> tk_suffix t < suffix_none then 0 else 10 - tk_kind t)"

lemma apk_order_same_rank:
  "three_way (\<lambda>t. token_ok t \<and> apk_rank t = r) (apk_order legacy)"
proof -
  define k where "k = (if r = 0 then tok_suffix else 10 - r)"
  have kind: "token_ok t \<and> apk_rank t = r \<Longrightarrow> token_ok t \<and> tk_kind t = k" for t
    by (auto simp: apk_rank_def k_def token_ok_def tok_defs split: if_splits)
  have same: "three_way (\<lambda>t. token_ok t \<and> apk_rank t = r) (apk_token_compare legacy)"
    by (rule three_way_mono [OF three_way_same_kind kind])
  have zero: "three_way (\<lambda>t. token_ok t \<and> apk_rank t = r) (\<lambda>_ _. 0)" by unfold_locales simp_all
  show ?thesis
  proof (cases "k < tok_end")
    case True
    show ?thesis by (rule three_way_cong [OF same]) (use kind True in \<open>auto simp: apk_order_def\<close>)
  next
    case False
    show ?thesis by (rule three_way_cong [OF zero]) (use kind False in \<open>auto simp: apk_order_def\<close>)
  qed
qed

lemma apk_order_other_rank:
  assumes ok: "token_ok a" "token_ok b" and ne: "apk_rank a \<noteq> apk_rank b"
  shows "apk_order legacy a b = order_cmp (apk_rank a) (apk_rank b)"
proof (cases "tk_kind a = tk_kind b")
  case True
  with ne have k: "tk_kind a = tok_suffix" "tk_kind b = tok_suffix"
    by (auto simp: apk_rank_def split: if_splits)
  then have "tk_suffix a \<le> 10" and "tk_suffix b \<le> 10" using ok by (auto simp: token_ok_def)
  then have "(of_nat (tk_suffix a) :: 64 word) < of_nat (tk_suffix b) \<longleftrightarrow> tk_suffix a < tk_suffix b"
    and "(of_nat (tk_suffix b) :: 64 word) < of_nat (tk_suffix a) \<longleftrightarrow> tk_suffix b < tk_suffix a"
    by (simp_all add: word_less_nat_alt unat_of_nat)
  with k ne show ?thesis
    by (auto simp: apk_order_def apk_rank_def apk_token_compare_def word_cmp_def order_cmp_def tok_defs
        suffix_none_def split: if_splits)
next
  case False
  then show ?thesis
    using ok ne
    by (auto simp: apk_order_def apk_rank_def apk_last_def order_cmp_def token_ok_def tok_defs)
qed

lemma three_way_apk_order: "three_way token_ok (apk_order legacy)"
  by (rule three_way_classes [OF apk_order_same_rank apk_order_other_rank])

interpretation apk: three_way "\<lambda>_. True" "compare_apk legacy" for legacy
proof -
  have "three_way (\<lambda>_. True) (\<lambda>a b. lex_cmp (apk_order legacy) (apk_tokens (lex_start a)) (apk_tokens (lex_start b)))"
    by (rule three_way_key [OF three_way_lex [OF three_way_apk_order]]) (rule lex_start_ok)
  then show "three_way (\<lambda>_. True) (compare_apk legacy)"
    by (rule three_way_cong) (simp add: compare_apk_def apk_compare_loop_tokens)
qed

section \<open>Properties\<close>

text \<open>
  C38: Both Alpine comparers, whatever the major version they are chosen by, are total preorders on
  all strings: leading zeros, unknown suffixes and malformed tails included.
\<close>

theorem apk_order_laws:
  "apk_version_comparer m a b \<in> {- 1, 0, 1}
   \<and> apk_version_comparer m b a = - apk_version_comparer m a b
   \<and> (apk_version_comparer m a b \<le> 0 \<longrightarrow> apk_version_comparer m b c \<le> 0 \<longrightarrow> apk_version_comparer m a c \<le> 0)"
proof -
  have m: "apk_version_comparer m = compare_apk (m = 2)" by (simp add: apk_version_comparer_def)
  show ?thesis
    unfolding m
    by (intro conjI impI, rule apk.cmp_range [OF TrueI TrueI], rule apk.cmp_flip [OF TrueI TrueI],
        rule apk.cmp_le_trans [OF TrueI TrueI TrueI])
qed

theorem apk_order_laws_witness: "apk_version_comparer 2 ''1.2_rc1'' ''1.2.1-r0'' \<le> 0"
proof -
  have "apk_version_comparer 2 ''1.2_rc1'' ''1.2'' \<le> 0" and "apk_version_comparer 2 ''1.2'' ''1.2.1-r0'' \<le> 0"
    by code_simp+
  then show ?thesis using apk_order_laws [of 2 "''1.2_rc1''" "''1.2''" "''1.2.1-r0''"] by blast
qed

definition no_leading_zero :: "string \<Rightarrow> bool" where
  "no_leading_zero s =
     list_all (\<lambda>t. tk_kind t = tok_digit \<longrightarrow> \<not> has_prefix (tk_value t) ''0'') (apk_tokens (lex_start s))"

lemma lex_cmp_cong:
  assumes "list_all p xs" "list_all p ys" and "\<And>x y. p x \<Longrightarrow> p y \<Longrightarrow> c x y = d x y"
  shows "lex_cmp c xs ys = lex_cmp d xs ys"
  using assms by (induction c xs ys rule: lex_cmp.induct) auto

text \<open>
  The two comparers differ only on components with a leading zero: on versions without them the
  apk-tools 2 and 3 orders give the same answer, so the major version does not matter.
\<close>

lemma apk_comparers_agree:
  assumes "no_leading_zero a" and "no_leading_zero b"
  shows "apk_version_comparer m a b = apk_version_comparer n a b"
proof -
  have "apk_order leg s t = apk_order leg' s t"
    if "tk_kind s = tok_digit \<longrightarrow> \<not> has_prefix (tk_value s) ''0''"
      "tk_kind t = tok_digit \<longrightarrow> \<not> has_prefix (tk_value t) ''0''" for leg leg' s t
    using that by (auto simp: apk_order_def apk_token_compare_def Let_def)
  then have "compare_apk leg a b = compare_apk leg' a b" for leg leg'
    unfolding compare_apk_def apk_compare_loop_tokens
    by (intro lex_cmp_cong [OF assms [unfolded no_leading_zero_def]])
  then show ?thesis by (simp add: apk_version_comparer_def)
qed

lemma apk_comparers_agree_witness:
  "apk_version_comparer 2 ''1.10_rc2-r1'' ''1.9'' = 1 \<and> apk_version_comparer 3 ''1.10_rc2-r1'' ''1.9'' = 1"
proof -
  have "no_leading_zero ''1.10_rc2-r1''" and "no_leading_zero ''1.9''" by code_simp+
  then have "apk_version_comparer 2 ''1.10_rc2-r1'' ''1.9'' = apk_version_comparer 3 ''1.10_rc2-r1'' ''1.9''"
    by (rule apk_comparers_agree)
  moreover have "apk_version_comparer 3 ''1.10_rc2-r1'' ''1.9'' = 1" by code_simp
  ultimately show ?thesis by simp
qed

end
