(* ===== verification/AuthStores.thy ===== *)
theory AuthStores
  imports Prelude
begin

text \<open>
  The Redis-backed stores of the sign-in flow: failed password attempts and lockouts
  (\<open>internal/store/login_lockout.go\<close>), failed two-factor attempts (\<open>tfa_lockout.go\<close>), the tickets between
  the two factors (\<open>pending_login.go\<close>) and the TOTP steps already used (\<open>tfa_replay.go\<close>).

  Redis is outside the repository.  Its commands are the parameter \<open>redis\<close>, a record of functions on an
  abstract state; each takes the time in milliseconds, and \<open>None\<close> is an error.  What the code relies on
  is the locale \<open>redis_server\<close>: the documented effect of each command on the live keys.
\<close>

section \<open>The Redis commands\<close>

record 'r redis =
  r_incr :: "int \<Rightarrow> string \<Rightarrow> 'r \<Rightarrow> int option \<times> 'r"
  r_pttl :: "int \<Rightarrow> string \<Rightarrow> 'r \<Rightarrow> int"
  r_pexpire :: "int \<Rightarrow> string \<Rightarrow> int \<Rightarrow> 'r \<Rightarrow> 'r"
  r_ttl :: "int \<Rightarrow> string \<Rightarrow> 'r \<Rightarrow> int option"
  r_set :: "int \<Rightarrow> string \<Rightarrow> string \<Rightarrow> int \<Rightarrow> 'r \<Rightarrow> bool \<times> 'r"
  r_del :: "int \<Rightarrow> string \<Rightarrow> 'r \<Rightarrow> 'r"
  r_getdel :: "int \<Rightarrow> string \<Rightarrow> 'r \<Rightarrow> string option \<times> 'r"
  r_setnx :: "int \<Rightarrow> string \<Rightarrow> string \<Rightarrow> int \<Rightarrow> 'r \<Rightarrow> bool option \<times> 'r"

text \<open>\<open>TenantKey\<close>: the keys of a hosted context carry its host name.\<close>

definition tenant_key :: "string \<Rightarrow> string \<Rightarrow> string" where
  "tenant_key host key = (if host \<noteq> [] then ''t:'' @ host @ '':'' @ key else key)"

section \<open>Lockouts\<close>

text \<open>The limits in force: attempts, and the lockout duration in nanoseconds; the configured limits, in minutes.\<close>

record lockout_limits =
  ll_max :: int
  ll_duration :: int

record lockout_config =
  lc_max :: int
  lc_minutes :: int

text \<open>The expiry Redis is sent for a duration: of a SET, of the script of the counter, of an EXPIRE, in milliseconds.\<close>

definition set_expiry :: "int \<Rightarrow> int" where
  "set_expiry d = (if 0 < d \<and> d < 1000000 then 1 else quot d 1000000)"

definition script_expiry :: "int \<Rightarrow> int" where
  "script_expiry d = quot d 1000000"

definition expire_expiry :: "int \<Rightarrow> int" where
  "expire_expiry d = (if 0 < d \<and> d < 1000000000 then 1000 else quot d 1000000000 * 1000)"

definition minute_ms :: int where "minute_ms = 60000"

text \<open>\<open>limits\<close>: the resolved configuration when both its values are positive, else the store's own.\<close>

definition effective_limits :: "lockout_config option \<Rightarrow> lockout_limits \<Rightarrow> lockout_limits" where
  "effective_limits resolved own =
     (case resolved of
        Some c \<Rightarrow>
          let dur = go_minutes (lc_minutes c)
          in if lc_max c > 0 \<and> dur > 0 then \<lparr>ll_max = lc_max c, ll_duration = dur\<rparr> else own
      | None \<Rightarrow> own)"

definition new_login_lockout_store :: "int \<Rightarrow> int \<Rightarrow> lockout_limits" where
  "new_login_lockout_store max_attempts minutes =
     \<lparr>ll_max = (if max_attempts \<le> 0 then 5 else max_attempts),
      ll_duration = go_minutes (if minutes \<le> 0 then 15 else minutes)\<rparr>"

definition new_tfa_lockout_store :: "int \<Rightarrow> int \<Rightarrow> lockout_limits" where
  "new_tfa_lockout_store max_attempts minutes =
     \<lparr>ll_max = (if max_attempts \<le> 0 then 5 else max_attempts),
      ll_duration = go_minutes (if minutes \<le> 0 then 30 else minutes)\<rparr>"

definition login_lockout_prefix :: string where "login_lockout_prefix = ''login:lockout:''"
definition login_failed_prefix :: string where "login_failed_prefix = ''login:failed:''"
definition tfa_lockout_prefix :: string where "tfa_lockout_prefix = ''tfa:lockout:''"
definition tfa_failed_prefix :: string where "tfa_failed_prefix = ''tfa:failed:''"

text \<open>\<open>Identifier\<close>; \<open>sha\<close> is the hex of the first 16 bytes of SHA-256.\<close>

definition login_identifier :: "(string \<Rightarrow> string) \<Rightarrow> string \<Rightarrow> string \<Rightarrow> string" where
  "login_identifier sha ip username = ip @ ''|'' @ sha (to_lower (trim_space username))"

definition is_locked :: "'r redis option \<Rightarrow> int \<Rightarrow> string \<Rightarrow> 'r \<Rightarrow> bool \<times> int" where
  "is_locked rdb now key r =
     (case rdb of
        None \<Rightarrow> (False, 0)
      | Some rd \<Rightarrow>
          (case r_ttl rd now key r of
             None \<Rightarrow> (False, 0)
           | Some ttl \<Rightarrow> if ttl \<le> 0 then (False, 0) else (True, ttl)))"

text \<open>The script of \<open>RecordFailedAttempt\<close>: it arms the expiry whenever it is missing.\<close>

definition failed_attempt_script :: "'r redis \<Rightarrow> int \<Rightarrow> string \<Rightarrow> int \<Rightarrow> 'r \<Rightarrow> int option \<times> 'r" where
  "failed_attempt_script rd now key ttl r =
     (case r_incr rd now key r of
        (None, r') \<Rightarrow> (None, r')
      | (Some n, r') \<Rightarrow> (Some n, if r_pttl rd now key r' < 0 then r_pexpire rd now key ttl r' else r'))"

text \<open>A counter at the limit becomes a lock.\<close>

definition trip_lock ::
  "'r redis \<Rightarrow> int \<Rightarrow> lockout_limits \<Rightarrow> string \<Rightarrow> string \<Rightarrow> string \<Rightarrow> int \<Rightarrow> 'r \<Rightarrow> (int \<times> bool) \<times> 'r" where
  "trip_lock rd now lim stamp lock_key failed_key attempts r =
     (if attempts \<ge> ll_max lim
      then ((attempts, True), r_del rd now failed_key (snd (r_set rd now lock_key stamp (set_expiry (ll_duration lim)) r)))
      else ((attempts, False), r))"

definition record_failed_login ::
  "'r redis option \<Rightarrow> int \<Rightarrow> lockout_limits \<Rightarrow> string \<Rightarrow> string \<Rightarrow> string \<Rightarrow> 'r \<Rightarrow> (int \<times> bool) \<times> 'r" where
  "record_failed_login rdb now lim stamp host ident r =
     (case rdb of
        None \<Rightarrow> ((0, False), r)
      | Some rd \<Rightarrow>
          let key = tenant_key host (login_failed_prefix @ ident)
          in case failed_attempt_script rd now key (script_expiry (ll_duration lim)) r of
               (None, r') \<Rightarrow> ((0, False), r')
             | (Some n, r') \<Rightarrow>
                 trip_lock rd now lim stamp (tenant_key host (login_lockout_prefix @ ident)) key n r')"

definition clear_failed_login :: "'r redis option \<Rightarrow> int \<Rightarrow> string \<Rightarrow> string \<Rightarrow> 'r \<Rightarrow> 'r" where
  "clear_failed_login rdb now host ident r =
     (case rdb of None \<Rightarrow> r | Some rd \<Rightarrow> r_del rd now (tenant_key host (login_failed_prefix @ ident)) r)"

text \<open>The two-factor counter is armed only by its first increment.\<close>

definition record_failed_tfa ::
  "'r redis option \<Rightarrow> int \<Rightarrow> lockout_limits \<Rightarrow> string \<Rightarrow> string \<Rightarrow> string \<Rightarrow> 'r \<Rightarrow> (int \<times> bool) \<times> 'r" where
  "record_failed_tfa rdb now lim stamp host uid r =
     (case rdb of
        None \<Rightarrow> ((0, False), r)
      | Some rd \<Rightarrow>
          let key = tenant_key host (tfa_failed_prefix @ uid)
          in case r_incr rd now key r of
               (None, r') \<Rightarrow> ((0, False), r')
             | (Some n, r') \<Rightarrow>
                 trip_lock rd now lim stamp (tenant_key host (tfa_lockout_prefix @ uid)) key n
                   (if n = 1 then r_pexpire rd now key (expire_expiry (ll_duration lim)) r' else r'))"

definition clear_failed_tfa :: "'r redis option \<Rightarrow> int \<Rightarrow> string \<Rightarrow> string \<Rightarrow> 'r \<Rightarrow> 'r" where
  "clear_failed_tfa rdb now host uid r =
     (case rdb of None \<Rightarrow> r | Some rd \<Rightarrow> r_del rd now (tenant_key host (tfa_failed_prefix @ uid)) r)"

section \<open>Tickets and used TOTP steps\<close>

definition pending_login_prefix :: string where "pending_login_prefix = ''auth:pending_tfa:''"
definition pending_login_ttl :: int where "pending_login_ttl = 5 * minute_ms"
definition tfa_replay_ttl :: int where "tfa_replay_ttl = 3 * minute_ms"

text \<open>
  The stored value is a JSON object of the user and a time stamp; the user is all that is read back, so
  it is the value here.  \<open>ticket\<close> is \<open>None\<close> when no random bytes could be read.
\<close>

definition create_ticket ::
  "'r redis option \<Rightarrow> int \<Rightarrow> string \<Rightarrow> string option \<Rightarrow> string \<Rightarrow> 'r \<Rightarrow> string option \<times> 'r" where
  "create_ticket rdb now host ticket uid r =
     (case (rdb, ticket) of
        (Some rd, Some t) \<Rightarrow>
          (case r_set rd now (tenant_key host (pending_login_prefix @ t)) uid pending_login_ttl r of
             (ok, r') \<Rightarrow> (if ok then Some t else None, r'))
      | _ \<Rightarrow> (None, r))"

definition consume_ticket :: "'r redis option \<Rightarrow> int \<Rightarrow> string \<Rightarrow> string \<Rightarrow> 'r \<Rightarrow> string option \<times> 'r" where
  "consume_ticket rdb now host ticket r =
     (if ticket = [] then (None, r)
      else case rdb of
             None \<Rightarrow> (None, r)
           | Some rd \<Rightarrow>
               (case r_getdel rd now (tenant_key host (pending_login_prefix @ ticket)) r of
                  (None, r') \<Rightarrow> (None, r')
                | (Some uid, r') \<Rightarrow> (if uid = [] then None else Some uid, r')))"

definition replay_key :: "string \<Rightarrow> string \<Rightarrow> int \<Rightarrow> string" where
  "replay_key host uid step = tenant_key host (''tfa:used:'' @ uid @ '':'' @ decimal_int step)"

text \<open>\<open>MarkUsed\<close>: \<open>None\<close> is an error; without Redis every step is accepted.\<close>

definition mark_used :: "'r redis option \<Rightarrow> int \<Rightarrow> string \<Rightarrow> string \<Rightarrow> int \<Rightarrow> 'r \<Rightarrow> bool option \<times> 'r" where
  "mark_used rdb now host uid step r =
     (case rdb of
        None \<Rightarrow> (Some True, r)
      | Some rd \<Rightarrow> r_setnx rd now (replay_key host uid step) ''1'' tfa_replay_ttl r)"

lemma set_expiry_pos: "0 < d \<Longrightarrow> 0 < set_expiry d"
  by (simp add: set_expiry_def quot_def pos_imp_zdiv_pos_iff)

section \<open>What Redis promises\<close>

text \<open>
  \<open>live r now k\<close> is the value and the expiry of a key at a time.  A command that fails may or may not have
  taken effect; it never touches another key.
\<close>

locale redis_server =
  fixes rd :: "'r redis" and live :: "'r \<Rightarrow> int \<Rightarrow> string \<Rightarrow> (string \<times> int option) option"
  assumes live_later: "now \<le> t \<Longrightarrow> live r t k =
      (case live r now k of Some (v, Some x) \<Rightarrow> if t < x then Some (v, Some x) else None | other \<Rightarrow> other)"
    and live_expires: "live r now k = Some (v, Some x) \<Longrightarrow> now < x"
    and set_ok: "r_set rd now k v d r = (True, r') \<Longrightarrow> 0 < d \<Longrightarrow> live r' now k = Some (v, Some (now + d))"
    and set_error: "r_set rd now k v d r = (False, r') \<Longrightarrow> 0 < d
        \<Longrightarrow> live r' now k = live r now k \<or> live r' now k = Some (v, Some (now + d))"
    and set_frame: "r_set rd now k v d r = (ok, r') \<Longrightarrow> k' \<noteq> k \<Longrightarrow> live r' now k' = live r now k'"
    and setnx_true: "r_setnx rd now k v d r = (Some True, r') \<Longrightarrow> 0 < d
        \<Longrightarrow> live r now k = None \<and> live r' now k = Some (v, Some (now + d))"
    and setnx_false: "r_setnx rd now k v d r = (Some False, r') \<Longrightarrow> live r now k \<noteq> None \<and> live r' now k = live r now k"
    and setnx_error: "r_setnx rd now k v d r = (None, r') \<Longrightarrow> live r now k \<noteq> None \<Longrightarrow> live r' now k = live r now k"
    and setnx_frame: "r_setnx rd now k v d r = (res, r') \<Longrightarrow> k' \<noteq> k \<Longrightarrow> live r' now k' = live r now k'"
    and getdel_some: "r_getdel rd now k r = (Some v, r') \<Longrightarrow> (\<exists>x. live r now k = Some (v, x)) \<and> live r' now k = None"
    and getdel_frame: "r_getdel rd now k r = (got, r') \<Longrightarrow> k' \<noteq> k \<Longrightarrow> live r' now k' = live r now k'"
    and getdel_none: "r_getdel rd now k r = (None, r') \<Longrightarrow> live r' now k = None \<or> live r' now k = live r now k"
    and del_frame: "k' \<noteq> k \<Longrightarrow> live (r_del rd now k r) now k' = live r now k'"
    and incr_frame: "r_incr rd now k r = (cnt, r') \<Longrightarrow> k' \<noteq> k \<Longrightarrow> live r' now k' = live r now k'"
    and pexpire_frame: "k' \<noteq> k \<Longrightarrow> live (r_pexpire rd now k d r) now k' = live r now k'"
    and ttl_live: "live r now k = Some (v, Some x) \<Longrightarrow> 1000 \<le> x - now \<Longrightarrow> r_ttl rd now k r = Some t \<Longrightarrow> 0 < t"
begin

lemma frame_later:
  "live r' now k = live r now k \<Longrightarrow> now \<le> t \<Longrightarrow> live r' t k = live r t k"
  by (simp add: live_later)

lemma live_none_later: "live r now k = None \<Longrightarrow> now \<le> t \<Longrightarrow> live r t k = None"
  by (simp add: live_later)

lemma trip_lock_frame:
  assumes "trip_lock rd now lim stamp lk fk n r = (res, r')" and "k \<noteq> lk" and "k \<noteq> fk"
  shows "live r' now k = live r now k"
proof -
  obtain ok r1 where s: "r_set rd now lk stamp (set_expiry (ll_duration lim)) r = (ok, r1)" by fastforce
  have "live r1 now k = live r now k" by (rule set_frame [OF s assms(2)])
  moreover have "live (r_del rd now fk r1) now k = live r1 now k" by (rule del_frame [OF assms(3)])
  ultimately show ?thesis using assms(1) by (auto simp: trip_lock_def s split: if_splits)
qed

lemma script_frame:
  assumes "failed_attempt_script rd now fk d r = (res, r')" and "k \<noteq> fk"
  shows "live r' now k = live r now k"
proof -
  obtain n r1 where i: "r_incr rd now fk r = (n, r1)" by fastforce
  have "live r1 now k = live r now k" by (rule incr_frame [OF i assms(2)])
  moreover have "live (r_pexpire rd now fk d r1) now k = live r1 now k" by (rule pexpire_frame [OF assms(2)])
  ultimately show ?thesis using assms(1) by (auto simp: failed_attempt_script_def i split: option.splits)
qed

lemma record_failed_login_frame:
  assumes "record_failed_login (Some rd) now lim stamp host ident r = (res, r')"
    and lk: "k \<noteq> tenant_key host (login_lockout_prefix @ ident)"
    and fk: "k \<noteq> tenant_key host (login_failed_prefix @ ident)"
  shows "live r' now k = live r now k"
proof -
  let ?fk = "tenant_key host (login_failed_prefix @ ident)"
  obtain n r1 where s: "failed_attempt_script rd now ?fk (script_expiry (ll_duration lim)) r = (n, r1)" by fastforce
  have "live r1 now k = live r now k" by (rule script_frame [OF s fk])
  then show ?thesis using assms trip_lock_frame
    by (auto simp: record_failed_login_def Let_def s split: option.splits)
qed

lemma record_failed_tfa_frame:
  assumes "record_failed_tfa (Some rd) now lim stamp host uid r = (res, r')"
    and lk: "k \<noteq> tenant_key host (tfa_lockout_prefix @ uid)"
    and fk: "k \<noteq> tenant_key host (tfa_failed_prefix @ uid)"
  shows "live r' now k = live r now k"
proof -
  let ?fk = "tenant_key host (tfa_failed_prefix @ uid)"
  obtain n r1 where i: "r_incr rd now ?fk r = (n, r1)" by fastforce
  have "live r1 now k = live r now k" by (rule incr_frame [OF i fk])
  moreover have "live (r_pexpire rd now ?fk d r1) now k = live r1 now k" for d by (rule pexpire_frame [OF fk])
  ultimately show ?thesis
    using assms trip_lock_frame by (auto simp: record_failed_tfa_def Let_def i split: option.splits if_splits)
qed

text \<open>An attempt that trips the lock keeps the identifier locked until the last second of the duration.\<close>

lemma tripped_stays_locked:
  assumes trip: "trip_lock rd now lim stamp lk fk n r = ((a, True), r')"
    and set: "fst (r_set rd now lk stamp (set_expiry (ll_duration lim)) r)" and d: "0 < ll_duration lim" and keys: "lk \<noteq> fk"
  shows "live r' now lk = Some (stamp, Some (now + set_expiry (ll_duration lim)))"
proof -
  obtain r1 where s: "r_set rd now lk stamp (set_expiry (ll_duration lim)) r = (True, r1)" using set by (metis prod.collapse)
  have "live r1 now lk = Some (stamp, Some (now + set_expiry (ll_duration lim)))" by (rule set_ok [OF s]) (rule set_expiry_pos [OF d])
  moreover have "live (r_del rd now fk r1) now lk = live r1 now lk" by (rule del_frame [OF keys])
  ultimately show ?thesis using trip by (auto simp: trip_lock_def s split: if_splits)
qed

lemma live_is_locked:
  assumes "live r now key = Some (v, Some x)" and "1000 \<le> x - now" and "r_ttl rd now key r \<noteq> None"
  shows "fst (is_locked (Some rd) now key r)"
  using assms ttl_live [OF assms(1,2)] by (auto simp: is_locked_def)

lemma ticket_consumed_once:
  assumes "consume_ticket (Some rd) now host ticket r = (Some uid, r')"
  shows "(\<exists>x. live r now (tenant_key host (pending_login_prefix @ ticket)) = Some (uid, x))
     \<and> live r' now (tenant_key host (pending_login_prefix @ ticket)) = None \<and> uid \<noteq> [] \<and> ticket \<noteq> []"
  using assms getdel_some unfolding consume_ticket_def by (auto split: if_splits prod.splits option.splits)

lemma consume_frame:
  assumes "consume_ticket (Some rd) now host ticket r = (res, r')"
    and "k \<noteq> tenant_key host (pending_login_prefix @ ticket)"
  shows "live r' now k = live r now k"
  using assms getdel_frame unfolding consume_ticket_def by (auto split: if_splits prod.splits option.splits)

lemma consume_dead:
  assumes "live r now (tenant_key host (pending_login_prefix @ ticket)) = None"
    and "consume_ticket (Some rd) now host ticket r = (res, r')"
  shows "res = None"
  using assms unfolding consume_ticket_def
  by (cases res) (auto dest!: getdel_some split: if_splits prod.splits option.splits)

lemma create_ticket_live:
  assumes "create_ticket (Some rd) now host tk uid r = (Some t, r')"
  shows "tk = Some t \<and> live r' now (tenant_key host (pending_login_prefix @ t)) = Some (uid, Some (now + pending_login_ttl))"
  using assms set_ok unfolding create_ticket_def
  by (auto simp: pending_login_ttl_def minute_ms_def split: option.splits prod.splits if_splits)

lemma mark_used_claims:
  assumes "mark_used (Some rd) now host uid step r = (Some True, r')"
  shows "live r now (replay_key host uid step) = None
     \<and> live r' now (replay_key host uid step) = Some (''1'', Some (now + tfa_replay_ttl))"
  using assms setnx_true [of now _ "''1''" tfa_replay_ttl r r']
  by (simp add: mark_used_def tfa_replay_ttl_def minute_ms_def)

lemma mark_used_taken:
  assumes "live r now (replay_key host uid step) \<noteq> None"
    and "mark_used (Some rd) now host uid step r = (res, r')"
  shows "res \<noteq> Some True \<and> live r' now (replay_key host uid step) = live r now (replay_key host uid step)"
proof -
  have m: "r_setnx rd now (replay_key host uid step) ''1'' tfa_replay_ttl r = (res, r')"
    using assms(2) by (simp add: mark_used_def)
  have "res \<noteq> Some True" using assms(1) setnx_true m by (auto simp: tfa_replay_ttl_def minute_ms_def)
  then show ?thesis using m assms(1) setnx_false setnx_error by (cases res) auto
qed

end

section \<open>A reference server\<close>

text \<open>
  Redis as a map of values with their expiry, on which every promise holds; it also serves to run the
  model on examples.
\<close>

type_synonym redis_map = "string \<Rightarrow> (string \<times> int option) option"

definition map_live :: "redis_map \<Rightarrow> int \<Rightarrow> string \<Rightarrow> (string \<times> int option) option" where
  "map_live r now k =
     (case r k of Some (v, Some x) \<Rightarrow> if now < x then Some (v, Some x) else None | other \<Rightarrow> other)"

definition map_incr :: "int \<Rightarrow> string \<Rightarrow> redis_map \<Rightarrow> int option \<times> redis_map" where
  "map_incr now k r =
     (case map_live r now k of
        None \<Rightarrow> (Some 1, r(k \<mapsto> (''1'', None)))
      | Some (v, x) \<Rightarrow> (case atoi v of (n, None) \<Rightarrow> (Some (n + 1), r(k \<mapsto> (decimal_int (n + 1), x))) | _ \<Rightarrow> (None, r)))"

definition map_remaining :: "int \<Rightarrow> string \<Rightarrow> redis_map \<Rightarrow> int" where
  "map_remaining now k r = (case map_live r now k of None \<Rightarrow> - 2 | Some (v, None) \<Rightarrow> - 1 | Some (v, Some x) \<Rightarrow> x - now)"

definition map_redis :: "redis_map redis" where
  "map_redis =
     \<lparr>r_incr = map_incr,
      r_pttl = map_remaining,
      r_pexpire = (\<lambda>now k d r. case map_live r now k of None \<Rightarrow> r | Some (v, _) \<Rightarrow> r(k \<mapsto> (v, Some (now + d)))),
      r_ttl = (\<lambda>now k r. Some (let m = map_remaining now k r in if m < 0 then m else (m + 500) div 1000)),
      r_set = (\<lambda>now k v d r. (True, r(k \<mapsto> (v, Some (now + d))))),
      r_del = (\<lambda>now k r. r(k := None)),
      r_getdel = (\<lambda>now k r. (map_option fst (map_live r now k), r(k := None))),
      r_setnx = (\<lambda>now k v d r. if map_live r now k = None then (Some True, r(k \<mapsto> (v, Some (now + d)))) else (Some False, r))\<rparr>"

interpretation map_server: redis_server map_redis map_live
proof
  show "now \<le> t \<Longrightarrow> map_live r t k = (case map_live r now k of Some (v, Some x) \<Rightarrow> if t < x then Some (v, Some x) else None | other \<Rightarrow> other)"
    for now t :: int and r k
    by (auto simp: map_live_def split: option.splits prod.splits)
qed (auto simp: map_redis_def map_live_def map_incr_def map_remaining_def split: option.splits prod.splits if_splits)

end
