(* ===== verification/AuthAccounts.thy ===== *)
theory AuthAccounts
  imports AuthStores
begin

text \<open>
  The tables of the sign-in code and its SQL statements (\<open>internal/db/users.sql.go\<close>, \<open>sessions.sql.go\<close>,
  \<open>trusted_devices.sql.go\<close>), the session store (\<open>internal/store/sessions.go\<close>), and the environment of a
  request.

  Times are milliseconds.  Columns that are only displayed (addresses, user agents, labels, the retired
  TFA columns of a session) are left out.  Backup codes are a JSON array of hashes in a text column; the
  column is the list here, \<open>None\<close> being SQL's NULL.  A statement that fails leaves the tables alone.
\<close>

section \<open>Tables\<close>

record auth_user =
  au_id :: string
  au_username :: string
  au_email :: string
  au_hash :: "string option"
  au_role :: string
  au_active :: bool
  au_tfa :: bool
  au_secret :: "string option"
  au_codes :: "string list option"
  au_oidc_sub :: "string option"
  au_oidc_provider :: "string option"
  au_enrol_required :: bool
  au_change_required :: bool
  au_previous_hash :: "string option"
  au_last_login :: "int option"

record user_session =
  us_id :: string
  us_user :: string
  us_refresh :: string
  us_fingerprint :: "string option"
  us_device :: "string option"
  us_activity :: int
  us_expires :: int
  us_revoked :: bool
  us_count :: int

record trusted_device =
  td_id :: string
  td_user :: string
  td_hash :: string
  td_used :: int
  td_expires :: int
  td_revoked :: bool

record auth_db =
  ad_users :: "auth_user list"
  ad_sessions :: "user_session list"
  ad_devices :: "trusted_device list"

definition tfa_enrolment_pending :: "auth_user \<Rightarrow> bool" where
  "tfa_enrolment_pending u \<longleftrightarrow>
     au_enrol_required u \<and> au_hash u \<noteq> None \<and> au_oidc_sub u = None \<and> au_oidc_provider u = None"

definition password_change_pending :: "auth_user \<Rightarrow> bool" where
  "password_change_pending u \<longleftrightarrow> au_change_required u \<and> au_hash u \<noteq> None"

section \<open>Requests\<close>

datatype auth_query =
    QLookup | QGetUser | QUpgradeHash | QLastLogin | QConsumeCode | QUpdatePassword
  | QSetSecret | QEnableTfa | QSetCodes | QDisableTfa
  | QFindByDevice | QFindByFingerprint | QUpdateSession | QCreateSession | QSessionState | QSessionByToken
  | QRevokeSession | QRevokeSessions | QActivity
  | QFindDevice | QCreateDevice | QRevokeDevices | QTouchDevice

record 'r auth_env =
  ae_now :: int
  ae_rdb :: "'r redis option"
  ae_host :: string
  ae_fails :: "auth_query \<Rightarrow> bool"
  ae_local :: "bool \<times> string"
  ae_login_store :: "lockout_limits option"
  ae_login_resolved :: "lockout_config option"
  ae_tfa_store :: "lockout_limits option"
  ae_tfa_resolved :: "lockout_config option"
  ae_lockout_minutes :: "int option"
  ae_max_tfa :: int
  ae_inactivity_minutes :: "int option"
  ae_jwt_expiry :: string
  ae_trust_expiry :: string
  ae_has_tickets :: bool
  ae_has_devices :: bool
  ae_sha :: "string \<Rightarrow> string"
  ae_token_sha :: "string \<Rightarrow> string"
  ae_hash_ok :: "string \<Rightarrow> string \<Rightarrow> bool"
  ae_busy :: bool
  ae_cost :: "string \<Rightarrow> int option"
  ae_new_hash :: "string \<Rightarrow> string option"
  ae_policy :: "string \<Rightarrow> string option"
  ae_totp :: "string \<Rightarrow> int \<Rightarrow> string option"
  ae_race :: "nat \<Rightarrow> auth_user list \<Rightarrow> auth_user list"
  ae_stamp :: string
  ae_ticket :: "string option"
  ae_secret :: "string option"
  ae_qr_ok :: bool
  ae_codes :: "string list"
  ae_code_hashes :: "string list option"
  ae_session_id :: string
  ae_refresh :: string
  ae_access_ok :: bool
  ae_trust_token :: "string option"
  ae_device_row :: string

record browser =
  br_ip :: string
  br_device_id :: string
  br_fingerprint :: string
  br_trust_cookie :: "string option"

section \<open>User statements\<close>

text \<open>A user name match is preferred to an e-mail match.\<close>

definition find_by_name :: "string \<Rightarrow> auth_user list \<Rightarrow> auth_user option" where
  "find_by_name name us =
     (case find (\<lambda>u. to_lower (au_username u) = to_lower name) us of
        Some u \<Rightarrow> Some u
      | None \<Rightarrow> find (\<lambda>u. to_lower (au_email u) = to_lower name) us)"

definition find_user :: "string \<Rightarrow> auth_user list \<Rightarrow> auth_user option" where
  "find_user uid us = find (\<lambda>u. au_id u = uid) us"

datatype lookup = LookupFailed | NoSuchUser | Found auth_user

definition get_by_username_or_email :: "'r auth_env \<Rightarrow> string \<Rightarrow> auth_db \<Rightarrow> lookup" where
  "get_by_username_or_email e name db =
     (if ae_fails e QLookup then LookupFailed
      else case find_by_name name (ad_users db) of None \<Rightarrow> NoSuchUser | Some u \<Rightarrow> Found u)"

text \<open>\<open>GetByID\<close>; \<open>None\<close> is any error.\<close>

definition get_user :: "'r auth_env \<Rightarrow> string \<Rightarrow> auth_db \<Rightarrow> auth_user option" where
  "get_user e uid db = (if ae_fails e QGetUser then None else find_user uid (ad_users db))"

definition change_users :: "(auth_user \<Rightarrow> bool) \<Rightarrow> (auth_user \<Rightarrow> auth_user) \<Rightarrow> auth_db \<Rightarrow> auth_db" where
  "change_users p f db = db\<lparr>ad_users := update_where p f (ad_users db)\<rparr>"

definition upgrade_password_hash :: "'r auth_env \<Rightarrow> string \<Rightarrow> string \<Rightarrow> string \<Rightarrow> auth_db \<Rightarrow> auth_db" where
  "upgrade_password_hash e uid old new db =
     (if ae_fails e QUpgradeHash then db
      else change_users (\<lambda>u. au_id u = uid \<and> au_hash u = Some old) (\<lambda>u. u\<lparr>au_hash := Some new\<rparr>) db)"

definition update_last_login :: "'r auth_env \<Rightarrow> string \<Rightarrow> auth_db \<Rightarrow> auth_db" where
  "update_last_login e uid db =
     (if ae_fails e QLastLogin then db
      else change_users (\<lambda>u. au_id u = uid) (\<lambda>u. u\<lparr>au_last_login := Some (ae_now e)\<rparr>) db)"

text \<open>\<open>UpdatePassword\<close>; \<open>None\<close> is an error.\<close>

definition update_password :: "'r auth_env \<Rightarrow> string \<Rightarrow> string \<Rightarrow> auth_db \<Rightarrow> auth_db option" where
  "update_password e uid new db =
     (if ae_fails e QUpdatePassword then None
      else Some (change_users (\<lambda>u. au_id u = uid)
             (\<lambda>u. u\<lparr>au_hash := Some new, au_change_required := False, au_previous_hash := None\<rparr>) db))"

text \<open>Setting up and removing the second factor; \<open>None\<close> is an error.\<close>

definition update_tfa_secret :: "'r auth_env \<Rightarrow> string \<Rightarrow> string \<Rightarrow> auth_db \<Rightarrow> auth_db option" where
  "update_tfa_secret e uid secret db =
     (if ae_fails e QSetSecret then None
      else Some (change_users (\<lambda>u. au_id u = uid) (\<lambda>u. u\<lparr>au_secret := Some secret\<rparr>) db))"

definition update_tfa_enabled :: "'r auth_env \<Rightarrow> string \<Rightarrow> string list \<Rightarrow> auth_db \<Rightarrow> auth_db option" where
  "update_tfa_enabled e uid codes db =
     (if ae_fails e QEnableTfa then None
      else Some (change_users (\<lambda>u. au_id u = uid)
             (\<lambda>u. u\<lparr>au_tfa := True, au_codes := Some codes, au_enrol_required := False\<rparr>) db))"

definition update_tfa_backup_codes :: "'r auth_env \<Rightarrow> string \<Rightarrow> string list \<Rightarrow> auth_db \<Rightarrow> auth_db option" where
  "update_tfa_backup_codes e uid codes db =
     (if ae_fails e QSetCodes then None
      else Some (change_users (\<lambda>u. au_id u = uid) (\<lambda>u. u\<lparr>au_codes := Some codes\<rparr>) db))"

definition disable_tfa :: "'r auth_env \<Rightarrow> string \<Rightarrow> auth_db \<Rightarrow> auth_db option" where
  "disable_tfa e uid db =
     (if ae_fails e QDisableTfa then None
      else Some (change_users (\<lambda>u. au_id u = uid)
             (\<lambda>u. u\<lparr>au_tfa := False, au_secret := None, au_codes := None\<rparr>) db))"

text \<open>\<open>ConsumeTfaBackupCode\<close>: whether exactly one row still held the old codes.\<close>

definition consume_backup_code ::
  "'r auth_env \<Rightarrow> string \<Rightarrow> string list \<Rightarrow> string list \<Rightarrow> auth_db \<Rightarrow> (bool \<times> auth_db) option" where
  "consume_backup_code e uid old new db =
     (if ae_fails e QConsumeCode then None
      else let p = (\<lambda>u. au_id u = uid \<and> au_codes u = Some old)
           in Some (length (filter p (ad_users db)) = 1, change_users p (\<lambda>u. u\<lparr>au_codes := Some new\<rparr>) db))"

section \<open>Session statements\<close>

definition session_live :: "int \<Rightarrow> user_session \<Rightarrow> bool" where
  "session_live now s \<longleftrightarrow> \<not> us_revoked s \<and> now < us_expires s"

text \<open>\<open>ORDER BY last_activity DESC LIMIT 1\<close>.\<close>

fun most_recent :: "user_session list \<Rightarrow> user_session option" where
  "most_recent [] = None"
| "most_recent (s # ss) =
     (case most_recent ss of
        None \<Rightarrow> Some s
      | Some t \<Rightarrow> if us_activity t > us_activity s then Some t else Some s)"

definition change_sessions ::
  "(user_session \<Rightarrow> bool) \<Rightarrow> (user_session \<Rightarrow> user_session) \<Rightarrow> auth_db \<Rightarrow> auth_db" where
  "change_sessions p f db = db\<lparr>ad_sessions := update_where p f (ad_sessions db)\<rparr>"

definition find_session_by_device :: "'r auth_env \<Rightarrow> string \<Rightarrow> string \<Rightarrow> auth_db \<Rightarrow> user_session option" where
  "find_session_by_device e uid device db =
     most_recent (filter (\<lambda>s. us_user s = uid \<and> us_device s = Some device \<and> session_live (ae_now e) s) (ad_sessions db))"

definition find_session_by_fingerprint :: "'r auth_env \<Rightarrow> string \<Rightarrow> string \<Rightarrow> auth_db \<Rightarrow> user_session option" where
  "find_session_by_fingerprint e uid fp db =
     most_recent (filter (\<lambda>s. us_user s = uid \<and> us_fingerprint s = Some fp \<and> session_live (ae_now e) s) (ad_sessions db))"

definition update_existing_session ::
  "'r auth_env \<Rightarrow> user_session \<Rightarrow> string \<Rightarrow> string \<Rightarrow> int \<Rightarrow> auth_db \<Rightarrow> string option \<times> auth_db" where
  "update_existing_session e s refresh device expires db =
     (if ae_fails e QUpdateSession \<or> list_ex (\<lambda>t. us_refresh t = refresh \<and> us_id t \<noteq> us_id s) (ad_sessions db)
      then (None, db)
      else (Some (us_id s),
            change_sessions (\<lambda>t. us_id t = us_id s \<and> us_user t = us_user s)
              (\<lambda>t. t\<lparr>us_refresh := refresh, us_activity := ae_now e, us_expires := expires,
                    us_device := coalesce (non_empty device) (us_device t), us_count := us_count t + 1\<rparr>) db))"

definition create_session ::
  "'r auth_env \<Rightarrow> string \<Rightarrow> string \<Rightarrow> string \<Rightarrow> string \<Rightarrow> int \<Rightarrow> auth_db \<Rightarrow> string option \<times> auth_db" where
  "create_session e uid refresh fp device expires db =
     (if ae_fails e QCreateSession \<or> list_ex (\<lambda>t. us_refresh t = refresh \<or> us_id t = ae_session_id e) (ad_sessions db)
      then (None, db)
      else (Some (ae_session_id e),
            db\<lparr>ad_sessions := ad_sessions db @
                 [\<lparr>us_id = ae_session_id e, us_user = uid, us_refresh = refresh, us_fingerprint = non_empty fp,
                   us_device = non_empty device, us_activity = ae_now e, us_expires = expires,
                   us_revoked = False, us_count = 1\<rparr>]\<rparr>))"

text \<open>The session a sign-in ends up with: the device's own when it is still live, else a new one.\<close>

definition create_or_reuse_session ::
  "'r auth_env \<Rightarrow> string \<Rightarrow> string \<Rightarrow> string \<Rightarrow> string \<Rightarrow> int \<Rightarrow> auth_db \<Rightarrow> string option \<times> auth_db" where
  "create_or_reuse_session e uid refresh fp device expires db =
     (let by_fingerprint =
            (if fp = [] then create_session e uid refresh fp device expires db
             else if ae_fails e QFindByFingerprint then (None, db)
             else case find_session_by_fingerprint e uid fp db of
                    Some s \<Rightarrow> update_existing_session e s refresh device expires db
                  | None \<Rightarrow> create_session e uid refresh fp device expires db)
      in if device = [] then by_fingerprint
         else if ae_fails e QFindByDevice then (None, db)
         else case find_session_by_device e uid device db of
                Some s \<Rightarrow> update_existing_session e s refresh device expires db
              | None \<Rightarrow> by_fingerprint)"

definition get_session_by_token :: "'r auth_env \<Rightarrow> string \<Rightarrow> auth_db \<Rightarrow> user_session option" where
  "get_session_by_token e token db =
     (if ae_fails e QSessionByToken then None
      else find (\<lambda>s. us_refresh s = token \<and> session_live (ae_now e) s) (ad_sessions db))"

text \<open>\<open>GetAuthState\<close>: the live session joined with its user.\<close>

definition get_auth_state :: "'r auth_env \<Rightarrow> string \<Rightarrow> string \<Rightarrow> auth_db \<Rightarrow> (user_session \<times> auth_user) option" where
  "get_auth_state e sid uid db =
     (if ae_fails e QSessionState then None
      else case find (\<lambda>s. us_id s = sid \<and> us_user s = uid \<and> session_live (ae_now e) s) (ad_sessions db) of
             None \<Rightarrow> None
           | Some s \<Rightarrow> (case find_user uid (ad_users db) of None \<Rightarrow> None | Some u \<Rightarrow> Some (s, u)))"

text \<open>Revocations; the flag is whether the statement ran.\<close>

definition revoke_session :: "'r auth_env \<Rightarrow> string \<Rightarrow> string \<Rightarrow> auth_db \<Rightarrow> bool \<times> auth_db" where
  "revoke_session e sid uid db =
     (if ae_fails e QRevokeSession then (False, db)
      else (True, change_sessions (\<lambda>s. us_id s = sid \<and> us_user s = uid) (\<lambda>s. s\<lparr>us_revoked := True\<rparr>) db))"

definition revoke_all_sessions :: "'r auth_env \<Rightarrow> string \<Rightarrow> string \<Rightarrow> auth_db \<Rightarrow> bool \<times> auth_db" where
  "revoke_all_sessions e uid except db =
     (if ae_fails e QRevokeSessions then (False, db)
      else if except \<noteq> []
      then (True, change_sessions (\<lambda>s. us_user s = uid \<and> us_id s \<noteq> except) (\<lambda>s. s\<lparr>us_revoked := True\<rparr>) db)
      else (True, change_sessions (\<lambda>s. us_user s = uid) (\<lambda>s. s\<lparr>us_revoked := True\<rparr>) db))"

definition update_activity :: "'r auth_env \<Rightarrow> string \<Rightarrow> auth_db \<Rightarrow> auth_db" where
  "update_activity e sid db =
     (if ae_fails e QActivity then db
      else change_sessions (\<lambda>s. us_id s = sid) (\<lambda>s. s\<lparr>us_activity := ae_now e\<rparr>) db)"

section \<open>Trusted devices\<close>

definition trust_token_length :: nat where "trust_token_length = 43"

definition url_char :: "char \<Rightarrow> bool" where
  "url_char c \<longleftrightarrow> is_digit c \<or> is_lower c \<or> is_upper c \<or> c = CHR ''-'' \<or> c = CHR ''_''"

text \<open>\<open>base64.RawURLEncoding.DecodeString\<close> succeeds; it skips line ends.\<close>

definition raw_url_decodes :: "string \<Rightarrow> bool" where
  "raw_url_decodes s =
     (let t = filter (\<lambda>c. c \<noteq> CHR 0x0A \<and> c \<noteq> CHR 0x0D) s
      in list_all url_char t \<and> length t mod 4 \<noteq> 1)"

definition hash_trust_token :: "(string \<Rightarrow> string) \<Rightarrow> string \<Rightarrow> string" where
  "hash_trust_token sha raw =
     (if length raw \<noteq> trust_token_length then [] else if \<not> raw_url_decodes raw then [] else sha raw)"

definition device_valid :: "int \<Rightarrow> string \<Rightarrow> string \<Rightarrow> trusted_device \<Rightarrow> bool" where
  "device_valid now uid hash d \<longleftrightarrow>
     td_user d = uid \<and> td_hash d = hash \<and> \<not> td_revoked d \<and> now < td_expires d"

definition find_valid_device :: "'r auth_env \<Rightarrow> string \<Rightarrow> string \<Rightarrow> auth_db \<Rightarrow> trusted_device option" where
  "find_valid_device e uid hash db =
     (if uid = [] \<or> hash = [] \<or> ae_fails e QFindDevice then None
      else find (device_valid (ae_now e) uid hash) (ad_devices db))"

definition has_valid_device_trust :: "'r auth_env \<Rightarrow> browser \<Rightarrow> string \<Rightarrow> auth_db \<Rightarrow> trusted_device option" where
  "has_valid_device_trust e b uid db =
     (if \<not> ae_has_devices e then None
      else case br_trust_cookie b of
             None \<Rightarrow> None
           | Some c \<Rightarrow>
               if c = [] then None
               else let hash = hash_trust_token (ae_token_sha e) c
                    in if hash = [] then None else find_valid_device e uid hash db)"

definition change_devices ::
  "(trusted_device \<Rightarrow> bool) \<Rightarrow> (trusted_device \<Rightarrow> trusted_device) \<Rightarrow> auth_db \<Rightarrow> auth_db" where
  "change_devices p f db = db\<lparr>ad_devices := update_where p f (ad_devices db)\<rparr>"

definition touch_last_used :: "'r auth_env \<Rightarrow> string \<Rightarrow> auth_db \<Rightarrow> auth_db" where
  "touch_last_used e tid db =
     (if ae_fails e QTouchDevice then db
      else change_devices (\<lambda>d. td_id d = tid) (\<lambda>d. d\<lparr>td_used := ae_now e\<rparr>) db)"

definition create_trusted_device :: "'r auth_env \<Rightarrow> string \<Rightarrow> string \<Rightarrow> int \<Rightarrow> auth_db \<Rightarrow> bool \<times> auth_db" where
  "create_trusted_device e uid hash expires db =
     (if ae_fails e QCreateDevice then (False, db)
      else (True, db\<lparr>ad_devices := ad_devices db @
              [\<lparr>td_id = ae_device_row e, td_user = uid, td_hash = hash, td_used = ae_now e, td_expires = expires,
                td_revoked = False\<rparr>]\<rparr>))"

definition revoke_all_devices :: "'r auth_env \<Rightarrow> string \<Rightarrow> auth_db \<Rightarrow> bool \<times> auth_db" where
  "revoke_all_devices e uid db =
     (if ae_fails e QRevokeDevices then (False, db)
      else (True, change_devices (\<lambda>d. td_user d = uid \<and> \<not> td_revoked d) (\<lambda>d. d\<lparr>td_revoked := True\<rparr>) db))"

end
