(* ===== verification/AuthLogin.thy ===== *)
theory AuthLogin
  imports AuthAccounts
begin

text \<open>
  Signing in with a password and a second factor: \<open>Login\<close>, \<open>VerifyTfa\<close> and \<open>completeLogin\<close>
  (\<open>internal/handler/auth.go\<close>), \<open>verifyTfaCode\<close> (\<open>tfa_verify.go\<close>), the TOTP window (\<open>internal/util/totp.go\<close>)
  and the backup codes (\<open>tfa_backup.go\<close>).

  bcrypt, SHA-256, the TOTP generator, the random tokens and the signing of JWTs are parameters of the
  environment.  A handler maps the state, the tables and Redis, to its response and the next state;
  logs, audit rows and notifications are left out.
\<close>

section \<open>Responses\<close>

record login_grant =
  lg_user :: string
  lg_role :: string
  lg_session :: string
  lg_refresh :: string
  lg_expires_in :: int
  lg_trust :: "(string \<times> int) option"
  lg_enrol :: bool
  lg_change :: bool

datatype auth_response =
    Refused nat string
  | LockedOut int
  | NeedsTfa string string
  | WrongCode int
  | SignedIn login_grant
  | Refreshed string string string
  | Accepted
  | NewSecret string
  | NewCodes "string list"

type_synonym 'r auth_state = "auth_db \<times> 'r"

section \<open>The lockout as the handler uses it\<close>

definition login_ident :: "'r auth_env \<Rightarrow> browser \<Rightarrow> string \<Rightarrow> string" where
  "login_ident e b username = login_identifier (ae_sha e) (br_ip b) username"

definition login_lock_key :: "'r auth_env \<Rightarrow> browser \<Rightarrow> string \<Rightarrow> string" where
  "login_lock_key e b username = tenant_key (ae_host e) (login_lockout_prefix @ login_ident e b username)"

text \<open>\<open>lockoutRemaining\<close>.\<close>

definition lockout_remaining :: "'r auth_env \<Rightarrow> string \<Rightarrow> 'r \<Rightarrow> int" where
  "lockout_remaining e key r =
     (let (_, left) = is_locked (ae_rdb e) (ae_now e) key r
      in if left > 0 then left
         else case ae_lockout_minutes e of Some m \<Rightarrow> m * 60 | None \<Rightarrow> 900)"

text \<open>
  \<open>recordLoginFailure\<close> and the two places of \<open>Login\<close> that do the same: the attempt counts, and the answer
  is the lockout when this attempt trips it.
\<close>

definition login_failure :: "'r auth_env \<Rightarrow> browser \<Rightarrow> string \<Rightarrow> auth_response \<Rightarrow> 'r \<Rightarrow> auth_response \<times> 'r" where
  "login_failure e b username answer r =
     (case ae_login_store e of
        None \<Rightarrow> (answer, r)
      | Some own \<Rightarrow>
          (case record_failed_login (ae_rdb e) (ae_now e) (effective_limits (ae_login_resolved e) own) (ae_stamp e)
                  (ae_host e) (login_ident e b username) r of
             ((_, locked), r') \<Rightarrow>
               if locked then (LockedOut (lockout_remaining e (login_lock_key e b username) r'), r')
               else (answer, r')))"

definition clear_login_failures :: "'r auth_env \<Rightarrow> browser \<Rightarrow> string \<Rightarrow> 'r \<Rightarrow> 'r" where
  "clear_login_failures e b username r =
     (case ae_login_store e of
        None \<Rightarrow> r
      | Some _ \<Rightarrow> clear_failed_login (ae_rdb e) (ae_now e) (ae_host e) (login_ident e b username) r)"

section \<open>Durations\<close>

definition day_ms :: int where "day_ms = 24 * 60 * minute_ms"

text \<open>\<open>parseTfaRememberDuration\<close>, in nanoseconds as Go counts them; the product wraps.\<close>

definition parse_remember_duration :: "string \<Rightarrow> int" where
  "parse_remember_duration text =
     (let s = trim_space (to_lower text); fallback = 30 * day_ms * 1000000
      in if length s < 2 then fallback
         else case atoi (butlast s) of
                (n, err) \<Rightarrow>
                  if err \<noteq> None \<or> n \<le> 0 then fallback
                  else if last s = CHR ''d'' then int64_wrap (int64_wrap (n * 24) * 3600000000000)
                  else if last s = CHR ''h'' then int64_wrap (n * 3600000000000)
                  else if last s = CHR ''m'' then int64_wrap (n * 60000000000)
                  else fallback)"

definition parse_jwt_expiry :: "string \<Rightarrow> int" where
  "parse_jwt_expiry text = quot (parse_remember_duration text) 1000000000"

section \<open>Completing a sign-in\<close>

definition max_identifier_bytes :: nat where "max_identifier_bytes = 254"

definition refresh_seconds :: "bool \<Rightarrow> int" where
  "refresh_seconds remember = (if remember then 30 * 24 * 3600 else 7 * 24 * 3600)"

text \<open>The trust token of a remembered device: the cookie, and its row when that could be written.\<close>

definition mint_device_trust ::
  "'r auth_env \<Rightarrow> auth_user \<Rightarrow> bool \<Rightarrow> auth_db \<Rightarrow> (string \<times> int) option \<times> auth_db" where
  "mint_device_trust e u remember db =
     (if remember \<and> au_tfa u \<and> ae_has_devices e then
        let expires = ae_now e + quot (parse_remember_duration (ae_trust_expiry e)) 1000000
        in case ae_trust_token e of
             None \<Rightarrow> (None, db)
           | Some raw \<Rightarrow>
               (case create_trusted_device e (au_id u) (ae_token_sha e raw) expires db of
                  (ok, db') \<Rightarrow> (if ok then Some (raw, expires) else None, db'))
      else (None, db))"

definition complete_login ::
  "'r auth_env \<Rightarrow> browser \<Rightarrow> auth_user \<Rightarrow> bool \<Rightarrow> auth_db \<Rightarrow> auth_response \<times> auth_db" where
  "complete_login e b u remember db =
     (let db1 = update_last_login e (au_id u) db;
          (sid, db2) = create_or_reuse_session e (au_id u) (ae_refresh e) (br_fingerprint b) (br_device_id b)
                         (ae_now e + refresh_seconds remember * 1000) db1;
          (trust, db3) = mint_device_trust e u remember db2
      in case sid of
           None \<Rightarrow> (Refused 500 ''Failed to create token'', db3)
         | Some s \<Rightarrow>
             if s = [] \<or> \<not> ae_access_ok e then (Refused 500 ''Failed to create token'', db3)
             else (SignedIn \<lparr>lg_user = au_id u, lg_role = au_role u, lg_session = s, lg_refresh = ae_refresh e,
                             lg_expires_in = parse_jwt_expiry (ae_jwt_expiry e), lg_trust = trust,
                             lg_enrol = tfa_enrolment_pending u, lg_change = password_change_pending u\<rparr>, db3))"

section \<open>Login\<close>

record login_request =
  lr_username :: string
  lr_password :: string

definition password_bcrypt_cost :: int where "password_bcrypt_cost = 12"

definition invalid_credentials :: auth_response where "invalid_credentials = Refused 401 ''Invalid credentials''"

definition login_busy :: auth_response where "login_busy = Refused 503 ''Too many sign-in attempts, try again shortly''"

definition rehash_password :: "'r auth_env \<Rightarrow> auth_user \<Rightarrow> string \<Rightarrow> string \<Rightarrow> auth_db \<Rightarrow> auth_db" where
  "rehash_password e u stored password db =
     (case ae_cost e (trim_space stored) of
        Some c \<Rightarrow>
          if c < password_bcrypt_cost \<and> length password \<le> 72
          then (case ae_new_hash e password of
                  Some h \<Rightarrow> upgrade_password_hash e (au_id u) stored h db
                | None \<Rightarrow> db)
          else db
      | None \<Rightarrow> db)"

text \<open>After the password, and what a fallback during an outage of the identity provider asks, are settled.\<close>

definition second_factor :: "'r auth_env \<Rightarrow> browser \<Rightarrow> auth_user \<Rightarrow> 'r auth_state \<Rightarrow> auth_response \<times> 'r auth_state" where
  "second_factor e b u s =
     (let (db, r) = s;
          trusted = (if snd (ae_local e) = [] then has_valid_device_trust e b (au_id u) db else None)
      in if au_tfa u \<and> trusted = None then
           (if \<not> ae_has_tickets e then (Refused 500 ''Unable to start two-factor verification'', s)
            else case create_ticket (ae_rdb e) (ae_now e) (ae_host e) (ae_ticket e) (au_id u) r of
                   (None, r') \<Rightarrow> (Refused 500 ''Unable to start two-factor verification'', (db, r'))
                 | (Some t, r') \<Rightarrow> (NeedsTfa (au_username u) t, (db, r')))
         else let db' = (case trusted of
                           Some d \<Rightarrow> if au_tfa u then touch_last_used e (td_id d) db else db
                         | None \<Rightarrow> db);
                  (resp, db'') = complete_login e b u False db'
              in (resp, (db'', r)))"

definition password_accepted ::
  "'r auth_env \<Rightarrow> browser \<Rightarrow> login_request \<Rightarrow> auth_user \<Rightarrow> string \<Rightarrow> 'r auth_state \<Rightarrow> auth_response \<times> 'r auth_state" where
  "password_accepted e b req u stored s =
     (let (db, r) = s; name = lr_username req;
          fail = (\<lambda>answer. case login_failure e b name answer r of (resp, r') \<Rightarrow> (resp, (db, r')))
      in if \<not> au_active u then fail (Refused 401 ''Account is disabled'')
         else if snd (ae_local e) \<noteq> [] \<and> au_role u \<noteq> ''superadmin'' then fail invalid_credentials
         else if snd (ae_local e) \<noteq> [] \<and> \<not> au_tfa u
         then fail (Refused 403 ''Your identity provider is unreachable. Password sign-in is only allowed in that case for superadmins with two-factor authentication, which is not set up on this account.'')
         else second_factor e b u
                (rehash_password e u stored (trim_space (lr_password req)) db, clear_login_failures e b name r))"

text \<open>The credential check, once the request is well formed and its identifier is not locked.\<close>

definition check_credentials ::
  "'r auth_env \<Rightarrow> browser \<Rightarrow> login_request \<Rightarrow> 'r auth_state \<Rightarrow> auth_response \<times> 'r auth_state" where
  "check_credentials e b req s =
     (let (db, r) = s; name = lr_username req;
          fail = (case login_failure e b name invalid_credentials r of (resp, r') \<Rightarrow> (resp, (db, r')))
      in case get_by_username_or_email e name db of
           LookupFailed \<Rightarrow> (if ae_busy e then login_busy else invalid_credentials, s)
         | NoSuchUser \<Rightarrow> if ae_busy e then (login_busy, s) else fail
         | Found u \<Rightarrow>
             (case au_hash u of
                None \<Rightarrow> if ae_busy e then (login_busy, s) else fail
              | Some stored \<Rightarrow>
                  if ae_busy e then (login_busy, s)
                  else if \<not> ae_hash_ok e (trim_space stored) (trim_space (lr_password req)) then fail
                  else password_accepted e b req u stored s))"

definition login ::
  "'r auth_env \<Rightarrow> browser \<Rightarrow> login_request option \<Rightarrow> 'r auth_state \<Rightarrow> auth_response \<times> 'r auth_state" where
  "login e b body s =
     (if fst (ae_local e) then (Refused 403 ''Local authentication is disabled. Please use SSO.'', s)
      else case body of
             None \<Rightarrow> (Refused 400 ''Invalid request body'', s)
           | Some req \<Rightarrow>
               if lr_username req = [] \<or> lr_password req = []
               then (Refused 400 ''username and password required'', s)
               else if length (lr_username req) > max_identifier_bytes
               then (Refused 400 ''username and password required'', s)
               else
                 let (locked, left) =
                       (if ae_login_store e = None then (False, 0)
                        else is_locked (ae_rdb e) (ae_now e) (login_lock_key e b (lr_username req)) (snd s))
                 in if locked then (LockedOut left, s) else check_credentials e b req s)"

section \<open>The second factor\<close>

definition totp_window :: int where "totp_window = 2"

text \<open>\<open>MatchTOTPStep\<close>: the first step of the window whose code is the token, from the earliest on.\<close>

fun match_step :: "(string \<Rightarrow> int \<Rightarrow> string option) \<Rightarrow> string \<Rightarrow> string \<Rightarrow> int list \<Rightarrow> int option" where
  "match_step totp secret token [] = None"
| "match_step totp secret token (k # ks) =
     (case totp secret k of
        None \<Rightarrow> None
      | Some code \<Rightarrow> if code = token then Some k else match_step totp secret token ks)"

definition totp_step_of :: "int \<Rightarrow> int" where
  "totp_step_of now = now div 30000"

definition match_totp_step :: "(string \<Rightarrow> int \<Rightarrow> string option) \<Rightarrow> string \<Rightarrow> string \<Rightarrow> int \<Rightarrow> int option" where
  "match_totp_step totp secret token now =
     (if secret = [] \<or> length token \<noteq> 6 then None
      else match_step totp secret token (map (\<lambda>i. totp_step_of now + i) [- totp_window .. totp_window]))"

definition is_token :: "string \<Rightarrow> bool" where
  "is_token t \<longleftrightarrow> length t = 6 \<and> list_all (\<lambda>c. is_upper c \<or> is_digit c) t"

fun backup_index :: "(string \<Rightarrow> string \<Rightarrow> bool) \<Rightarrow> string \<Rightarrow> string list \<Rightarrow> nat option" where
  "backup_index ok code [] = None"
| "backup_index ok code (h # hs) = (if ok h code then Some 0 else map_option Suc (backup_index ok code hs))"

definition verify_backup_code :: "(string \<Rightarrow> string \<Rightarrow> bool) \<Rightarrow> string \<Rightarrow> string list \<Rightarrow> nat option" where
  "verify_backup_code ok code hashed =
     (let c = to_upper (trim_space code) in if c = [] \<or> hashed = [] then None else backup_index ok c hashed)"

text \<open>
  Consuming a backup code: compare and swap, at most three times.  \<open>ae_race\<close> is what other requests do to
  the users between the read and the swap.
\<close>

fun try_backup_codes ::
  "nat \<Rightarrow> 'r auth_env \<Rightarrow> string \<Rightarrow> string \<Rightarrow> string list option \<Rightarrow> auth_db \<Rightarrow> bool option \<times> auth_db" where
  "try_backup_codes 0 e uid token codes db = (Some False, db)"
| "try_backup_codes (Suc n) e uid token codes db =
     (case codes of
        None \<Rightarrow> (Some False, db)
      | Some hashed \<Rightarrow>
          (case verify_backup_code (ae_hash_ok e) token hashed of
             None \<Rightarrow> (Some False, db)
           | Some i \<Rightarrow>
               let raced = db\<lparr>ad_users := ae_race e n (ad_users db)\<rparr>
               in case consume_backup_code e uid hashed (take i hashed @ drop (Suc i) hashed) raced of
                    None \<Rightarrow> (None, raced)
                  | Some (True, db') \<Rightarrow> (Some True, db')
                  | Some (False, db') \<Rightarrow>
                      (case get_user e uid db' of
                         None \<Rightarrow> (None, db')
                       | Some fresh \<Rightarrow> try_backup_codes n e uid token (au_codes fresh) db')))"

text \<open>\<open>verifyTfaCode\<close>; \<open>None\<close> is an error.\<close>

definition verify_tfa_code ::
  "'r auth_env \<Rightarrow> auth_user \<Rightarrow> string \<Rightarrow> 'r auth_state \<Rightarrow> bool option \<times> 'r auth_state" where
  "verify_tfa_code e u raw s =
     (let (db, r) = s; token = to_upper (trim_space raw);
          step = (case au_secret u of
                    None \<Rightarrow> None
                  | Some secret \<Rightarrow> match_totp_step (ae_totp e) (trim_space secret) token (ae_now e))
      in if \<not> is_token token then (Some False, s)
         else case step of
                Some k \<Rightarrow>
                  (case mark_used (ae_rdb e) (ae_now e) (ae_host e) (au_id u) k r of (ok, r') \<Rightarrow> (ok, (db, r')))
              | None \<Rightarrow>
                  (case try_backup_codes 3 e (au_id u) token (au_codes u) db of (ok, db') \<Rightarrow> (ok, (db', r))))"

record tfa_request =
  tr_token :: string
  tr_remember :: bool
  tr_ticket :: string

definition tfa_lock_key :: "'r auth_env \<Rightarrow> string \<Rightarrow> string" where
  "tfa_lock_key e uid = tenant_key (ae_host e) (tfa_lockout_prefix @ uid)"

definition tfa_eligible :: "'r auth_env \<Rightarrow> auth_user \<Rightarrow> bool" where
  "tfa_eligible e u \<longleftrightarrow>
     au_active u \<and> au_tfa u \<and> au_secret u \<noteq> None \<and> \<not> (snd (ae_local e) \<noteq> [] \<and> au_role u \<noteq> ''superadmin'')"

definition wrong_code :: "'r auth_env \<Rightarrow> auth_user \<Rightarrow> 'r auth_state \<Rightarrow> auth_response \<times> 'r auth_state" where
  "wrong_code e u s =
     (let (db, r) = s
      in case ae_tfa_store e of
           None \<Rightarrow> (Refused 401 ''Invalid verification code'', s)
         | Some own \<Rightarrow>
             (case record_failed_tfa (ae_rdb e) (ae_now e) (effective_limits (ae_tfa_resolved e) own) (ae_stamp e)
                     (ae_host e) (au_id u) r of
                ((attempts, locked), r') \<Rightarrow>
                  (if locked then Refused 429 ''Too many failed TFA attempts. Please try again later.''
                   else WrongCode (max 0 (ae_max_tfa e - attempts)), (db, r'))))"

definition tfa_verified ::
  "'r auth_env \<Rightarrow> browser \<Rightarrow> bool \<Rightarrow> auth_user \<Rightarrow> 'r auth_state \<Rightarrow> auth_response \<times> 'r auth_state" where
  "tfa_verified e b remember u s =
     (let (db, r) = s;
          r' = (case ae_tfa_store e of
                  None \<Rightarrow> r
                | Some _ \<Rightarrow> clear_failed_tfa (ae_rdb e) (ae_now e) (ae_host e) (au_id u) r);
          (resp, db') = complete_login e b u (if snd (ae_local e) \<noteq> [] then False else remember) db
      in (resp, (db', r')))"

definition verify_ticket_user ::
  "'r auth_env \<Rightarrow> browser \<Rightarrow> tfa_request \<Rightarrow> string \<Rightarrow> 'r auth_state \<Rightarrow> auth_response \<times> 'r auth_state" where
  "verify_ticket_user e b req uid s =
     (case get_user e uid (fst s) of
        None \<Rightarrow> (Refused 401 ''Invalid credentials or TFA not enabled'', s)
      | Some u \<Rightarrow>
          if \<not> tfa_eligible e u then (Refused 401 ''Invalid credentials or TFA not enabled'', s)
          else if ae_tfa_store e \<noteq> None \<and> fst (is_locked (ae_rdb e) (ae_now e) (tfa_lock_key e (au_id u)) (snd s))
          then (Refused 429 ''Too many failed TFA attempts. Please try again later.'', s)
          else (case verify_tfa_code e u (tr_token req) s of
                  (None, s') \<Rightarrow> (Refused 500 ''Two-factor verification unavailable'', s')
                | (Some False, s') \<Rightarrow> wrong_code e u s'
                | (Some True, s') \<Rightarrow> tfa_verified e b (tr_remember req) u s'))"

definition verify_tfa ::
  "'r auth_env \<Rightarrow> browser \<Rightarrow> tfa_request option \<Rightarrow> 'r auth_state \<Rightarrow> auth_response \<times> 'r auth_state" where
  "verify_tfa e b body s =
     (if fst (ae_local e) then (Refused 403 ''Local authentication is disabled. Please use SSO.'', s)
      else case body of
             None \<Rightarrow> (Refused 400 ''Invalid request body'', s)
           | Some req \<Rightarrow>
               let token = to_upper (trim_space (tr_token req)); req' = req\<lparr>tr_token := token\<rparr>
               in if length token \<noteq> 6 then (Refused 400 ''6-character token required'', s)
                  else if \<not> is_token token then (Refused 400 ''Token must be 6 alphanumeric characters'', s)
                  else if \<not> ae_has_tickets e then (Refused 500 ''Two-factor verification unavailable'', s)
                  else (case consume_ticket (ae_rdb e) (ae_now e) (ae_host e) (tr_ticket req) (snd s) of
                          (None, r') \<Rightarrow> (Refused 401 ''Login session expired, please sign in again'', (fst s, r'))
                        | (Some uid, r') \<Rightarrow> verify_ticket_user e b req' uid (fst s, r')))"

end
