(* ===== verification/AuthSessions.thy ===== *)
theory AuthSessions
  imports AuthLogin
begin

text \<open>
  What a signed-in user does with a session: the middleware that admits a request
  (\<open>internal/middleware/auth.go\<close>), refreshing the access token, signing out, revoking sessions, changing the
  password (\<open>internal/handler/auth.go\<close>) and managing the second factor (\<open>tfa.go\<close>); and the requests of the
  whole sign-in code as one state machine.

  Parsing a JWT is a parameter: the claims of a token whose signature is good and which has not expired.
\<close>

section \<open>Admitting a request\<close>

record token_claims =
  tc_type :: string
  tc_user :: string
  tc_role :: string
  tc_session :: string

type_synonym token_parser = "int \<Rightarrow> string \<Rightarrow> token_claims option"

definition password_change_routes :: "string list" where
  "password_change_routes =
     [''PUT /api/v1/auth/change-password'', ''GET /api/v1/auth/profile'', ''POST /api/v1/auth/logout'']"

definition tfa_enrolment_routes :: "string list" where
  "tfa_enrolment_routes =
     [''GET /api/v1/tfa/setup'', ''POST /api/v1/tfa/verify-setup'', ''GET /api/v1/tfa/status'',
      ''GET /api/v1/auth/profile'', ''POST /api/v1/auth/logout'']"

definition inactive :: "'r auth_env \<Rightarrow> user_session \<Rightarrow> bool" where
  "inactive e s =
     (case ae_inactivity_minutes e of
        None \<Rightarrow> False
      | Some m \<Rightarrow> m > 0 \<and> (ae_now e - us_activity s) * 1000000 > go_minutes m)"

text \<open>A request: the token, the route as method and path (empty for an escaped path), the activity header.\<close>

record api_request =
  rq_token :: string
  rq_route :: string
  rq_activity :: bool

datatype admission = Denied nat string | Admitted string string string

definition admit_session ::
  "'r auth_env \<Rightarrow> api_request \<Rightarrow> token_claims \<Rightarrow> auth_db \<Rightarrow> admission \<times> auth_db" where
  "admit_session e rq c db =
     (case get_auth_state e (tc_session c) (tc_user c) db of
        None \<Rightarrow> (Denied 401 ''Session expired'', db)
      | Some (s, u) \<Rightarrow>
          if inactive e s
          then (Denied 401 ''Session expired due to inactivity'', snd (revoke_session e (tc_session c) (tc_user c) db))
          else if password_change_pending u \<and> rq_route rq \<notin> set password_change_routes
          then (Denied 403 ''A new password is required'', db)
          else if \<not> password_change_pending u \<and> tfa_enrolment_pending u \<and> rq_route rq \<notin> set tfa_enrolment_routes
          then (Denied 403 ''Two-factor authentication setup is required'', db)
          else (Admitted (tc_user c) (tc_role c) (tc_session c),
                if rq_activity rq then update_activity e (tc_session c) db else db))"

text \<open>\<open>AuthWithSessionCheck\<close>, with its session store.\<close>

definition authenticate :: "token_parser \<Rightarrow> 'r auth_env \<Rightarrow> api_request \<Rightarrow> auth_db \<Rightarrow> admission \<times> auth_db" where
  "authenticate parse e rq db =
     (if rq_token rq = [] then (Denied 401 ''Unauthorized'', db)
      else case parse (ae_now e) (rq_token rq) of
             None \<Rightarrow> (Denied 401 ''Invalid token'', db)
           | Some c \<Rightarrow>
               if tc_type c \<noteq> ''access'' \<or> tc_user c = [] then (Denied 401 ''Invalid token'', db)
               else if tc_session c = [] then (Admitted (tc_user c) (tc_role c) [], db)
               else admit_session e rq c db)"

section \<open>Refreshing the access token\<close>

definition refresh_access ::
  "token_parser \<Rightarrow> 'r auth_env \<Rightarrow> string option \<Rightarrow> auth_db \<Rightarrow> auth_response \<times> auth_db" where
  "refresh_access parse e cookie db =
     (case cookie of
        None \<Rightarrow> (Refused 401 ''Missing refresh token'', db)
      | Some token \<Rightarrow>
          if token = [] then (Refused 401 ''Missing refresh token'', db)
          else case parse (ae_now e) token of
                 None \<Rightarrow> (Refused 401 ''Invalid refresh token'', db)
               | Some c \<Rightarrow>
                   if tc_type c \<noteq> ''refresh'' \<or> tc_user c = [] then (Refused 401 ''Invalid refresh token'', db)
                   else case get_session_by_token e token db of
                          None \<Rightarrow> (Refused 401 ''Session expired'', db)
                        | Some s \<Rightarrow>
                            if us_user s \<noteq> tc_user c then (Refused 401 ''Session expired'', db)
                            else if inactive e s
                            then (Refused 401 ''Session expired due to inactivity'', snd (revoke_session e (us_id s) (us_user s) db))
                            else case get_user e (tc_user c) db of
                                   None \<Rightarrow> (Refused 401 ''Session expired'', db)
                                 | Some u \<Rightarrow>
                                     if \<not> au_active u then (Refused 401 ''Session expired'', db)
                                     else if us_id s = [] \<or> \<not> ae_access_ok e
                                     then (Refused 500 ''Failed to refresh session'', db)
                                     else (Refreshed (au_id u) (au_role u) (us_id s), db))"

section \<open>What an admitted user may do\<close>

definition change_password ::
  "'r auth_env \<Rightarrow> string \<Rightarrow> string \<Rightarrow> string \<Rightarrow> string \<Rightarrow> auth_db \<Rightarrow> auth_response \<times> auth_db" where
  "change_password e uid sid current new db =
     (let cur = trim_space current; nw = trim_space new
      in if uid = [] then (Refused 401 ''Unauthorized'', db)
         else if cur = [] then (Refused 400 ''Current password is required'', db)
         else case ae_policy e nw of
                Some msg \<Rightarrow> (Refused 400 msg, db)
              | None \<Rightarrow>
                  (case get_user e uid db of
                     None \<Rightarrow> (Refused 404 ''User not found'', db)
                   | Some u \<Rightarrow>
                       (case au_hash u of
                          None \<Rightarrow> (Refused 400 ''Cannot change password for OIDC-only accounts'', db)
                        | Some stored \<Rightarrow>
                            if \<not> ae_hash_ok e (trim_space stored) cur then (Refused 401 ''Current password is incorrect'', db)
                            else if nw = cur
                            then (Refused 400 ''New password must be different from the current password'', db)
                            else if au_change_required u
                                    \<and> (case au_previous_hash u of None \<Rightarrow> False | Some p \<Rightarrow> ae_hash_ok e (trim_space p) nw)
                            then (Refused 400 (''Choose a password you haven'' @ [CHR 0x27] @ ''t used before''), db)
                            else case ae_new_hash e nw of
                                   None \<Rightarrow> (Refused 500 ''Failed to hash password'', db)
                                 | Some h \<Rightarrow>
                                     (case update_password e uid h db of
                                        None \<Rightarrow> (Refused 500 ''Failed to change password'', db)
                                      | Some db1 \<Rightarrow>
                                          let db2 = (if ae_has_devices e then snd (revoke_all_devices e uid db1) else db1)
                                          in (Accepted, snd (revoke_all_sessions e uid sid db2))))))"

definition logout :: "'r auth_env \<Rightarrow> string \<Rightarrow> string \<Rightarrow> auth_db \<Rightarrow> auth_response \<times> auth_db" where
  "logout e uid sid db = (Accepted, if sid \<noteq> [] \<and> uid \<noteq> [] then snd (revoke_session e sid uid db) else db)"

definition revoke_one_session ::
  "'r auth_env \<Rightarrow> string \<Rightarrow> string \<Rightarrow> string \<Rightarrow> auth_db \<Rightarrow> auth_response \<times> auth_db" where
  "revoke_one_session e uid sid target db =
     (if uid = [] then (Refused 401 ''Unauthorized'', db)
      else if target = [] then (Refused 400 ''Session ID required'', db)
      else if target = sid then (Refused 400 ''Cannot revoke current session'', db)
      else case revoke_session e target uid db of
             (ok, db') \<Rightarrow> (if ok then Accepted else Refused 404 ''Session not found'', db'))"

definition revoke_other_sessions :: "'r auth_env \<Rightarrow> string \<Rightarrow> string \<Rightarrow> auth_db \<Rightarrow> auth_response \<times> auth_db" where
  "revoke_other_sessions e uid sid db =
     (if uid = [] then (Refused 401 ''Unauthorized'', db)
      else case revoke_all_sessions e uid sid db of
             (ok, db') \<Rightarrow> (if ok then Accepted else Refused 500 ''Failed to revoke sessions'', db'))"

text \<open>The second factor: \<open>Setup\<close>, \<open>VerifySetup\<close>, \<open>Disable\<close>, \<open>RegenerateBackupCodes\<close>.\<close>

definition tfa_setup :: "'r auth_env \<Rightarrow> string \<Rightarrow> auth_db \<Rightarrow> auth_response \<times> auth_db" where
  "tfa_setup e uid db =
     (if uid = [] then (Refused 401 ''Unauthorized'', db)
      else case get_user e uid db of
             None \<Rightarrow> (Refused 404 ''User not found'', db)
           | Some u \<Rightarrow>
               if au_tfa u then (Refused 400 ''Two-factor authentication is already enabled for this account'', db)
               else if au_oidc_sub u \<noteq> None \<or> au_oidc_provider u \<noteq> None
               then (Refused 400 ''MFA is managed by your OIDC provider'', db)
               else case ae_secret e of
                      None \<Rightarrow> (Refused 500 ''Failed to setup two-factor authentication'', db)
                    | Some secret \<Rightarrow>
                        (case update_tfa_secret e uid secret db of
                           None \<Rightarrow> (Refused 500 ''Failed to setup two-factor authentication'', db)
                         | Some db' \<Rightarrow> (if ae_qr_ok e then NewSecret secret else Refused 500 ''Failed to generate QR code'', db')))"

text \<open>\<open>VerifyTOTP\<close>: a code of a step in the window.\<close>

definition verify_totp :: "(string \<Rightarrow> int \<Rightarrow> string option) \<Rightarrow> string \<Rightarrow> string \<Rightarrow> int \<Rightarrow> bool" where
  "verify_totp totp secret token now \<longleftrightarrow>
     secret \<noteq> [] \<and> token \<noteq> []
     \<and> list_ex (\<lambda>i. totp secret (totp_step_of now + i) = Some token) [- totp_window .. totp_window]"

definition tfa_verify_setup :: "'r auth_env \<Rightarrow> string \<Rightarrow> string \<Rightarrow> auth_db \<Rightarrow> auth_response \<times> auth_db" where
  "tfa_verify_setup e uid raw db =
     (let token = trim_space raw
      in if uid = [] then (Refused 401 ''Unauthorized'', db)
         else if length token \<noteq> 6 \<or> \<not> is_token (to_upper token) then (Refused 400 ''Token must be exactly 6 digits'', db)
         else case get_user e uid db of
                None \<Rightarrow> (Refused 400 ''No TFA secret found. Please start the setup process first.'', db)
              | Some u \<Rightarrow>
                  (case au_secret u of
                     None \<Rightarrow> (Refused 400 ''No TFA secret found. Please start the setup process first.'', db)
                   | Some secret \<Rightarrow>
                       if au_tfa u then (Refused 400 ''No TFA secret found. Please start the setup process first.'', db)
                       else if \<not> verify_totp (ae_totp e) (trim_space secret) token (ae_now e)
                       then (Refused 400 ''Invalid verification code. Please try again.'', db)
                       else case ae_code_hashes e of
                              None \<Rightarrow> (Refused 500 ''Failed to enable two-factor authentication'', db)
                            | Some hashes \<Rightarrow>
                                (case update_tfa_enabled e uid hashes db of
                                   None \<Rightarrow> (Refused 500 ''Failed to enable two-factor authentication'', db)
                                 | Some db' \<Rightarrow> (NewCodes (ae_codes e), db'))))"

definition tfa_disable :: "'r auth_env \<Rightarrow> string \<Rightarrow> string \<Rightarrow> auth_db \<Rightarrow> auth_response \<times> auth_db" where
  "tfa_disable e uid password db =
     (let pw = trim_space password
      in if uid = [] then (Refused 401 ''Unauthorized'', db)
         else if pw = [] then (Refused 400 ''Password is required to disable TFA'', db)
         else case get_user e uid db of
                None \<Rightarrow> (Refused 404 ''User not found'', db)
              | Some u \<Rightarrow>
                  if \<not> au_tfa u then (Refused 400 ''Two-factor authentication is not enabled for this account'', db)
                  else case au_hash u of
                         None \<Rightarrow> (Refused 400 ''Cannot disable TFA for accounts without a password (e.g., OIDC-only accounts)'', db)
                       | Some stored \<Rightarrow>
                           if \<not> ae_hash_ok e (trim_space stored) pw then (Refused 401 ''Invalid password'', db)
                           else case disable_tfa e uid db of
                                  None \<Rightarrow> (Refused 500 ''Failed to disable two-factor authentication'', db)
                                | Some db' \<Rightarrow>
                                    (Accepted, if ae_has_devices e then snd (revoke_all_devices e uid db') else db'))"

definition tfa_regenerate :: "'r auth_env \<Rightarrow> string \<Rightarrow> auth_db \<Rightarrow> auth_response \<times> auth_db" where
  "tfa_regenerate e uid db =
     (if uid = [] then (Refused 401 ''Unauthorized'', db)
      else case get_user e uid db of
             None \<Rightarrow> (Refused 404 ''User not found'', db)
           | Some u \<Rightarrow>
               if \<not> au_tfa u then (Refused 400 ''Two-factor authentication is not enabled for this account'', db)
               else case ae_code_hashes e of
                      None \<Rightarrow> (Refused 500 ''Failed to regenerate backup codes'', db)
                    | Some hashes \<Rightarrow>
                        (case update_tfa_backup_codes e uid hashes db of
                           None \<Rightarrow> (Refused 500 ''Failed to regenerate backup codes'', db)
                         | Some db' \<Rightarrow> (NewCodes (ae_codes e), db')))"

section \<open>The requests as a state machine\<close>

datatype user_action =
    ChangePassword string string
  | Logout
  | RevokeSession string
  | RevokeOthers
  | TfaSetup
  | TfaVerifySetup string
  | TfaDisable string
  | TfaRegenerate

datatype auth_op =
    LoginOp browser "login_request option"
  | VerifyOp browser "tfa_request option"
  | RefreshOp "string option"
  | UserOp api_request user_action

definition do_action :: "'r auth_env \<Rightarrow> string \<Rightarrow> string \<Rightarrow> user_action \<Rightarrow> auth_db \<Rightarrow> auth_response \<times> auth_db" where
  "do_action e uid sid a db =
     (case a of
        ChangePassword cur new \<Rightarrow> change_password e uid sid cur new db
      | Logout \<Rightarrow> logout e uid sid db
      | RevokeSession target \<Rightarrow> revoke_one_session e uid sid target db
      | RevokeOthers \<Rightarrow> revoke_other_sessions e uid sid db
      | TfaSetup \<Rightarrow> tfa_setup e uid db
      | TfaVerifySetup token \<Rightarrow> tfa_verify_setup e uid token db
      | TfaDisable pw \<Rightarrow> tfa_disable e uid pw db
      | TfaRegenerate \<Rightarrow> tfa_regenerate e uid db)"

definition do_op :: "token_parser \<Rightarrow> 'r auth_env \<Rightarrow> auth_op \<Rightarrow> 'r auth_state \<Rightarrow> auth_response \<times> 'r auth_state" where
  "do_op parse e op s =
     (case op of
        LoginOp b body \<Rightarrow> login e b body s
      | VerifyOp b body \<Rightarrow> verify_tfa e b body s
      | RefreshOp cookie \<Rightarrow> (case refresh_access parse e cookie (fst s) of (resp, db) \<Rightarrow> (resp, (db, snd s)))
      | UserOp rq a \<Rightarrow>
          (case authenticate parse e rq (fst s) of
             (Denied code msg, db) \<Rightarrow> (Refused code msg, (db, snd s))
           | (Admitted uid role sid, db) \<Rightarrow>
               (case do_action e uid sid a db of (resp, db') \<Rightarrow> (resp, (db', snd s)))))"

end
