(* ===== verification/AuthSafety.thy ===== *)
theory AuthSafety
  imports AuthSessions
begin

text \<open>
  What a sign-in needs and what it leaves behind: a refused password says nothing about the account, a
  session comes only from the right password and second factor, and changing the password ends every
  other way in.
\<close>

section \<open>Sessions a sign-in creates\<close>

lemma most_recent_mem: "most_recent ss = Some s \<Longrightarrow> s \<in> set ss"
  by (induction ss arbitrary: s) (auto split: option.splits if_splits)

lemma update_where_set: "x \<in> set xs \<Longrightarrow> p x \<Longrightarrow> f x \<in> set (update_where p f xs)"
  by (induction xs) (auto simp: update_where_def)

lemma find_someD: "find p xs = Some x \<Longrightarrow> x \<in> set xs \<and> p x"
  by (induction xs) (auto split: if_splits)

lemma find_user_id: "find_user uid us = Some u \<Longrightarrow> au_id u = uid \<and> u \<in> set us"
  by (auto simp: find_user_def dest: find_someD)

text \<open>A session held by a browser: its token, its user, and not yet over.\<close>

definition has_session :: "auth_db \<Rightarrow> int \<Rightarrow> string \<Rightarrow> string \<Rightarrow> string \<Rightarrow> bool" where
  "has_session db now uid sid refresh \<longleftrightarrow>
     (\<exists>s\<in>set (ad_sessions db). us_id s = sid \<and> us_user s = uid \<and> us_refresh s = refresh \<and> session_live now s)"

lemma update_existing_has_session:
  assumes "update_existing_session e s refresh device expires db = (Some sid, db')"
    and "s \<in> set (ad_sessions db)" and "us_user s = uid" and "session_live (ae_now e) s" and "ae_now e < expires"
  shows "has_session db' (ae_now e) uid sid refresh"
proof -
  let ?f = "\<lambda>t. t\<lparr>us_refresh := refresh, us_activity := ae_now e, us_expires := expires,
               us_device := coalesce (non_empty device) (us_device t), us_count := us_count t + 1\<rparr>"
  let ?p = "\<lambda>t. us_id t = us_id s \<and> us_user t = us_user s"
  have "?f s \<in> set (update_where ?p ?f (ad_sessions db))" by (rule update_where_set) (use assms(2) in auto)
  then show ?thesis using assms
    by (auto simp: update_existing_session_def change_sessions_def has_session_def session_live_def
        split: if_splits intro!: bexI [of _ "?f s"])
qed

lemma create_has_session:
  assumes "create_session e uid refresh fp device expires db = (Some sid, db')" and "ae_now e < expires"
  shows "has_session db' (ae_now e) uid sid refresh"
  using assms by (auto simp: create_session_def has_session_def session_live_def split: if_splits)

lemma create_or_reuse_has_session:
  assumes "create_or_reuse_session e uid refresh fp device expires db = (Some sid, db')" and "ae_now e < expires"
  shows "has_session db' (ae_now e) uid sid refresh"
  using assms
  by (auto simp: create_or_reuse_session_def Let_def find_session_by_device_def find_session_by_fingerprint_def
      split: if_splits option.splits dest!: most_recent_mem
      intro: create_has_session update_existing_has_session)

lemma mint_keeps_sessions: "mint_device_trust e u remember db = (trust, db') \<Longrightarrow> ad_sessions db' = ad_sessions db"
  by (auto simp: mint_device_trust_def create_trusted_device_def Let_def split: if_splits option.splits prod.splits)

lemma refresh_seconds_pos: "0 < refresh_seconds remember"
  by (simp add: refresh_seconds_def)

text \<open>What \<open>completeLogin\<close> grants: a live session of this very user.\<close>

lemma complete_login_grants:
  assumes "complete_login e b u remember db = (SignedIn g, db')"
  shows "lg_user g = au_id u \<and> lg_role g = au_role u \<and> has_session db' (ae_now e) (au_id u) (lg_session g) (lg_refresh g)"
proof -
  obtain sid db2 where c: "create_or_reuse_session e (au_id u) (ae_refresh e) (br_fingerprint b) (br_device_id b)
      (ae_now e + refresh_seconds remember * 1000) (update_last_login e (au_id u) db) = (sid, db2)" by fastforce
  obtain trust db3 where m: "mint_device_trust e u remember db2 = (trust, db3)" by fastforce
  obtain s where s: "sid = Some s" and g: "g = \<lparr>lg_user = au_id u, lg_role = au_role u, lg_session = s,
      lg_refresh = ae_refresh e, lg_expires_in = parse_jwt_expiry (ae_jwt_expiry e), lg_trust = trust,
      lg_enrol = tfa_enrolment_pending u, lg_change = password_change_pending u\<rparr>" and d: "db' = db3"
    using assms by (auto simp: complete_login_def Let_def c m split: option.splits if_splits)
  have "has_session db2 (ae_now e) (au_id u) s (ae_refresh e)"
    by (rule create_or_reuse_has_session [OF c [unfolded s]]) (simp add: refresh_seconds_pos)
  then show ?thesis using mint_keeps_sessions [OF m] by (simp add: g d has_session_def)
qed

lemma complete_login_answers: "fst (complete_login e b u remember db) \<noteq> NeedsTfa x t \<and> fst (complete_login e b u remember db) \<noteq> LockedOut n"
  by (auto simp: complete_login_def Let_def split: prod.splits option.splits)

section \<open>The ways a sign-in can go\<close>

text \<open>The user and password of a request are good.\<close>

definition password_proven :: "'r auth_env \<Rightarrow> login_request \<Rightarrow> auth_db \<Rightarrow> auth_user \<Rightarrow> bool" where
  "password_proven e req db u \<longleftrightarrow>
     \<not> ae_fails e QLookup \<and> find_by_name (lr_username req) (ad_users db) = Some u
     \<and> (case au_hash u of
          None \<Rightarrow> False
        | Some stored \<Rightarrow> ae_hash_ok e (trim_space stored) (trim_space (lr_password req)))"

fun refusal :: "auth_response \<Rightarrow> bool" where
  "refusal (Refused c m) = True"
| "refusal (LockedOut n) = True"
| "refusal _ = False"

lemma login_failure_refuses: "refusal (fst (login_failure e b name (Refused code msg) r))"
  by (auto simp: login_failure_def split: option.splits prod.splits if_splits)

text \<open>
  The request is settled before any credential counts; or it fails and the failure is recorded; or the
  password is good and the second factor decides.
\<close>

definition settled :: "auth_response \<times> 'r auth_state \<Rightarrow> 'r auth_state \<Rightarrow> bool" where
  "settled out s \<longleftrightarrow> refusal (fst out) \<and> snd out = s"

definition failed_attempt :: "'r auth_env \<Rightarrow> browser \<Rightarrow> string \<Rightarrow> auth_response \<times> 'r auth_state \<Rightarrow> 'r auth_state \<Rightarrow> bool" where
  "failed_attempt e b name out s \<longleftrightarrow>
     (\<exists>code msg. out = (case login_failure e b name (Refused code msg) (snd s) of (resp, r') \<Rightarrow> (resp, (fst s, r'))))"

definition at_second_factor ::
  "'r auth_env \<Rightarrow> browser \<Rightarrow> login_request \<Rightarrow> auth_user \<Rightarrow> auth_response \<times> 'r auth_state \<Rightarrow> 'r auth_state \<Rightarrow> bool" where
  "at_second_factor e b req u out s \<longleftrightarrow>
     password_proven e req (fst s) u \<and> au_active u
     \<and> (snd (ae_local e) \<noteq> [] \<longrightarrow> au_role u = ''superadmin'' \<and> au_tfa u)
     \<and> (\<exists>stored. out = second_factor e b u
           (rehash_password e u stored (trim_space (lr_password req)) (fst s),
            clear_login_failures e b (lr_username req) (snd s)))"

lemma password_accepted_cases:
  assumes "password_proven e req (fst s) u"
  shows "failed_attempt e b (lr_username req) (password_accepted e b req u stored s) s
     \<or> at_second_factor e b req u (password_accepted e b req u stored s) s"
proof (cases s)
  case (Pair db r)
  show ?thesis
  proof (cases "au_active u \<and> (snd (ae_local e) \<noteq> [] \<longrightarrow> au_role u = ''superadmin'' \<and> au_tfa u)")
    case True
    then have "at_second_factor e b req u (password_accepted e b req u stored s) s"
      using assms by (auto simp: at_second_factor_def password_accepted_def Pair Let_def)
    then show ?thesis ..
  next
    case False
    then have "\<exists>code msg. password_accepted e b req u stored s
        = (case login_failure e b (lr_username req) (Refused code msg) r of (resp, r') \<Rightarrow> (resp, (db, r')))"
      by (auto simp: password_accepted_def Pair Let_def invalid_credentials_def)
    then show ?thesis by (simp add: failed_attempt_def Pair)
  qed
qed

lemma check_credentials_cases:
  "(\<exists>code msg. check_credentials e b req s = (Refused code msg, s))
   \<or> failed_attempt e b (lr_username req) (check_credentials e b req s) s
   \<or> (\<exists>u. at_second_factor e b req u (check_credentials e b req s) s)"
proof -
  obtain db r where s: "s = (db, r)" by fastforce
  show ?thesis
  proof (cases "\<exists>u. password_proven e req db u \<and> \<not> ae_busy e")
    case True
    then obtain u where u: "password_proven e req (fst s) u" "\<not> ae_busy e" by (auto simp: s)
    then obtain stored where "check_credentials e b req s = password_accepted e b req u stored s"
      by (auto simp: check_credentials_def password_proven_def get_by_username_or_email_def s Let_def split: option.splits)
    then show ?thesis using password_accepted_cases [OF u(1), of b stored] by auto
  next
    case False
    then show ?thesis
      by (auto simp: failed_attempt_def check_credentials_def password_proven_def s Let_def
          get_by_username_or_email_def invalid_credentials_def login_busy_def split: option.splits)
  qed
qed

lemma login_cases:
  obtains (settled) "settled (login e b body s) s"
  | (failed) req where "body = Some req" and "failed_attempt e b (lr_username req) (login e b body s) s"
  | (proven) req u where "body = Some req" and "\<not> fst (ae_local e)" and "at_second_factor e b req u (login e b body s) s"
proof -
  have "settled (login e b body s) s \<or> (\<exists>req. body = Some req \<and> failed_attempt e b (lr_username req) (login e b body s) s)
      \<or> (\<exists>req u. body = Some req \<and> \<not> fst (ae_local e) \<and> at_second_factor e b req u (login e b body s) s)"
  proof (cases "\<exists>req. body = Some req \<and> login e b body s = check_credentials e b req s \<and> \<not> fst (ae_local e)")
    case True
    then obtain req where req: "body = Some req" "login e b body s = check_credentials e b req s" "\<not> fst (ae_local e)" by blast
    then show ?thesis using check_credentials_cases [of e b req s] by (auto simp: settled_def)
  next
    case False
    then have "settled (login e b body s) s" by (auto simp: login_def settled_def Let_def split: option.splits prod.splits if_splits)
    then show ?thesis ..
  qed
  then show ?thesis using that by blast
qed

lemma failed_attempt_refuses: "failed_attempt e b name out s \<Longrightarrow> refusal (fst out) \<and> fst (snd out) = fst s"
  by (auto simp: failed_attempt_def case_prod_beta intro: login_failure_refuses)

text \<open>A sign-in that answers with a session or a ticket was past the password.\<close>

lemma answered_login_proven:
  assumes "login e b body s = (resp, s')" and "\<not> refusal resp"
  obtains req u where "body = Some req" and "\<not> fst (ae_local e)" and "at_second_factor e b req u (resp, s') s"
  using login_cases [of e b body s] failed_attempt_refuses assms unfolding settled_def by (metis fst_conv)

lemma has_device_trustD:
  assumes "has_valid_device_trust e b uid db = Some d"
  shows "\<exists>c. br_trust_cookie b = Some c \<and> d \<in> set (ad_devices db) \<and> device_valid (ae_now e) uid (ae_token_sha e c) d"
  using assms
  by (auto simp: has_valid_device_trust_def find_valid_device_def Let_def hash_trust_token_def
      split: if_splits option.splits dest!: find_someD)

lemma rehash_keeps: "ad_devices (rehash_password e u stored pw db) = ad_devices db
    \<and> ad_sessions (rehash_password e u stored pw db) = ad_sessions db"
  by (simp add: rehash_password_def upgrade_password_hash_def change_users_def split: option.split)

text \<open>The second factor answers with a session when there is none to ask for, or the device is trusted.\<close>

lemma second_factor_signed_in:
  assumes "second_factor e b u (db, r) = (SignedIn g, s')"
  shows "(au_tfa u \<longrightarrow> snd (ae_local e) = [] \<and> (\<exists>d. has_valid_device_trust e b (au_id u) db = Some d))
     \<and> lg_user g = au_id u \<and> lg_role g = au_role u
     \<and> has_session (fst s') (ae_now e) (au_id u) (lg_session g) (lg_refresh g)"
proof -
  obtain db' where c: "complete_login e b u False db' = (SignedIn g, fst s')"
    using assms by (auto simp: second_factor_def Let_def split: if_splits prod.splits option.splits)
  have "au_tfa u \<longrightarrow> snd (ae_local e) = [] \<and> (\<exists>d. has_valid_device_trust e b (au_id u) db = Some d)"
    using assms by (auto simp: second_factor_def Let_def split: if_splits prod.splits option.splits)
  then show ?thesis using complete_login_grants [OF c] by blast
qed

text \<open>
  C11: a password sign-in that answers with a session had the right password of an active account, no
  outage of the identity provider, and, for an account with a second factor, a valid trusted device; the
  session is live and belongs to that account.
\<close>

theorem login_requires_every_factor:
  assumes "login e b body (db, r) = (SignedIn g, (db', r'))"
  shows "\<exists>req u. body = Some req \<and> password_proven e req db u \<and> au_active u \<and> ae_local e = (False, [])
     \<and> (au_tfa u \<longrightarrow> (\<exists>cookie d. br_trust_cookie b = Some cookie \<and> d \<in> set (ad_devices db)
          \<and> device_valid (ae_now e) (au_id u) (ae_token_sha e cookie) d))
     \<and> lg_user g = au_id u \<and> lg_role g = au_role u
     \<and> has_session db' (ae_now e) (au_id u) (lg_session g) (lg_refresh g)"
proof -
  obtain req u where body: "body = Some req" and loc: "\<not> fst (ae_local e)"
    and at: "at_second_factor e b req u (SignedIn g, (db', r')) (db, r)"
    by (rule answered_login_proven [OF assms]) simp
  obtain stored where sf: "second_factor e b u (rehash_password e u stored (trim_space (lr_password req)) db,
      clear_login_failures e b (lr_username req) r) = (SignedIn g, (db', r'))"
    using at unfolding at_second_factor_def by (metis fst_conv snd_conv)
  note grant = second_factor_signed_in [OF sf]
  have fallback: "snd (ae_local e) = []" using at grant by (auto simp: at_second_factor_def)
  have "au_tfa u \<longrightarrow> (\<exists>cookie d. br_trust_cookie b = Some cookie \<and> d \<in> set (ad_devices db)
      \<and> device_valid (ae_now e) (au_id u) (ae_token_sha e cookie) d)"
    using grant has_device_trustD by (metis rehash_keeps)
  then show ?thesis using body loc at grant fallback
    by (intro exI [of _ req] exI [of _ u]) (simp add: at_second_factor_def prod_eq_iff)
qed

section \<open>A refused password says nothing about the account\<close>

definition credentials_rejected :: "'r auth_env \<Rightarrow> login_request \<Rightarrow> auth_db \<Rightarrow> bool" where
  "credentials_rejected e req db \<longleftrightarrow>
     \<not> ae_fails e QLookup
     \<and> (case find_by_name (lr_username req) (ad_users db) of
          None \<Rightarrow> True
        | Some u \<Rightarrow> (case au_hash u of
                       None \<Rightarrow> True
                     | Some h \<Rightarrow> \<not> ae_hash_ok e (trim_space h) (trim_space (lr_password req))))"

lemma rejected_check:
  "credentials_rejected e req db \<Longrightarrow>
     check_credentials e b req (db, r) =
       (if ae_busy e then (login_busy, (db, r))
        else case login_failure e b (lr_username req) invalid_credentials r of (resp, r') \<Rightarrow> (resp, (db, r')))"
  by (auto simp: check_credentials_def credentials_rejected_def get_by_username_or_email_def Let_def split: option.splits)

text \<open>
  C18: a user that does not exist, one without a password and one whose password is wrong get the same
  answer and leave the same lockout counters, and nothing else changes.
\<close>

theorem failed_login_hides_account:
  assumes "credentials_rejected e req db1" and "credentials_rejected e req db2"
  shows "\<exists>resp r'. login e b (Some req) (db1, r) = (resp, (db1, r')) \<and> login e b (Some req) (db2, r) = (resp, (db2, r'))"
  using assms by (auto simp: login_def rejected_check Let_def split: prod.splits)

section \<open>Revoked sessions\<close>

definition revoked_id :: "string \<Rightarrow> auth_db \<Rightarrow> bool" where
  "revoked_id sid db \<longleftrightarrow> (\<exists>s\<in>set (ad_sessions db). us_id s = sid \<and> us_revoked s)"

definition keeps_revoked :: "auth_db \<Rightarrow> auth_db \<Rightarrow> bool" where
  "keeps_revoked db db' \<longleftrightarrow>
     (distinct (map us_id (ad_sessions db)) \<longrightarrow> distinct (map us_id (ad_sessions db')))
     \<and> (\<forall>sid. revoked_id sid db \<longrightarrow> revoked_id sid db')"

lemma keeps_refl [simp]: "keeps_revoked db db"
  by (simp add: keeps_revoked_def)

lemma keeps_trans: "keeps_revoked a b \<Longrightarrow> keeps_revoked b c \<Longrightarrow> keeps_revoked a c"
  by (simp add: keeps_revoked_def)

lemma keeps_same_sessions: "ad_sessions db' = ad_sessions db \<Longrightarrow> keeps_revoked db db'"
  by (simp add: keeps_revoked_def revoked_id_def)

lemma keeps_change_sessions:
  assumes "\<And>s. us_id (f s) = us_id s" and "\<And>s. us_revoked s \<Longrightarrow> us_revoked (f s)"
  shows "keeps_revoked db (change_sessions p f db)"
proof -
  have "revoked_id sid (change_sessions p f db)" if old: "revoked_id sid db" for sid
  proof -
    obtain s where s: "s \<in> set (ad_sessions db)" "us_id s = sid" "us_revoked s" using old by (auto simp: revoked_id_def)
    then have "(if p s then f s else s) \<in> set (ad_sessions (change_sessions p f db))"
      by (auto simp: change_sessions_def update_where_def)
    then show ?thesis using s assms by (auto simp: revoked_id_def intro!: bexI [of _ "if p s then f s else s"])
  qed
  then show ?thesis using assms(1) by (simp add: keeps_revoked_def change_sessions_def map_update_where)
qed

lemma keeps_create_session: "keeps_revoked db (snd (create_session e uid refresh fp device expires db))"
  by (auto simp: create_session_def keeps_revoked_def revoked_id_def list_ex_iff)

lemma keeps_update_existing: "keeps_revoked db (snd (update_existing_session e s refresh device expires db))"
  by (simp add: update_existing_session_def keeps_change_sessions)

lemma keeps_create_or_reuse: "keeps_revoked db (snd (create_or_reuse_session e uid refresh fp device expires db))"
  by (simp add: create_or_reuse_session_def Let_def keeps_create_session keeps_update_existing split: option.split)

lemma keeps_revoke_session: "keeps_revoked db (snd (revoke_session e sid uid db))"
  by (simp add: revoke_session_def keeps_change_sessions)

lemma keeps_revoke_all: "keeps_revoked db (snd (revoke_all_sessions e uid except db))"
  by (simp add: revoke_all_sessions_def keeps_change_sessions)

lemma keeps_update_activity: "keeps_revoked db (update_activity e sid db)"
  by (simp add: update_activity_def keeps_change_sessions)

lemma update_last_login_sessions: "ad_sessions (update_last_login e uid db) = ad_sessions db"
  by (simp add: update_last_login_def change_users_def)

lemma keeps_complete_login: "keeps_revoked db (snd (complete_login e b u remember db))"
proof -
  obtain sid db2 where c: "create_or_reuse_session e (au_id u) (ae_refresh e) (br_fingerprint b) (br_device_id b)
      (ae_now e + refresh_seconds remember * 1000) (update_last_login e (au_id u) db) = (sid, db2)" by fastforce
  obtain trust db3 where m: "mint_device_trust e u remember db2 = (trust, db3)" by fastforce
  have "keeps_revoked (update_last_login e (au_id u) db) db2" using keeps_create_or_reuse by (metis c snd_conv)
  then have "keeps_revoked db db3" using mint_keeps_sessions [OF m]
    by (meson keeps_trans keeps_same_sessions update_last_login_sessions)
  then show ?thesis by (simp add: complete_login_def Let_def c m split: option.split)
qed

lemma touch_keeps_sessions: "ad_sessions (touch_last_used e tid db) = ad_sessions db"
  by (simp add: touch_last_used_def change_devices_def)

lemma keeps_second_factor: "keeps_revoked (fst s) (fst (snd (second_factor e b u s)))"
proof -
  obtain db r where s: "s = (db, r)" by fastforce
  have "keeps_revoked db (snd (complete_login e b u False (touch_last_used e tid db)))" for tid
    by (rule keeps_trans [OF keeps_same_sessions keeps_complete_login]) (rule touch_keeps_sessions)
  then show ?thesis by (auto simp: s second_factor_def Let_def case_prod_beta keeps_complete_login split: option.split)
qed

lemma keeps_login: "keeps_revoked (fst s) (fst (snd (login e b body s)))"
proof (rule login_cases [of e b body s])
  fix req u assume at: "at_second_factor e b req u (login e b body s) s"
  then obtain stored where eq: "login e b body s = second_factor e b u
      (rehash_password e u stored (trim_space (lr_password req)) (fst s),
       clear_login_failures e b (lr_username req) (snd s))" by (auto simp: at_second_factor_def)
  have "keeps_revoked (fst s) (rehash_password e u stored (trim_space (lr_password req)) (fst s))"
    by (rule keeps_same_sessions) (simp add: rehash_keeps)
  then show ?thesis unfolding eq by (rule keeps_trans) (metis fst_conv keeps_second_factor)
qed (auto simp: settled_def dest: failed_attempt_refuses)

lemma backup_codes_sessions: "ad_sessions (snd (try_backup_codes n e uid token codes db)) = ad_sessions db"
proof (induction n arbitrary: codes db)
  case (Suc n)
  then show ?case
    by (auto simp: consume_backup_code_def change_users_def Let_def split: option.split prod.split bool.split)
qed simp

lemma keeps_verify_code: "keeps_revoked (fst s) (fst (snd (verify_tfa_code e u raw s)))"
proof -
  have "keeps_revoked db (snd (try_backup_codes 3 e uid token codes db))" for db uid token codes
    by (rule keeps_same_sessions) (rule backup_codes_sessions)
  then show ?thesis by (simp add: verify_tfa_code_def Let_def case_prod_beta split: option.split)
qed

lemma wrong_code_keeps: "fst (snd (wrong_code e u s)) = fst s"
  by (simp add: wrong_code_def case_prod_beta split: option.split)

lemma keeps_tfa_verified: "keeps_revoked (fst s) (fst (snd (tfa_verified e b remember u s)))"
  by (simp add: tfa_verified_def Let_def case_prod_beta keeps_complete_login)

lemma keeps_verify_user: "keeps_revoked (fst s) (fst (snd (verify_ticket_user e b req uid s)))"
proof -
  have "keeps_revoked (fst s) (fst (snd (tfa_verified e b remember u s')))" if "keeps_revoked (fst s) (fst s')" for remember u s'
    by (rule keeps_trans [OF that keeps_tfa_verified])
  then show ?thesis using keeps_verify_code [of s e _ "tr_token req"]
    by (auto simp: verify_ticket_user_def wrong_code_keeps split: option.split prod.split bool.split)
       (metis fst_conv snd_conv)+
qed

lemma keeps_verify_tfa: "keeps_revoked (fst s) (fst (snd (verify_tfa e b body s)))"
proof -
  have "keeps_revoked (fst s) (fst (snd (verify_ticket_user e b req uid (fst s, r))))" for req uid r
    using keeps_verify_user [of "(fst s, r)"] by simp
  then show ?thesis by (auto simp: verify_tfa_def Let_def split: option.split prod.split)
qed

lemma keeps_refresh: "keeps_revoked db (snd (refresh_access parse e cookie db))"
  by (simp add: refresh_access_def keeps_revoke_session split: option.split)

lemma keeps_authenticate: "keeps_revoked db (snd (authenticate parse e rq db))"
  by (simp add: authenticate_def admit_session_def keeps_revoke_session keeps_update_activity split: option.split prod.split)

lemma revoke_devices_sessions: "ad_sessions (snd (revoke_all_devices e uid db)) = ad_sessions db"
  by (simp add: revoke_all_devices_def change_devices_def)

lemmas keeps_user_statement = update_password_def update_tfa_secret_def update_tfa_enabled_def
  update_tfa_backup_codes_def disable_tfa_def change_users_def

lemma keeps_change_password: "keeps_revoked db (snd (change_password e uid sid cur new db))"
proof -
  have "keeps_revoked db (snd (revoke_all_sessions e uid sid db'))" if "ad_sessions db' = ad_sessions db" for db'
    by (rule keeps_trans [OF keeps_same_sessions keeps_revoke_all]) (rule that)
  then show ?thesis
    by (auto simp: change_password_def Let_def keeps_user_statement revoke_devices_sessions split: option.split)
qed

lemma keeps_action: "keeps_revoked db (snd (do_action e uid sid a db))"
proof (cases a)
  case (ChangePassword cur new)
  then show ?thesis by (simp add: do_action_def keeps_change_password)
next
  case Logout
  then show ?thesis by (simp add: do_action_def logout_def keeps_revoke_session)
next
  case (RevokeSession target)
  then show ?thesis by (simp add: do_action_def revoke_one_session_def case_prod_beta keeps_revoke_session)
next
  case RevokeOthers
  then show ?thesis by (simp add: do_action_def revoke_other_sessions_def case_prod_beta keeps_revoke_all)
next
  case TfaSetup
  then show ?thesis
    by (auto simp: do_action_def tfa_setup_def keeps_user_statement intro: keeps_same_sessions split: option.split)
next
  case (TfaVerifySetup token)
  then show ?thesis
    by (auto simp: do_action_def tfa_verify_setup_def Let_def keeps_user_statement intro: keeps_same_sessions split: option.split)
next
  case (TfaDisable pw)
  then show ?thesis
    by (auto simp: do_action_def tfa_disable_def Let_def keeps_user_statement revoke_devices_sessions
        intro!: keeps_same_sessions split: option.split)
next
  case TfaRegenerate
  then show ?thesis
    by (auto simp: do_action_def tfa_regenerate_def keeps_user_statement intro: keeps_same_sessions split: option.split)
qed

text \<open>No request brings a revoked session back.\<close>

lemma keeps_op: "keeps_revoked (fst s) (fst (snd (do_op parse e op s)))"
proof (cases op)
  case (UserOp rq a)
  obtain ad db where au: "authenticate parse e rq (fst s) = (ad, db)" by fastforce
  then have "keeps_revoked (fst s) db" using keeps_authenticate by (metis snd_conv)
  then show ?thesis
    by (auto simp: do_op_def UserOp au case_prod_beta intro: keeps_trans [OF _ keeps_action] split: admission.split)
qed (simp_all add: do_op_def keeps_login keeps_verify_tfa case_prod_beta keeps_refresh)

fun auth_run :: "token_parser \<Rightarrow> ('r auth_env \<times> auth_op) list \<Rightarrow> 'r auth_state \<Rightarrow> 'r auth_state" where
  "auth_run parse [] s = s"
| "auth_run parse ((e, op) # ops) s = auth_run parse ops (snd (do_op parse e op s))"

lemma keeps_run: "keeps_revoked (fst s) (fst (auth_run parse ops s))"
proof (induction ops arbitrary: s)
  case (Cons eo ops)
  obtain e op where eo: "eo = (e, op)" by fastforce
  show ?case unfolding eo auth_run.simps by (rule keeps_trans [OF keeps_op Cons.IH])
qed simp

section \<open>Changing the password\<close>

lemma revoked_not_live:
  assumes "distinct (map us_id (ad_sessions db))" and "revoked_id sid db"
    and "t \<in> set (ad_sessions db)" and "us_id t = sid"
  shows "us_revoked t"
  using assms by (metis revoked_id_def distinct_map inj_on_def)

text \<open>A revoked session neither admits a request nor refreshes a token.\<close>

lemma revoked_no_state:
  assumes "distinct (map us_id (ad_sessions db))" and "revoked_id sid db"
  shows "get_auth_state e sid uid db = None"
proof (rule ccontr)
  assume "get_auth_state e sid uid db \<noteq> None"
  then obtain s where "find (\<lambda>s. us_id s = sid \<and> us_user s = uid \<and> session_live (ae_now e) s) (ad_sessions db) = Some s"
    by (auto simp: get_auth_state_def split: if_splits option.splits)
  then show False using revoked_not_live [OF assms, of s] by (auto simp: session_live_def dest: find_someD)
qed

lemma admitted_state:
  "fst (authenticate parse e rq db) = Admitted uid role sid \<Longrightarrow> sid \<noteq> [] \<Longrightarrow> get_auth_state e sid uid db \<noteq> None"
  by (simp add: authenticate_def admit_session_def split: option.splits if_splits prod.splits)

lemma revoked_no_admission:
  assumes "distinct (map us_id (ad_sessions db))" and "revoked_id sid db" and "sid \<noteq> []"
  shows "fst (authenticate parse e rq db) \<noteq> Admitted uid role sid"
  using admitted_state assms(3) revoked_no_state [OF assms(1,2)] by metis

lemma refreshed_session:
  "fst (refresh_access parse e cookie db) = Refreshed uid role sid \<Longrightarrow>
     \<exists>token s. get_session_by_token e token db = Some s \<and> us_id s = sid"
  by (simp add: refresh_access_def split: option.splits if_splits) blast

lemma revoked_no_refresh:
  assumes "distinct (map us_id (ad_sessions db))" and "revoked_id sid db"
  shows "fst (refresh_access parse e cookie db) \<noteq> Refreshed uid role sid"
proof
  assume "fst (refresh_access parse e cookie db) = Refreshed uid role sid"
  then obtain token s where "get_session_by_token e token db = Some s" "us_id s = sid"
    using refreshed_session by blast
  then show False using revoked_not_live [OF assms, of s]
    by (auto simp: get_session_by_token_def session_live_def split: if_splits dest: find_someD)
qed

lemma revoke_all_revokes:
  assumes "\<not> ae_fails e QRevokeSessions" and "s \<in> set (ad_sessions db)" and "us_user s = uid" and "us_id s \<noteq> except"
  shows "revoked_id (us_id s) (snd (revoke_all_sessions e uid except db))"
proof -
  have "s\<lparr>us_revoked := True\<rparr> \<in> set (ad_sessions (snd (revoke_all_sessions e uid except db)))"
    using assms by (simp add: revoke_all_sessions_def change_sessions_def update_where_set)
  then show ?thesis by (auto simp: revoked_id_def intro!: bexI [of _ "s\<lparr>us_revoked := True\<rparr>"])
qed

lemma revoke_devices_none:
  assumes "\<not> ae_fails e QRevokeDevices"
  shows "\<forall>d\<in>set (ad_devices (snd (revoke_all_devices e uid db))). td_user d = uid \<longrightarrow> td_revoked d"
proof
  fix d assume d: "d \<in> set (ad_devices (snd (revoke_all_devices e uid db)))"
  let ?revoke = "\<lambda>d. d\<lparr>td_revoked := True\<rparr>"
  obtain d0 where "d = (if td_user d0 = uid \<and> \<not> td_revoked d0 then ?revoke d0 else d0)"
    using d assms unfolding revoke_all_devices_def change_devices_def by (simp add: in_update_where) blast
  then show "td_user d = uid \<longrightarrow> td_revoked d" by simp
qed

lemma revoke_all_devices_kept: "ad_devices (snd (revoke_all_sessions e uid except db)) = ad_devices db"
  by (simp add: revoke_all_sessions_def change_sessions_def)

text \<open>An accepted change revokes the devices, then the other sessions, of the same tables otherwise.\<close>

lemma change_password_accepted:
  assumes "change_password e uid sid cur new db = (Accepted, db1)"
  shows "\<exists>db0. ad_sessions db0 = ad_sessions db
     \<and> db1 = snd (revoke_all_sessions e uid sid (if ae_has_devices e then snd (revoke_all_devices e uid db0) else db0))"
proof -
  obtain h db0 where u: "update_password e uid h db = Some db0"
    and r: "db1 = snd (revoke_all_sessions e uid sid (if ae_has_devices e then snd (revoke_all_devices e uid db0) else db0))"
    using assms unfolding change_password_def Let_def by (simp split: if_splits option.splits)
  have "ad_sessions db0 = ad_sessions db" using u by (auto simp: update_password_def change_users_def split: if_splits)
  then show ?thesis using r by blast
qed

lemma trust_needs_device: "has_valid_device_trust e b uid db = Some d \<Longrightarrow> d \<in> set (ad_devices db) \<and> td_user d = uid \<and> \<not> td_revoked d"
  by (auto simp: device_valid_def dest!: has_device_trustD)

text \<open>
  C15: an accepted password change ends other access as far as its two revocations get, whose failures the handler
  only logs.  If revoking the sessions did not fail, no other session the user had is ever admitted or refreshed
  again, through any later requests.  If there is a store of trusted devices and revoking them did not fail, no
  browser is a trusted device of the user right after the change; one that signs in anew may become one.
\<close>

theorem password_change_ends_other_access:
  assumes change: "change_password e uid sid cur new db = (Accepted, db1)"
    and ids: "distinct (map us_id (ad_sessions db))"
    and old: "s \<in> set (ad_sessions db)" "us_user s = uid" "us_id s \<noteq> sid" "us_id s \<noteq> []"
  shows "(\<not> ae_fails e QRevokeSessions \<longrightarrow>
        fst (authenticate parse e2 rq (fst (auth_run parse ops (db1, r)))) \<noteq> Admitted uid role (us_id s)
        \<and> fst (refresh_access parse e2 cookie (fst (auth_run parse ops (db1, r)))) \<noteq> Refreshed uid role (us_id s))
     \<and> (ae_has_devices e \<and> \<not> ae_fails e QRevokeDevices \<longrightarrow> has_valid_device_trust e2 b uid db1 = None)"
proof -
  obtain db0 where db0: "ad_sessions db0 = ad_sessions db"
    and db1: "db1 = snd (revoke_all_sessions e uid sid (if ae_has_devices e then snd (revoke_all_devices e uid db0) else db0))"
    using change_password_accepted [OF change] by auto
  let ?mid = "if ae_has_devices e then snd (revoke_all_devices e uid db0) else db0"
    and ?last = "fst (auth_run parse ops (db1, r))"
  have mid: "ad_sessions ?mid = ad_sessions db" by (simp add: revoke_devices_sessions db0)
  have sessions: "fst (authenticate parse e2 rq ?last) \<noteq> Admitted uid role (us_id s)
      \<and> fst (refresh_access parse e2 cookie ?last) \<noteq> Refreshed uid role (us_id s)" if ran: "\<not> ae_fails e QRevokeSessions"
  proof -
    have rev1: "revoked_id (us_id s) db1"
      unfolding db1 by (rule revoke_all_revokes) (use ran old in \<open>simp_all only: mid not_False_eq_True\<close>)
    have dist1: "distinct (map us_id (ad_sessions db1))"
      using keeps_revoke_all [of ?mid e uid sid] ids by (simp only: keeps_revoked_def mid db1)
    have "revoked_id (us_id s) ?last" and "distinct (map us_id (ad_sessions ?last))"
      using keeps_run [of "(db1, r)" parse ops] rev1 dist1 by (simp_all add: keeps_revoked_def)
    then show ?thesis using old(4) revoked_no_admission revoked_no_refresh by blast
  qed
  have "has_valid_device_trust e2 b uid db1 = None" if "ae_has_devices e" "\<not> ae_fails e QRevokeDevices"
    using that revoke_devices_none [of e uid db0] trust_needs_device [of e2 b uid db1]
    by (cases "has_valid_device_trust e2 b uid db1") (auto simp: db1 revoke_all_devices_kept)
  then show ?thesis using sessions by blast
qed

section \<open>Accounts whose set-up is pending\<close>

lemma revoke_session_users: "ad_users (snd (revoke_session e sid uid db)) = ad_users db
    \<and> ad_devices (snd (revoke_session e sid uid db)) = ad_devices db"
  by (simp add: revoke_session_def change_sessions_def)

lemma update_activity_users: "ad_users (update_activity e sid db) = ad_users db \<and> ad_devices (update_activity e sid db) = ad_devices db"
  by (simp add: update_activity_def change_sessions_def)

text \<open>What an account may reach behind \<open>AuthWithSessionCheck\<close>, for each set-up.\<close>

definition setup_routes :: "auth_user \<Rightarrow> string set" where
  "setup_routes u =
     (if password_change_pending u
      then {''PUT /api/v1/auth/change-password'', ''GET /api/v1/auth/profile'', ''POST /api/v1/auth/logout''}
      else {''GET /api/v1/tfa/setup'', ''POST /api/v1/tfa/verify-setup'', ''GET /api/v1/tfa/status'',
            ''GET /api/v1/auth/profile'', ''POST /api/v1/auth/logout''})"

lemma confined_admission:
  assumes "find_user (tc_user c) (ad_users db) = Some u" and "password_change_pending u \<or> tfa_enrolment_pending u"
    and "admit_session e rq c db = (a, db')"
  shows "ad_users db' = ad_users db \<and> ad_devices db' = ad_devices db
    \<and> (case a of Admitted uid role sid \<Rightarrow> rq_route rq \<in> setup_routes u | Denied code msg \<Rightarrow> True)"
proof (cases "get_auth_state e (tc_session c) (tc_user c) db")
  case None
  then show ?thesis using assms(3) by (auto simp: admit_session_def)
next
  case (Some su)
  then obtain s where su: "su = (s, u)" using assms(1) by (auto simp: get_auth_state_def split: if_splits option.splits)
  have routes: "setup_routes u = (if password_change_pending u then set password_change_routes else set tfa_enrolment_routes)"
    by (simp add: setup_routes_def password_change_routes_def tfa_enrolment_routes_def)
  have db': "ad_users db' = ad_users db \<and> ad_devices db' = ad_devices db"
    using assms(3) by (auto simp: admit_session_def Some su revoke_session_users update_activity_users split: if_splits)
  have "rq_route rq \<in> setup_routes u" if "a = Admitted uid role sid" for uid role sid
    using assms(2,3) that unfolding routes by (auto simp: admit_session_def Some su split: if_splits)
  then show ?thesis using db' by (cases a) simp_all
qed

text \<open>
  C19: while an account must replace its password, its sessions are admitted to no protected route but the change of
  the password, the own profile and the sign-out; while it must set up its second factor, to none but the two
  set-up routes, their status, the own profile and the sign-out.  The check itself changes no account and no device,
  whatever the request.  A token that names no session is not checked.
\<close>

theorem pending_setup_confines_account:
  assumes "parse (ae_now e) (rq_token rq) = Some c" and "tc_session c \<noteq> []"
    and "find_user (tc_user c) (ad_users db) = Some u" and "password_change_pending u \<or> tfa_enrolment_pending u"
    and "authenticate parse e rq db = (a, db')"
  shows "ad_users db' = ad_users db \<and> ad_devices db' = ad_devices db
    \<and> (case a of Admitted uid role sid \<Rightarrow> rq_route rq \<in> setup_routes u | Denied code msg \<Rightarrow> True)"
proof (cases "rq_token rq = [] \<or> tc_type c \<noteq> ''access'' \<or> tc_user c = []")
  case True
  then show ?thesis using assms(1,5) by (auto simp: authenticate_def split: if_splits)
next
  case False
  then have "admit_session e rq c db = (a, db')" using assms(1,2,5) by (simp add: authenticate_def)
  then show ?thesis by (rule confined_admission [OF assms(3,4)])
qed

section \<open>A sample account\<close>

definition sample_env :: "redis_map auth_env" where
  "sample_env = \<lparr>ae_now = 1000000, ae_rdb = Some map_redis, ae_host = [], ae_fails = (\<lambda>_. False), ae_local = (False, []),
     ae_login_store = Some (new_login_lockout_store 1 15), ae_login_resolved = None,
     ae_tfa_store = Some (new_tfa_lockout_store 5 30), ae_tfa_resolved = None, ae_lockout_minutes = Some 15,
     ae_max_tfa = 5, ae_inactivity_minutes = Some 30, ae_jwt_expiry = ''1h'', ae_trust_expiry = ''30d'',
     ae_has_tickets = True, ae_has_devices = True, ae_sha = id, ae_token_sha = id, ae_hash_ok = (\<lambda>h p. h = p), ae_busy = False,
     ae_cost = (\<lambda>_. Some 12), ae_new_hash = Some, ae_policy = (\<lambda>_. None), ae_totp = (\<lambda>_ _. Some ''123456''),
     ae_race = (\<lambda>_ us. us), ae_stamp = ''now'', ae_ticket = Some ''ticket'', ae_secret = Some ''S'', ae_qr_ok = True, ae_codes = [], ae_code_hashes = Some [],
     ae_session_id = ''s3'', ae_refresh = ''r3'', ae_access_ok = True, ae_trust_token = None, ae_device_row = ''d2''\<rparr>"

definition sample_user :: auth_user where
  "sample_user = \<lparr>au_id = ''u1'', au_username = ''ann'', au_email = ''ann@example.org'', au_hash = Some ''secret'',
     au_role = ''admin'', au_active = True, au_tfa = True, au_secret = Some ''S'', au_codes = None, au_oidc_sub = None,
     au_oidc_provider = None, au_enrol_required = False, au_change_required = False, au_previous_hash = None, au_last_login = None\<rparr>"

definition sample_session :: "string \<Rightarrow> string \<Rightarrow> user_session" where
  "sample_session sid refresh = \<lparr>us_id = sid, us_user = ''u1'', us_refresh = refresh, us_fingerprint = None, us_device = None,
     us_activity = 999000, us_expires = 9000000, us_revoked = False, us_count = 1\<rparr>"

definition sample_cookie :: string where "sample_cookie = replicate 43 (CHR ''a'')"

definition sample_accounts :: auth_db where
  "sample_accounts = \<lparr>ad_users = [sample_user], ad_sessions = [sample_session ''s1'' ''r1'', sample_session ''s2'' ''r2''],
     ad_devices = [\<lparr>td_id = ''d1'', td_user = ''u1'', td_hash = sample_cookie, td_used = 0, td_expires = 9000000, td_revoked = False\<rparr>]\<rparr>"

definition sample_browser :: browser where
  "sample_browser = \<lparr>br_ip = ''10.0.0.1'', br_device_id = [], br_fingerprint = [], br_trust_cookie = Some sample_cookie\<rparr>"

definition sample_login :: "string \<Rightarrow> login_request" where
  "sample_login password = \<lparr>lr_username = ''Ann'', lr_password = password\<rparr>"

definition sample_parser :: token_parser where
  "sample_parser now token = Some \<lparr>tc_type = ''access'', tc_user = ''u1'', tc_role = ''admin'', tc_session = token\<rparr>"

fun signed_in :: "auth_response \<Rightarrow> bool" where
  "signed_in (SignedIn g) = True"
| "signed_in _ = False"

lemma signed_inD: "signed_in (fst out) \<Longrightarrow> \<exists>g db r. out = (SignedIn g, (db, r))"
  by (cases out) (auto elim: signed_in.elims)

lemma sample_login_signs_in:
  "signed_in (fst (login sample_env sample_browser (Some (sample_login ''secret'')) (sample_accounts, Map.empty)))"
  by code_simp

theorem login_requires_every_factor_witness:
  "\<exists>g db' r'. login sample_env sample_browser (Some (sample_login ''secret'')) (sample_accounts, Map.empty) = (SignedIn g, (db', r'))
     \<and> (\<exists>u. password_proven sample_env (sample_login ''secret'') sample_accounts u \<and> au_tfa u \<and> lg_user g = au_id u)"
proof -
  obtain g db' r' where l: "login sample_env sample_browser (Some (sample_login ''secret'')) (sample_accounts, Map.empty) = (SignedIn g, (db', r'))"
    using signed_inD [OF sample_login_signs_in] by blast
  obtain u where u: "password_proven sample_env (sample_login ''secret'') sample_accounts u" "lg_user g = au_id u"
    using login_requires_every_factor [OF l] by blast
  have "find_by_name ''Ann'' (ad_users sample_accounts) = Some sample_user" by code_simp
  then have "u = sample_user" using u(1) by (simp add: password_proven_def sample_login_def)
  then show ?thesis using l u by (auto simp: sample_user_def)
qed

theorem failed_login_hides_account_witness:
  "\<exists>resp r'. login sample_env sample_browser (Some (sample_login ''guess'')) (sample_accounts, Map.empty) = (resp, (sample_accounts, r'))
     \<and> login sample_env sample_browser (Some (sample_login ''guess'')) (sample_accounts\<lparr>ad_users := []\<rparr>, Map.empty)
         = (resp, (sample_accounts\<lparr>ad_users := []\<rparr>, r'))"
  by (rule failed_login_hides_account; code_simp)

theorem password_change_ends_other_access_witness:
  "let db1 = snd (change_password sample_env ''u1'' ''s1'' ''secret'' ''better'' sample_accounts)
   in fst (authenticate sample_parser sample_env \<lparr>rq_token = ''s2'', rq_route = [], rq_activity = False\<rparr> sample_accounts)
        = Admitted ''u1'' ''admin'' ''s2''
      \<and> fst (authenticate sample_parser sample_env \<lparr>rq_token = ''s2'', rq_route = [], rq_activity = False\<rparr> db1)
        \<noteq> Admitted ''u1'' ''admin'' ''s2''
      \<and> has_valid_device_trust sample_env sample_browser ''u1'' db1 = None"
proof -
  let ?db1 = "snd (change_password sample_env ''u1'' ''s1'' ''secret'' ''better'' sample_accounts)"
  have "fst (change_password sample_env ''u1'' ''s1'' ''secret'' ''better'' sample_accounts) = Accepted" by code_simp
  then have c: "change_password sample_env ''u1'' ''s1'' ''secret'' ''better'' sample_accounts = (Accepted, ?db1)"
    by (simp add: prod_eq_iff)
  have "fst (authenticate sample_parser sample_env \<lparr>rq_token = ''s2'', rq_route = [], rq_activity = False\<rparr> sample_accounts)
      = Admitted ''u1'' ''admin'' ''s2''" by code_simp
  then show ?thesis
    using password_change_ends_other_access [OF c, of "sample_session ''s2'' ''r2''" sample_parser sample_env
        "\<lparr>rq_token = ''s2'', rq_route = [], rq_activity = False\<rparr>" "[]" Map.empty "''admin''" None sample_browser]
    by (simp add: Let_def) (simp add: sample_env_def sample_accounts_def sample_session_def)
qed

definition setup_user :: auth_user where
  "setup_user = sample_user\<lparr>au_change_required := True\<rparr>"

theorem pending_setup_confines_account_witness:
  "let try = (\<lambda>route. fst (authenticate sample_parser sample_env \<lparr>rq_token = ''s1'', rq_route = route, rq_activity = False\<rparr>
        (sample_accounts\<lparr>ad_users := [setup_user]\<rparr>)))
   in try ''GET /api/v1/auth/profile'' = Admitted ''u1'' ''admin'' ''s1''
      \<and> ''GET /api/v1/auth/profile'' \<in> setup_routes setup_user
      \<and> try ''GET /api/v1/hosts'' \<noteq> Admitted ''u1'' ''admin'' ''s1''"
proof -
  let ?db = "sample_accounts\<lparr>ad_users := [setup_user]\<rparr>"
  let ?rq = "\<lambda>route. \<lparr>rq_token = ''s1'', rq_route = route, rq_activity = False\<rparr>"
  let ?c = "\<lparr>tc_type = ''access'', tc_user = ''u1'', tc_role = ''admin'', tc_session = ''s1''\<rparr>"
  have u: "find_user (tc_user ?c) (ad_users ?db) = Some setup_user" "password_change_pending setup_user \<or> tfa_enrolment_pending setup_user"
    by (simp_all add: find_user_def setup_user_def password_change_pending_def sample_user_def)
  have confined: "case fst (authenticate sample_parser sample_env (?rq r) ?db) of
      Admitted uid role sid \<Rightarrow> r \<in> setup_routes setup_user | Denied code msg \<Rightarrow> True" for r
    using pending_setup_confines_account [of sample_parser sample_env "?rq r" ?c ?db setup_user, OF _ _ u prod.collapse [symmetric]]
    by (simp add: sample_parser_def split: admission.splits)
  have admitted: "fst (authenticate sample_parser sample_env (?rq ''GET /api/v1/auth/profile'') ?db) = Admitted ''u1'' ''admin'' ''s1''"
    by code_simp
  moreover have "''GET /api/v1/auth/profile'' \<in> setup_routes setup_user"
    using confined [of "''GET /api/v1/auth/profile''"] by (simp add: admitted)
  moreover have "fst (authenticate sample_parser sample_env (?rq ''GET /api/v1/hosts'') ?db) \<noteq> Admitted ''u1'' ''admin'' ''s1''"
    using confined [of "''GET /api/v1/hosts''"]
    by (auto simp: setup_routes_def split: if_splits)
  ultimately show ?thesis by (simp add: Let_def)
qed

end
