(* ===== verification/AuthFlow.thy ===== *)
theory AuthFlow
  imports AuthSafety
begin

text \<open>
  Sequences of sign-in requests against one Redis: a ticket proves an earlier password, a TOTP step works
  once, and a tripped lockout holds.  Other code may change the tables between two requests.  The reset of
  another user's second factor by an administrator (\<open>users_tfa_reset.go\<close>) shares the keys of the TOTP steps
  and of the two-factor lockout; it is not among the requests.
\<close>

section \<open>Traces\<close>

record 'r auth_event =
  ev_env :: "'r auth_env"
  ev_op :: auth_op
  ev_before :: "'r auth_state"
  ev_resp :: auth_response

text \<open>The events, newest first, with the time and the state they lead to.\<close>

inductive auth_trace ::
  "token_parser \<Rightarrow> 'r redis \<Rightarrow> string \<Rightarrow> int \<Rightarrow> 'r auth_state \<Rightarrow> 'r auth_event list \<Rightarrow> int \<Rightarrow> 'r auth_state \<Rightarrow> bool"
  for parse rd host t0 s0 where
  start: "auth_trace parse rd host t0 s0 [] t0 s0"
| request: "auth_trace parse rd host t0 s0 es t s \<Longrightarrow> ae_rdb e = Some rd \<Longrightarrow> ae_host e = host \<Longrightarrow> t \<le> ae_now e
    \<Longrightarrow> do_op parse e op s = (resp, s')
    \<Longrightarrow> auth_trace parse rd host t0 s0 (\<lparr>ev_env = e, ev_op = op, ev_before = s, ev_resp = resp\<rparr> # es) (ae_now e) s'"
| elsewhere: "auth_trace parse rd host t0 s0 es t (db, r) \<Longrightarrow> auth_trace parse rd host t0 s0 es t (db', r)"

section \<open>Keys\<close>

definition pending_key :: "string \<Rightarrow> string \<Rightarrow> string" where
  "pending_key host t = tenant_key host (pending_login_prefix @ t)"

lemma tenant_key_inj [simp]: "tenant_key host a = tenant_key host b \<longleftrightarrow> a = b"
  by (simp add: tenant_key_def)

lemmas key_prefixes = pending_key_def replay_key_def login_lock_key_def tfa_lock_key_def pending_login_prefix_def
  login_lockout_prefix_def login_failed_prefix_def tfa_lockout_prefix_def tfa_failed_prefix_def

lemma keys_apart:
  "pending_key host t \<noteq> tenant_key host (login_lockout_prefix @ x)"
  "pending_key host t \<noteq> tenant_key host (login_failed_prefix @ x)"
  "pending_key host t \<noteq> tenant_key host (tfa_lockout_prefix @ x)"
  "pending_key host t \<noteq> tenant_key host (tfa_failed_prefix @ x)"
  "pending_key host t \<noteq> replay_key host u k"
  "replay_key host u k \<noteq> tenant_key host (login_lockout_prefix @ x)"
  "replay_key host u k \<noteq> tenant_key host (login_failed_prefix @ x)"
  "replay_key host u k \<noteq> tenant_key host (tfa_lockout_prefix @ x)"
  "replay_key host u k \<noteq> tenant_key host (tfa_failed_prefix @ x)"
  "tenant_key host (login_lockout_prefix @ y) \<noteq> tenant_key host (login_failed_prefix @ x)"
  "tenant_key host (login_lockout_prefix @ y) \<noteq> tenant_key host (tfa_lockout_prefix @ x)"
  "tenant_key host (login_lockout_prefix @ y) \<noteq> tenant_key host (tfa_failed_prefix @ x)"
  by (simp_all add: key_prefixes)

section \<open>What the requests do to Redis\<close>

context redis_server begin

lemma clear_login_frame:
  "ae_rdb e = Some rd \<Longrightarrow> k \<noteq> tenant_key (ae_host e) (login_failed_prefix @ login_ident e b name)
     \<Longrightarrow> live (clear_login_failures e b name r) (ae_now e) k = live r (ae_now e) k"
  by (simp add: clear_login_failures_def clear_failed_login_def del_frame split: option.split)

lemma login_failure_frame:
  assumes "login_failure e b name answer r = (resp, r')" and "ae_rdb e = Some rd"
    and "ae_login_store e \<noteq> None \<Longrightarrow> k \<noteq> login_lock_key e b name" and "k \<noteq> tenant_key (ae_host e) (login_failed_prefix @ login_ident e b name)"
  shows "live r' (ae_now e) k = live r (ae_now e) k"
proof (cases "ae_login_store e")
  case None
  then show ?thesis using assms(1) by (simp add: login_failure_def)
next
  case (Some own)
  then obtain res where "record_failed_login (Some rd) (ae_now e) (effective_limits (ae_login_resolved e) own) (ae_stamp e)
      (ae_host e) (login_ident e b name) r = (res, r')"
    using assms(1,2) by (auto simp: login_failure_def split: prod.splits if_splits)
  then show ?thesis by (rule record_failed_login_frame) (use assms(3,4) Some in \<open>simp_all add: login_lock_key_def\<close>)
qed

text \<open>Only the ticket's key is written by the second factor of a sign-in.\<close>

lemma second_factor_redis:
  assumes "second_factor e b u (db, r) = (resp, (db', r'))" and "ae_rdb e = Some rd"
  shows "live r' (ae_now e) k = live r (ae_now e) k
     \<or> (\<exists>t. ae_ticket e = Some t \<and> k = pending_key (ae_host e) t
          \<and> live r' (ae_now e) k = Some (au_id u, Some (ae_now e + pending_login_ttl)))"
proof (cases "r' = r")
  case False
  obtain tk r1 where c: "create_ticket (ae_rdb e) (ae_now e) (ae_host e) (ae_ticket e) (au_id u) r = (tk, r1)"
    by fastforce
  have "r' = r1 \<or> r' = r"
    using assms(1) unfolding second_factor_def Let_def case_prod_beta fst_conv snd_conv c
    by (simp split: if_splits option.splits)
  then have r': "r' = snd (create_ticket (ae_rdb e) (ae_now e) (ae_host e) (ae_ticket e) (au_id u) r)"
    using False c by simp
  then obtain t where t: "ae_ticket e = Some t" using False by (cases "ae_ticket e") (simp_all add: create_ticket_def split: option.splits)
  obtain ok where s: "r_set rd (ae_now e) (pending_key (ae_host e) t) (au_id u) pending_login_ttl r = (ok, r')"
    using r' assms(2) t by (auto simp: create_ticket_def pending_key_def split: prod.splits)
  have ttl: "0 < pending_login_ttl" by (simp add: pending_login_ttl_def minute_ms_def)
  show ?thesis
  proof (cases "k = pending_key (ae_host e) t")
    case True
    have "live r' (ae_now e) k = live r (ae_now e) k
        \<or> live r' (ae_now e) k = Some (au_id u, Some (ae_now e + pending_login_ttl))"
    proof (cases ok)
      case ok: True
      have "r_set rd (ae_now e) (pending_key (ae_host e) t) (au_id u) pending_login_ttl r = (True, r')"
        using s ok by simp
      then show ?thesis unfolding True by (simp add: set_ok [OF _ ttl])
    next
      case failed: False
      have "r_set rd (ae_now e) (pending_key (ae_host e) t) (au_id u) pending_login_ttl r = (False, r')"
        using s failed by simp
      then show ?thesis unfolding True by (rule set_error [OF _ ttl])
    qed
    then show ?thesis using t True by blast
  next
    case False
    then show ?thesis using set_frame [OF s] by simp
  qed
qed simp

text \<open>A sign-in touches the two keys of its identifier and the key of the ticket it draws.\<close>

lemma login_redis:
  assumes "login e b body (db, r) = (resp, (db', r'))" and "ae_rdb e = Some rd"
    and "\<And>req. body = Some req \<Longrightarrow> ae_login_store e \<noteq> None \<Longrightarrow> k \<noteq> login_lock_key e b (lr_username req)"
    and "\<And>name. k \<noteq> tenant_key (ae_host e) (login_failed_prefix @ login_ident e b name)"
  shows "live r' (ae_now e) k = live r (ae_now e) k
     \<or> (\<exists>req u t. body = Some req \<and> password_proven e req db u \<and> au_active u \<and> ae_ticket e = Some t
          \<and> k = pending_key (ae_host e) t \<and> live r' (ae_now e) k = Some (au_id u, Some (ae_now e + pending_login_ttl)))"
proof (rule login_cases [of e b body "(db, r)"])
  assume "settled (login e b body (db, r)) (db, r)"
  then show ?thesis using assms(1) by (simp add: settled_def)
next
  fix req assume body: "body = Some req" and "failed_attempt e b (lr_username req) (login e b body (db, r)) (db, r)"
  then obtain code msg where "login_failure e b (lr_username req) (Refused code msg) r = (resp, r')"
    using assms(1) by (auto simp: failed_attempt_def case_prod_beta)
  then show ?thesis using login_failure_frame assms(2) assms(3) [OF body] assms(4) by blast
next
  fix req u assume body: "body = Some req" and at: "at_second_factor e b req u (login e b body (db, r)) (db, r)"
  then obtain stored where sf: "second_factor e b u (rehash_password e u stored (trim_space (lr_password req)) db,
      clear_login_failures e b (lr_username req) r) = (resp, (db', r'))"
    using assms(1) unfolding at_second_factor_def by (metis fst_conv snd_conv)
  have "live (clear_login_failures e b (lr_username req) r) (ae_now e) k = live r (ae_now e) k"
    by (rule clear_login_frame [OF assms(2,4)])
  then show ?thesis using second_factor_redis [OF sf assms(2), of k] body at
    by (auto simp: at_second_factor_def)
qed

end

text \<open>A verification is refused at once, or consumes the ticket it presents and goes on with its user.\<close>

definition normal_token :: "tfa_request \<Rightarrow> tfa_request" where
  "normal_token req = req\<lparr>tr_token := to_upper (trim_space (tr_token req))\<rparr>"

lemma verify_tfa_cases:
  obtains (settled) "settled (verify_tfa e b body s) s"
  | (expired) req r' where "body = Some req"
      and "consume_ticket (ae_rdb e) (ae_now e) (ae_host e) (tr_ticket req) (snd s) = (None, r')"
      and "refusal (fst (verify_tfa e b body s))" and "snd (verify_tfa e b body s) = (fst s, r')"
  | (presented) req uid r' where "body = Some req"
      and "consume_ticket (ae_rdb e) (ae_now e) (ae_host e) (tr_ticket req) (snd s) = (Some uid, r')"
      and "verify_tfa e b body s = verify_ticket_user e b (normal_token req) uid (fst s, r')"
proof (cases "settled (verify_tfa e b body s) s")
  case False
  have "body \<noteq> None"
  proof
    assume "body = None"
    then show False using False by (simp add: verify_tfa_def settled_def split: if_splits)
  qed
  then obtain req where req: "body = Some req" by blast
  obtain got r' where c: "consume_ticket (ae_rdb e) (ae_now e) (ae_host e) (tr_ticket req) (snd s) = (got, r')" by fastforce
  show ?thesis
  proof (cases got)
    case None
    then show ?thesis using False req c expired
      by (simp add: verify_tfa_def settled_def Let_def split: if_splits)
  next
    case (Some uid)
    then show ?thesis using False req c presented
      by (simp add: verify_tfa_def settled_def Let_def normal_token_def split: if_splits)
  qed
qed

context redis_server begin

lemma mark_used_keeps:
  assumes "mark_used (Some rd) now host uid step r = (res, r')"
    and "live r now k \<noteq> None \<or> (\<forall>u n. k \<noteq> replay_key host u n)"
  shows "live r' now k = live r now k"
proof (cases "k = replay_key host uid step")
  case True
  then show ?thesis using assms mark_used_taken by blast
next
  case False
  have "r_setnx rd now (replay_key host uid step) ''1'' tfa_replay_ttl r = (res, r')"
    using assms(1) by (simp add: mark_used_def)
  then show ?thesis using False by (rule setnx_frame)
qed

lemma verify_code_keeps:
  assumes "verify_tfa_code e u raw (db, r) = (ok, (db', r'))" and "ae_rdb e = Some rd"
    and "live r (ae_now e) k \<noteq> None \<or> (\<forall>u n. k \<noteq> replay_key (ae_host e) u n)"
  shows "live r' (ae_now e) k = live r (ae_now e) k"
proof -
  have "r' = r \<or> (\<exists>n res. mark_used (Some rd) (ae_now e) (ae_host e) (au_id u) n r = (res, r'))"
    using assms(1,2) unfolding verify_tfa_code_def Let_def case_prod_beta
    by (auto split: if_splits option.splits) (metis prod.collapse)+
  then show ?thesis using mark_used_keeps assms(3) by blast
qed

text \<open>What follows a verified or wrong code touches the attempt counters of the user only.\<close>

lemma wrong_code_frame:
  assumes "wrong_code e u (db, r) = (resp, (db', r'))" and "ae_rdb e = Some rd"
    and "\<And>x. k \<noteq> tenant_key (ae_host e) (tfa_lockout_prefix @ x)"
    and "\<And>x. k \<noteq> tenant_key (ae_host e) (tfa_failed_prefix @ x)"
  shows "live r' (ae_now e) k = live r (ae_now e) k"
proof (cases "ae_tfa_store e")
  case None
  then show ?thesis using assms(1) by (simp add: wrong_code_def)
next
  case (Some own)
  then obtain res where "record_failed_tfa (Some rd) (ae_now e) (effective_limits (ae_tfa_resolved e) own) (ae_stamp e)
      (ae_host e) (au_id u) r = (res, r')"
    using assms(1,2) by (auto simp: wrong_code_def split: prod.splits if_splits)
  then show ?thesis by (rule record_failed_tfa_frame) (rule assms(3,4))+
qed

lemma tfa_verified_frame:
  assumes "tfa_verified e b remember u (db, r) = (resp, (db', r'))" and "ae_rdb e = Some rd"
    and "\<And>x. k \<noteq> tenant_key (ae_host e) (tfa_failed_prefix @ x)"
  shows "live r' (ae_now e) k = live r (ae_now e) k"
proof -
  have "r' = r \<or> r' = clear_failed_tfa (ae_rdb e) (ae_now e) (ae_host e) (au_id u) r"
    using assms(1) unfolding tfa_verified_def Let_def case_prod_beta by (auto split: option.splits)
  then show ?thesis using assms(2,3) by (auto simp: clear_failed_tfa_def del_frame)
qed

lemma verify_user_keeps:
  assumes "verify_ticket_user e b req uid (db, r) = (resp, (db', r'))" and rdb: "ae_rdb e = Some rd"
    and k: "live r (ae_now e) k \<noteq> None \<or> (\<forall>u n. k \<noteq> replay_key (ae_host e) u n)"
    and lk: "\<And>x. k \<noteq> tenant_key (ae_host e) (tfa_lockout_prefix @ x)"
    and fk: "\<And>x. k \<noteq> tenant_key (ae_host e) (tfa_failed_prefix @ x)"
  shows "live r' (ae_now e) k = live r (ae_now e) k"
proof (cases "r' = r")
  case False
  then obtain u ok db1 r1 where c: "verify_tfa_code e u (tr_token req) (db, r) = (ok, (db1, r1))"
    and after: "(resp, (db', r')) = (case ok of None \<Rightarrow> (Refused 500 ''Two-factor verification unavailable'', (db1, r1))
        | Some False \<Rightarrow> wrong_code e u (db1, r1) | Some True \<Rightarrow> tfa_verified e b (tr_remember req) u (db1, r1))"
    using assms(1) by (auto simp: verify_ticket_user_def split: option.splits if_splits prod.splits)
  have "live r1 (ae_now e) k = live r (ae_now e) k" by (rule verify_code_keeps [OF c rdb k])
  moreover have "live r' (ae_now e) k = live r1 (ae_now e) k"
  proof (cases ok)
    case None
    then show ?thesis using after by simp
  next
    case (Some good)
    show ?thesis
    proof (cases good)
      case True
      then have "tfa_verified e b (tr_remember req) u (db1, r1) = (resp, (db', r'))" using after Some by simp
      then show ?thesis by (rule tfa_verified_frame [OF _ rdb fk])
    next
      case False
      then have "wrong_code e u (db1, r1) = (resp, (db', r'))" using after Some by simp
      then show ?thesis by (rule wrong_code_frame [OF _ rdb lk fk])
    qed
  qed
  ultimately show ?thesis by simp
qed simp

lemma consume_pending:
  assumes "consume_ticket (Some rd) now host ticket r = (res, r')"
  shows "live r' now (pending_key host t) = live r now (pending_key host t) \<or> live r' now (pending_key host t) = None"
proof (cases "t = ticket")
  case True
  have "r' = r \<or> (\<exists>got. r_getdel rd now (pending_key host ticket) r = (got, r'))"
    using assms by (auto simp: consume_ticket_def pending_key_def split: if_splits prod.splits option.splits)
  then show ?thesis using True getdel_some getdel_none by (metis option.exhaust)
next
  case False
  then show ?thesis using consume_frame [OF assms, of "pending_key host t"] by (simp add: pending_key_def)
qed

lemma verify_redis:
  assumes "verify_tfa e b body (db, r) = (resp, (db', r'))" and rdb: "ae_rdb e = Some rd"
    and k: "live r (ae_now e) k \<noteq> None \<or> (\<forall>u n. k \<noteq> replay_key (ae_host e) u n)"
    and lk: "\<And>x. k \<noteq> tenant_key (ae_host e) (tfa_lockout_prefix @ x)"
    and fk: "\<And>x. k \<noteq> tenant_key (ae_host e) (tfa_failed_prefix @ x)"
    and pk: "\<And>t. k \<noteq> pending_key (ae_host e) t"
  shows "live r' (ae_now e) k = live r (ae_now e) k"
proof -
  have consumed: "live r1 (ae_now e) k = live r (ae_now e) k"
    if "consume_ticket (ae_rdb e) (ae_now e) (ae_host e) ticket r = (got, r1)" for ticket got r1
    by (rule consume_frame) (use that rdb pk in \<open>simp_all add: pending_key_def\<close>)
  show ?thesis
  proof (rule verify_tfa_cases [of e b body "(db, r)"])
    assume "settled (verify_tfa e b body (db, r)) (db, r)"
    then show ?thesis using assms(1) by (simp add: settled_def)
  next
    fix req r1 assume "consume_ticket (ae_rdb e) (ae_now e) (ae_host e) (tr_ticket req) (snd (db, r)) = (None, r1)"
      and "snd (verify_tfa e b body (db, r)) = (fst (db, r), r1)"
    then show ?thesis using assms(1) consumed by simp
  next
    fix req uid r1 assume c: "consume_ticket (ae_rdb e) (ae_now e) (ae_host e) (tr_ticket req) (snd (db, r)) = (Some uid, r1)"
      and v: "verify_tfa e b body (db, r) = verify_ticket_user e b (normal_token req) uid (fst (db, r), r1)"
    have f: "live r1 (ae_now e) k = live r (ae_now e) k" using consumed c by simp
    have "live r' (ae_now e) k = live r1 (ae_now e) k"
      by (rule verify_user_keeps [OF _ rdb _ lk fk, of b "normal_token req" uid db r1 resp db']) (use assms(1) v k f in simp_all)
    then show ?thesis using f by simp
  qed
qed

end

section \<open>A verified code\<close>

text \<open>What a verification that answers with a session has found.\<close>

lemma verified_sign_in:
  assumes "verify_tfa e b body s = (SignedIn g, s')"
  obtains req uid r1 u s1 where "body = Some req"
    and "consume_ticket (ae_rdb e) (ae_now e) (ae_host e) (tr_ticket req) (snd s) = (Some uid, r1)"
    and "get_user e uid (fst s) = Some u" and "tfa_eligible e u" and "au_id u = uid" and "lg_user g = uid"
    and "verify_tfa_code e u (tr_token (normal_token req)) (fst s, r1) = (Some True, s1)"
    and "tfa_verified e b (tr_remember (normal_token req)) u s1 = (SignedIn g, s')"
proof (rule verify_tfa_cases [of e b body s])
  assume "settled (verify_tfa e b body s) s"
  then show thesis using assms by (simp add: settled_def)
next
  assume "refusal (fst (verify_tfa e b body s))"
  then show thesis using assms by simp
next
  fix req uid r1
  assume body: "body = Some req"
    and c: "consume_ticket (ae_rdb e) (ae_now e) (ae_host e) (tr_ticket req) (snd s) = (Some uid, r1)"
    and v: "verify_tfa e b body s = verify_ticket_user e b (normal_token req) uid (fst s, r1)"
  have "verify_ticket_user e b (normal_token req) uid (fst s, r1) = (SignedIn g, s')" using v assms by simp
  then obtain u ok s1 where u: "get_user e uid (fst s) = Some u" "tfa_eligible e u"
    and k: "verify_tfa_code e u (tr_token (normal_token req)) (fst s, r1) = (ok, s1)"
    and after: "(case ok of None \<Rightarrow> (Refused 500 ''Two-factor verification unavailable'', s1)
        | Some False \<Rightarrow> wrong_code e u s1 | Some True \<Rightarrow> tfa_verified e b (tr_remember (normal_token req)) u s1) = (SignedIn g, s')"
    by (simp add: verify_ticket_user_def split: option.splits if_splits prod.splits)
  have "wrong_code e u s1 \<noteq> (SignedIn g, s')"
    by (auto simp: wrong_code_def split: option.splits prod.splits if_splits)
  then have ok: "ok = Some True" and granted: "tfa_verified e b (tr_remember (normal_token req)) u s1 = (SignedIn g, s')"
    using after by (auto split: option.splits bool.splits)
  obtain remember db' where "complete_login e b u remember (fst s1) = (SignedIn g, db')"
    using granted by (auto simp: tfa_verified_def Let_def split: prod.splits)
  then have g: "lg_user g = au_id u" using complete_login_grants by blast
  have id: "au_id u = uid" using u(1) by (auto simp: get_user_def split: if_splits dest: find_user_id)
  show thesis by (rule that [OF body c u id]) (use g id k ok granted in simp_all)
qed

text \<open>A password was proven for this user and this ticket was drawn.\<close>

definition issued :: "'r auth_event \<Rightarrow> string \<Rightarrow> string \<Rightarrow> bool" where
  "issued ev uid ticket \<longleftrightarrow>
     (\<exists>b req u. ev_op ev = LoginOp b (Some req) \<and> password_proven (ev_env ev) req (fst (ev_before ev)) u
        \<and> au_active u \<and> au_id u = uid \<and> ae_ticket (ev_env ev) = Some ticket)"

text \<open>A session was granted for this ticket.\<close>

definition redeemed :: "'r auth_event \<Rightarrow> string \<Rightarrow> bool" where
  "redeemed ev ticket \<longleftrightarrow>
     (\<exists>b req g. ev_op ev = VerifyOp b (Some req) \<and> tr_ticket req = ticket \<and> ev_resp ev = SignedIn g)"

lemma other_op_redis: "(\<And>b body. op \<noteq> LoginOp b body) \<Longrightarrow> (\<And>b body. op \<noteq> VerifyOp b body) \<Longrightarrow> snd (snd (do_op parse e op s)) = snd s"
  by (auto simp: do_op_def case_prod_beta split: auth_op.split admission.split)

lemma trace_event:
  "auth_trace parse rd host t0 s0 es t s \<Longrightarrow> es = ev # earlier \<Longrightarrow>
     \<exists>t1 s'. auth_trace parse rd host t0 s0 earlier t1 (ev_before ev) \<and> ae_rdb (ev_env ev) = Some rd
        \<and> ae_host (ev_env ev) = host \<and> t1 \<le> ae_now (ev_env ev)
        \<and> do_op parse (ev_env ev) (ev_op ev) (ev_before ev) = (ev_resp ev, s')"
  by (induction rule: auth_trace.induct) auto

context redis_server begin

text \<open>A pending ticket was drawn by this request, or was pending before and is not used up.\<close>

lemma op_pending:
  assumes op: "do_op parse e op (db, r) = (resp, (db', r'))" and rdb: "ae_rdb e = Some rd"
    and live: "live r' (ae_now e) (pending_key (ae_host e) tk) = Some (uid, x)"
  defines "ev \<equiv> \<lparr>ev_env = e, ev_op = op, ev_before = (db, r), ev_resp = resp\<rparr>"
  shows "(issued ev uid tk \<and> x = Some (ae_now e + pending_login_ttl))
     \<or> (live r (ae_now e) (pending_key (ae_host e) tk) = Some (uid, x) \<and> \<not> redeemed ev tk)"
proof (cases op)
  case (LoginOp b body)
  have l: "login e b body (db, r) = (resp, (db', r'))" using op by (simp add: do_op_def LoginOp)
  have "live r' (ae_now e) (pending_key (ae_host e) tk) = live r (ae_now e) (pending_key (ae_host e) tk)
     \<or> (\<exists>req u t. body = Some req \<and> password_proven e req db u \<and> au_active u \<and> ae_ticket e = Some t
          \<and> pending_key (ae_host e) tk = pending_key (ae_host e) t
          \<and> live r' (ae_now e) (pending_key (ae_host e) tk) = Some (au_id u, Some (ae_now e + pending_login_ttl)))"
    by (rule login_redis [OF l rdb]) (simp_all add: keys_apart login_lock_key_def)
  then show ?thesis using live by (auto simp: ev_def LoginOp issued_def redeemed_def pending_key_def)
next
  case (VerifyOp b body)
  have v: "verify_tfa e b body (db, r) = (resp, (db', r'))" using op by (simp add: do_op_def VerifyOp)
  have consumed: "live r1 (ae_now e) (pending_key (ae_host e) tk) = live r (ae_now e) (pending_key (ae_host e) tk)
      \<or> live r1 (ae_now e) (pending_key (ae_host e) tk) = None"
    if "consume_ticket (ae_rdb e) (ae_now e) (ae_host e) ticket r = (got, r1)" for ticket got r1
    by (rule consume_pending) (use that rdb in simp)
  show ?thesis
  proof (rule verify_tfa_cases [of e b body "(db, r)"])
    assume "settled (verify_tfa e b body (db, r)) (db, r)"
    then show ?thesis using v live by (auto simp: settled_def ev_def redeemed_def)
  next
    fix req r1 assume "consume_ticket (ae_rdb e) (ae_now e) (ae_host e) (tr_ticket req) (snd (db, r)) = (None, r1)"
      and "refusal (fst (verify_tfa e b body (db, r)))" and "snd (verify_tfa e b body (db, r)) = (fst (db, r), r1)"
    then show ?thesis using v live consumed [of "tr_ticket req" None r1] by (auto simp: ev_def redeemed_def)
  next
    fix req u r1
    assume body: "body = Some req"
      and c: "consume_ticket (ae_rdb e) (ae_now e) (ae_host e) (tr_ticket req) (snd (db, r)) = (Some u, r1)"
      and vu: "verify_tfa e b body (db, r) = verify_ticket_user e b (normal_token req) u (fst (db, r), r1)"
    have "live r' (ae_now e) (pending_key (ae_host e) tk) = live r1 (ae_now e) (pending_key (ae_host e) tk)"
      by (rule verify_user_keeps [OF _ rdb, of b "normal_token req" u db r1 resp db']) (use v vu in \<open>simp_all add: keys_apart\<close>)
    then have r1: "live r1 (ae_now e) (pending_key (ae_host e) tk) = Some (uid, x)" using live by simp
    have "tk \<noteq> tr_ticket req" using ticket_consumed_once [of "ae_now e" "ae_host e" "tr_ticket req" r u r1] c rdb r1
      by (auto simp: pending_key_def)
    then show ?thesis using r1 consumed [of "tr_ticket req" "Some u" r1] c by (auto simp: ev_def redeemed_def VerifyOp body)
  qed
qed (use other_op_redis [of op parse e "(db, r)"] op live in \<open>simp_all add: ev_def redeemed_def\<close>)

text \<open>Every pending ticket was drawn by a proven password, and no session was granted for it since.\<close>

lemma pending_issued:
  assumes "auth_trace parse rd host t0 s0 es t s" and "\<And>tk. live (snd s0) t0 (pending_key host tk) = None"
    and "live (snd s) t (pending_key host tk) = Some (uid, x)"
  shows "\<exists>later ev earlier. es = later @ ev # earlier \<and> issued ev uid tk
     \<and> x = Some (ae_now (ev_env ev) + pending_login_ttl) \<and> (\<forall>ev'\<in>set later. \<not> redeemed ev' tk)"
  using assms
proof (induction arbitrary: tk uid x rule: auth_trace.induct)
  case start
  then show ?case by simp
next
  case (request es t s e op resp s')
  let ?ev = "\<lparr>ev_env = e, ev_op = op, ev_before = s, ev_resp = resp\<rparr>"
  obtain db r db' r' where s: "s = (db, r)" "s' = (db', r')" by fastforce
  have "do_op parse e op (db, r) = (resp, (db', r'))" using request.hyps(5) s by simp
  then consider "issued ?ev uid tk" "x = Some (ae_now e + pending_login_ttl)"
    | "live r (ae_now e) (pending_key host tk) = Some (uid, x)" "\<not> redeemed ?ev tk"
    using op_pending [of parse e op db r resp db' r' tk uid x] request.hyps(2,3) request.prems(2) s by auto
  then show ?case
  proof cases
    case 1
    then show ?thesis by (intro exI [of _ "[]"] exI [of _ ?ev] exI [of _ es]) simp
  next
    case 2
    have "live r t (pending_key host tk) = Some (uid, x)"
      using live_later [of t "ae_now e" r "pending_key host tk"] 2(1) request.hyps(4)
      by (auto split: option.splits prod.splits if_splits)
    then obtain later ev earlier where "es = later @ ev # earlier" "issued ev uid tk"
      "x = Some (ae_now (ev_env ev) + pending_login_ttl)" "\<forall>ev'\<in>set later. \<not> redeemed ev' tk"
      using request.IH [OF request.prems(1), of tk uid x] s by auto
    then show ?thesis using 2(2)
      by (intro exI [of _ "?ev # later"] exI [of _ ev] exI [of _ earlier]) simp
  qed
next
  case (elsewhere es t db r db')
  then show ?case by simp
qed

end

context redis_server begin

lemma ticket_of_grant:
  assumes trace: "auth_trace parse rd host t0 s0 (ev # es) t s"
    and fresh: "\<And>tk. live (snd s0) t0 (pending_key host tk) = None"
    and verify: "ev_op ev = VerifyOp b (Some req)" and granted: "ev_resp ev = SignedIn g"
  shows "\<exists>later ev0 earlier. es = later @ ev0 # earlier \<and> issued ev0 (lg_user g) (tr_ticket req)
     \<and> ae_now (ev_env ev) < ae_now (ev_env ev0) + pending_login_ttl
     \<and> (\<forall>ev'\<in>set later. \<not> redeemed ev' (tr_ticket req))"
proof -
  let ?e = "ev_env ev" and ?key = "pending_key host (tr_ticket req)"
  obtain t1 s' where before: "auth_trace parse rd host t0 s0 es t1 (ev_before ev)" and env: "ae_rdb ?e = Some rd" "ae_host ?e = host"
    and t1: "t1 \<le> ae_now ?e" and step: "do_op parse ?e (ev_op ev) (ev_before ev) = (ev_resp ev, s')"
    using trace_event [OF trace] by blast
  have v: "verify_tfa ?e b (Some req) (ev_before ev) = (SignedIn g, s')"
    using step by (simp add: do_op_def verify granted)
  obtain req' uid r1 u s1 where "Some req = Some req'"
    and c: "consume_ticket (ae_rdb ?e) (ae_now ?e) (ae_host ?e) (tr_ticket req') (snd (ev_before ev)) = (Some uid, r1)"
    and g: "lg_user g = uid"
    by (rule verified_sign_in [OF v])
  then obtain x where live_now: "live (snd (ev_before ev)) (ae_now ?e) ?key = Some (uid, x)"
    using ticket_consumed_once [of "ae_now ?e" host "tr_ticket req" "snd (ev_before ev)" uid r1] env
    by (auto simp: pending_key_def)
  then have "live (snd (ev_before ev)) t1 ?key = Some (uid, x)"
    using live_later [OF t1, of "snd (ev_before ev)" ?key] by (auto split: option.splits prod.splits if_splits)
  then obtain later ev0 earlier where "es = later @ ev0 # earlier" "issued ev0 uid (tr_ticket req)"
    "x = Some (ae_now (ev_env ev0) + pending_login_ttl)" "\<forall>ev'\<in>set later. \<not> redeemed ev' (tr_ticket req)"
    using pending_issued [OF before fresh] by blast
  then show ?thesis using live_expires live_now g by blast
qed

end

text \<open>
  C12: a session granted for a second factor goes back to an earlier sign-in, at most five minutes before,
  in which the same active user gave the right password and this very ticket was drawn; and no session was
  granted for the ticket in between.
\<close>

theorem tfa_login_needs_proven_password:
  assumes "redis_server rd live" and "auth_trace parse rd host t0 s0 (ev # es) t s"
    and "\<And>tk. live (snd s0) t0 (pending_key host tk) = None"
    and "ev_op ev = VerifyOp b (Some req)" and "ev_resp ev = SignedIn g"
  shows "\<exists>later ev0 earlier. es = later @ ev0 # earlier \<and> issued ev0 (lg_user g) (tr_ticket req)
     \<and> ae_now (ev_env ev) < ae_now (ev_env ev0) + pending_login_ttl
     \<and> (\<forall>ev'\<in>set later. \<not> redeemed ev' (tr_ticket req))"
  by (rule redis_server.ticket_of_grant [OF assms])

section \<open>A TOTP step signs in once\<close>

text \<open>The user and the step whose code completed a sign-in.\<close>

definition sign_in_step :: "'r auth_event \<Rightarrow> (string \<times> int) option" where
  "sign_in_step ev =
     (case (ev_op ev, ev_resp ev) of
        (VerifyOp b (Some req), SignedIn g) \<Rightarrow>
          (case get_user (ev_env ev) (lg_user g) (fst (ev_before ev)) of
             None \<Rightarrow> None
           | Some u \<Rightarrow>
               (case au_secret u of
                  None \<Rightarrow> None
                | Some secret \<Rightarrow>
                    map_option (Pair (lg_user g))
                      (match_totp_step (ae_totp (ev_env ev)) (trim_space secret)
                        (to_upper (trim_space (tr_token (normal_token req)))) (ae_now (ev_env ev)))))
      | _ \<Rightarrow> None)"

lemma match_step_mem: "match_step totp secret token ks = Some k \<Longrightarrow> k \<in> set ks"
  by (induction ks) (auto split: option.splits if_splits)

lemma match_window: "match_totp_step totp secret token now = Some k \<Longrightarrow> \<bar>k - totp_step_of now\<bar> \<le> totp_window"
proof -
  assume "match_totp_step totp secret token now = Some k"
  then have "match_step totp secret token (map (\<lambda>i. totp_step_of now + i) [- totp_window .. totp_window]) = Some k"
    unfolding match_totp_step_def by (simp only: option.simps split: if_splits)
  then show ?thesis using match_step_mem by fastforce
qed

lemma claim_window: "sign_in_step ev = Some (uid, k) \<Longrightarrow> \<bar>k - totp_step_of (ae_now (ev_env ev))\<bar> \<le> totp_window"
  by (auto simp: sign_in_step_def match_window split: auth_op.splits option.splits auth_response.splits)

text \<open>Two times from which one step is in the window are less than three minutes apart.\<close>

lemma windows_apart:
  assumes "\<bar>k - totp_step_of a\<bar> \<le> totp_window" and "\<bar>k - totp_step_of b\<bar> \<le> totp_window"
  shows "b < a + tfa_replay_ttl"
proof -
  have "totp_step_of b \<le> totp_step_of a + 4" using assms by (simp add: totp_window_def)
  then show ?thesis by (simp add: totp_step_of_def tfa_replay_ttl_def minute_ms_def)
qed

lemma claim_verified:
  assumes "sign_in_step ev = Some (uid, k)"
    and "do_op parse (ev_env ev) (ev_op ev) (ev_before ev) = (ev_resp ev, s')"
  obtains b remember ticket u r1 db2 r2 where
    "consume_ticket (ae_rdb (ev_env ev)) (ae_now (ev_env ev)) (ae_host (ev_env ev)) ticket (snd (ev_before ev)) = (Some uid, r1)"
    and "mark_used (ae_rdb (ev_env ev)) (ae_now (ev_env ev)) (ae_host (ev_env ev)) uid k r1 = (Some True, r2)"
    and "tfa_verified (ev_env ev) b remember u (db2, r2) = (ev_resp ev, s')"
proof -
  let ?e = "ev_env ev"
  obtain b req g where ev: "ev_op ev = VerifyOp b (Some req)" "ev_resp ev = SignedIn g" and g: "lg_user g = uid"
    and claim: "\<And>u. get_user ?e uid (fst (ev_before ev)) = Some u \<Longrightarrow> \<exists>secret. au_secret u = Some secret
        \<and> match_totp_step (ae_totp ?e) (trim_space secret) (to_upper (trim_space (tr_token (normal_token req)))) (ae_now ?e) = Some k"
    using assms(1) by (auto simp: sign_in_step_def split: auth_op.splits option.splits auth_response.splits)
  have v: "verify_tfa ?e b (Some req) (ev_before ev) = (SignedIn g, s')" using assms(2) ev by (simp add: do_op_def)
  obtain req' uid' r1 u s1 where req: "Some req = Some req'" and uid: "lg_user g = uid'" and id: "au_id u = uid'"
    and u: "get_user ?e uid' (fst (ev_before ev)) = Some u"
    and c: "consume_ticket (ae_rdb ?e) (ae_now ?e) (ae_host ?e) (tr_ticket req') (snd (ev_before ev)) = (Some uid', r1)"
    and code: "verify_tfa_code ?e u (tr_token (normal_token req')) (fst (ev_before ev), r1) = (Some True, s1)"
    and tv: "tfa_verified ?e b (tr_remember (normal_token req')) u s1 = (SignedIn g, s')"
    by (rule verified_sign_in [OF v])
  obtain r2 where m: "mark_used (ae_rdb ?e) (ae_now ?e) (ae_host ?e) uid k r1 = (Some True, r2)"
    and s1: "s1 = (fst (ev_before ev), r2)"
    using code claim [of u] u id g uid req
    by (auto simp: verify_tfa_code_def Let_def split: if_splits prod.splits)
  show thesis by (rule that [OF _ m]) (use c g uid tv s1 ev in auto)
qed

context redis_server begin

lemma op_replay:
  assumes "do_op parse e op (db, r) = (resp, (db', r'))" and rdb: "ae_rdb e = Some rd"
    and held: "live r (ae_now e) (replay_key (ae_host e) uid k) \<noteq> None"
  shows "live r' (ae_now e) (replay_key (ae_host e) uid k) = live r (ae_now e) (replay_key (ae_host e) uid k)"
proof (cases op)
  case (LoginOp b body)
  then have "login e b body (db, r) = (resp, (db', r'))" using assms(1) by (simp add: do_op_def)
  from login_redis [OF this rdb, of "replay_key (ae_host e) uid k"] show ?thesis
    using keys_apart(5) [symmetric] by (auto simp: keys_apart login_lock_key_def)
next
  case (VerifyOp b body)
  then have "verify_tfa e b body (db, r) = (resp, (db', r'))" using assms(1) by (simp add: do_op_def)
  then show ?thesis
    by (rule verify_redis [OF _ rdb]) (use held keys_apart(5) [symmetric] in \<open>simp_all add: keys_apart\<close>)
qed (use other_op_redis [of op parse e "(db, r)"] assms(1) in simp_all)

lemma claim_takes_key:
  assumes "sign_in_step ev = Some (uid, k)" and rdb: "ae_rdb (ev_env ev) = Some rd"
    and "do_op parse (ev_env ev) (ev_op ev) (ev_before ev) = (ev_resp ev, (db', r'))"
  defines "key \<equiv> replay_key (ae_host (ev_env ev)) uid k"
  shows "live (snd (ev_before ev)) (ae_now (ev_env ev)) key = None
     \<and> live r' (ae_now (ev_env ev)) key = Some (''1'', Some (ae_now (ev_env ev) + tfa_replay_ttl))"
proof (rule claim_verified [OF assms(1,3)])
  let ?e = "ev_env ev"
  fix b remember ticket u r1 db2 r2
  assume c: "consume_ticket (ae_rdb ?e) (ae_now ?e) (ae_host ?e) ticket (snd (ev_before ev)) = (Some uid, r1)"
    and m: "mark_used (ae_rdb ?e) (ae_now ?e) (ae_host ?e) uid k r1 = (Some True, r2)"
    and tv: "tfa_verified ?e b remember u (db2, r2) = (ev_resp ev, (db', r'))"
  have "live r' (ae_now ?e) key = live r2 (ae_now ?e) key"
    by (rule tfa_verified_frame [OF tv rdb]) (simp add: key_def keys_apart)
  moreover have "live r1 (ae_now ?e) key = None" "live r2 (ae_now ?e) key = Some (''1'', Some (ae_now ?e + tfa_replay_ttl))"
    using mark_used_claims m rdb unfolding key_def by simp_all
  moreover have "live r1 (ae_now ?e) key = live (snd (ev_before ev)) (ae_now ?e) key"
    by (rule consume_frame) (use c rdb keys_apart(5) [of "ae_host ?e" ticket uid k, symmetric] in \<open>simp_all add: key_def pending_key_def\<close>)
  ultimately show ?thesis by simp
qed

text \<open>A step that was accepted stays claimed for three minutes.\<close>

lemma claims_held:
  assumes "auth_trace parse rd host t0 s0 es t s" and "ev \<in> set es" and "sign_in_step ev = Some (uid, k)"
    and "t < ae_now (ev_env ev) + tfa_replay_ttl"
  shows "live (snd s) t (replay_key host uid k) = Some (''1'', Some (ae_now (ev_env ev) + tfa_replay_ttl))"
  using assms
proof (induction rule: auth_trace.induct)
  case start
  then show ?case by simp
next
  case (request es t s e op resp s')
  obtain db r db' r' where s: "s = (db, r)" "s' = (db', r')" by fastforce
  show ?case
  proof (cases "ev \<in> set es")
    case True
    have held: "live r t (replay_key host uid k) = Some (''1'', Some (ae_now (ev_env ev) + tfa_replay_ttl))"
      using request.IH [OF True request.prems(2)] request.prems(3) request.hyps(4) s by simp
    have now: "live r (ae_now e) (replay_key host uid k) = Some (''1'', Some (ae_now (ev_env ev) + tfa_replay_ttl))"
      using live_later [OF request.hyps(4), of r "replay_key host uid k"] held request.prems(3) by simp
    have "live r' (ae_now e) (replay_key (ae_host e) uid k) = live r (ae_now e) (replay_key (ae_host e) uid k)"
      by (rule op_replay [OF _ request.hyps(2)]) (use request.hyps(3,5) s now in auto)
    then show ?thesis using now request.hyps(3) s by simp
  next
    case False
    then have ev: "ev = \<lparr>ev_env = e, ev_op = op, ev_before = s, ev_resp = resp\<rparr>" using request.prems(1) by simp
    show ?thesis using claim_takes_key [OF request.prems(2), of parse db' r'] request.hyps(2,3,5) s ev by simp
  qed
next
  case (elsewhere es t db r db')
  then show ?case by simp
qed

lemma claims_distinct:
  "auth_trace parse rd host t0 s0 es t s \<Longrightarrow> distinct (List.map_filter sign_in_step es)"
proof (induction rule: auth_trace.induct)
  case (request es t s e op resp s')
  let ?ev = "\<lparr>ev_env = e, ev_op = op, ev_before = s, ev_resp = resp\<rparr>"
  obtain db' r' where s': "s' = (db', r')" by fastforce
  have "(uid, k) \<notin> set (List.map_filter sign_in_step es)" if c: "sign_in_step ?ev = Some (uid, k)" for uid k
  proof
    assume "(uid, k) \<in> set (List.map_filter sign_in_step es)"
    then obtain ev where ev: "ev \<in> set es" "sign_in_step ev = Some (uid, k)"
      by (auto simp: List.map_filter_def)
    have "ae_now e < ae_now (ev_env ev) + tfa_replay_ttl"
      using windows_apart [OF claim_window [OF ev(2)] claim_window [OF c]] by simp
    then have "live (snd s) (ae_now e) (replay_key host uid k) \<noteq> None"
      using claims_held [OF request.hyps(1) ev] request.hyps(4) live_later [OF request.hyps(4), of "snd s" "replay_key host uid k"]
      by simp
    then show False using claim_takes_key [OF c, of parse db' r'] request.hyps(2,3,5) s' by simp
  qed
  then show ?case using request.IH by (cases "sign_in_step ?ev") (auto simp: List.map_filter_simps)
qed (simp_all add: List.map_filter_simps)

end

text \<open>
  C13: over any sequence of requests, no two sign-ins are completed with the same TOTP step of a user, although the
  window takes a code for up to two and a half minutes.  It says nothing of the code that confirms a set-up, which the
  server accepts without claiming its step.
\<close>

theorem totp_step_signs_in_once:
  assumes "redis_server rd live" and "auth_trace parse rd host t0 s0 es t s"
  shows "distinct (List.map_filter sign_in_step es)"
  by (rule redis_server.claims_distinct [OF assms])


section \<open>Lockouts\<close>

text \<open>An attempt on an identifier that is well formed and reaches a lockout store.\<close>

definition lockable :: "'r redis \<Rightarrow> string \<Rightarrow> 'r auth_env \<Rightarrow> login_request \<Rightarrow> bool" where
  "lockable rd host e req \<longleftrightarrow>
     ae_rdb e = Some rd \<and> ae_host e = host \<and> ae_login_store e \<noteq> None \<and> \<not> fst (ae_local e)
     \<and> lr_username req \<noteq> [] \<and> lr_password req \<noteq> [] \<and> length (lr_username req) \<le> max_identifier_bytes"

lemma login_when_lockable:
  assumes "lockable rd host e req"
  shows "login e b (Some req) s =
     (case is_locked (Some rd) (ae_now e) (login_lock_key e b (lr_username req)) (snd s) of
        (locked, left) \<Rightarrow> if locked then (LockedOut left, s) else check_credentials e b req s)"
  using assms by (auto simp: login_def lockable_def Let_def)

lemma second_factor_no_lock: "fst (second_factor e b u s) \<noteq> LockedOut n"
  by (simp add: second_factor_def Let_def case_prod_beta complete_login_answers split: option.split)

lemma credentials_lock:
  assumes "check_credentials e b req s = (LockedOut n, s')"
  shows "\<exists>code msg. login_failure e b (lr_username req) (Refused code msg) (snd s) = (LockedOut n, snd s')"
proof -
  have "\<not> at_second_factor e b req u (LockedOut n, s') s" for u
    using second_factor_no_lock [of e b u _ n] by (metis at_second_factor_def fst_conv)
  then have "failed_attempt e b (lr_username req) (LockedOut n, s') s"
    using check_credentials_cases [of e b req s] assms by simp
  then obtain code msg where "fst (login_failure e b (lr_username req) (Refused code msg) (snd s)) = LockedOut n"
    and "snd (login_failure e b (lr_username req) (Refused code msg) (snd s)) = snd s'"
    by (auto simp: failed_attempt_def case_prod_beta)
  then show ?thesis by (intro exI [of _ code] exI [of _ msg]) (simp add: prod_eq_iff)
qed

context redis_server begin

text \<open>The attempt that trips the lock leaves it in Redis for its whole duration.\<close>

lemma tripping_sets_lock:
  assumes "login_failure e b name (Refused code msg) r = (LockedOut n, r')"
    and "ae_rdb e = Some rd" and store: "ae_login_store e = Some own"
    and d: "0 < ll_duration (effective_limits (ae_login_resolved e) own)"
    and works: "\<And>r. fst (r_set rd (ae_now e) (login_lock_key e b name) (ae_stamp e)
       (set_expiry (ll_duration (effective_limits (ae_login_resolved e) own))) r)"
  shows "live r' (ae_now e) (login_lock_key e b name)
     = Some (ae_stamp e, Some (ae_now e + set_expiry (ll_duration (effective_limits (ae_login_resolved e) own))))"
proof -
  let ?lim = "effective_limits (ae_login_resolved e) own" and ?fk = "tenant_key (ae_host e) (login_failed_prefix @ login_ident e b name)"
  obtain k r1 where s: "failed_attempt_script rd (ae_now e) ?fk (script_expiry (ll_duration ?lim)) r = (k, r1)" by fastforce
  then obtain a where "trip_lock rd (ae_now e) ?lim (ae_stamp e) (login_lock_key e b name) ?fk a r1 = ((a, True), r')"
    using assms(1-3) by (auto simp: login_failure_def record_failed_login_def login_lock_key_def s Let_def trip_lock_def
        split: prod.splits option.splits if_splits)
  then show ?thesis
    by (rule tripped_stays_locked) (use works d in \<open>simp_all add: key_prefixes\<close>)
qed

text \<open>No request moves a lock before its last second.\<close>

lemma op_lock:
  assumes op: "do_op parse e op (db, r) = (resp, (db', r'))" and rdb: "ae_rdb e = Some rd"
    and key: "key = tenant_key (ae_host e) (login_lockout_prefix @ ident)"
    and held: "live r (ae_now e) key = Some (v, Some x)" "1000 \<le> x - ae_now e"
    and ttl: "\<And>now r. r_ttl rd now key r \<noteq> None"
  shows "live r' (ae_now e) key = live r (ae_now e) key"
proof (cases op)
  case (LoginOp b body)
  have l: "login e b body (db, r) = (resp, (db', r'))" using op by (simp add: do_op_def LoginOp)
  show ?thesis
  proof (cases "\<exists>req. body = Some req \<and> ae_login_store e \<noteq> None \<and> login_lock_key e b (lr_username req) = key")
    case True
    then obtain req where req: "body = Some req" "ae_login_store e \<noteq> None" "login_lock_key e b (lr_username req) = key" by blast
    have "fst (is_locked (Some rd) (ae_now e) key r)" by (rule live_is_locked [OF held ttl])
    then have "r' = r" using l req rdb by (auto simp: login_def Let_def split: if_splits prod.splits)
    then show ?thesis by simp
  next
    case False
    have "key \<noteq> tenant_key (ae_host e) (login_failed_prefix @ x)" for x by (simp add: key key_prefixes)
    moreover have "key \<noteq> pending_key (ae_host e) t" for t using keys_apart(1) [of "ae_host e" t ident] by (simp add: key)
    ultimately show ?thesis using login_redis [OF l rdb, of key] False by blast
  qed
next
  case (VerifyOp b body)
  then have "verify_tfa e b body (db, r) = (resp, (db', r'))" using op by (simp add: do_op_def)
  then show ?thesis
    by (rule verify_redis [OF _ rdb])
       (use held(1) keys_apart(1) [of "ae_host e" _ ident, symmetric] in \<open>simp_all add: key key_prefixes\<close>)
qed (use other_op_redis [of op parse e "(db, r)"] op in simp_all)

lemma lock_held:
  assumes "auth_trace parse rd host t0 s0 es t s" and "key = tenant_key host (login_lockout_prefix @ ident)"
    and "live (snd s0) t0 key = Some (v, Some x)" and "t + 1000 \<le> x" and "\<And>now r. r_ttl rd now key r \<noteq> None"
  shows "live (snd s) t key = Some (v, Some x)"
  using assms
proof (induction rule: auth_trace.induct)
  case (request es t s e op resp s')
  obtain db r db' r' where s: "s = (db, r)" "s' = (db', r')" by fastforce
  have "live r t key = Some (v, Some x)" using request.IH request.prems request.hyps(4) s by simp
  then have now: "live r (ae_now e) key = Some (v, Some x)"
    using live_later [OF request.hyps(4), of r key] request.prems(3) by simp
  have "live r' (ae_now e) key = live r (ae_now e) key"
    by (rule op_lock [OF _ request.hyps(2) _ now _ request.prems(4)])
       (use request.hyps(3,5) request.prems(1,3) s in auto)
  then show ?case using now s by simp
qed simp_all

lemma locked_until_expiry:
  assumes e0: "lockable rd host e0 req0" "ae_login_store e0 = Some own"
    and d: "d = ll_duration (effective_limits (ae_login_resolved e0) own)" "0 < d"
    and works: "\<And>r. fst (r_set rd (ae_now e0) (login_lock_key e0 b0 (lr_username req0)) (ae_stamp e0) (set_expiry d) r)"
    and ttl: "\<And>now r. r_ttl rd now (login_lock_key e0 b0 (lr_username req0)) r \<noteq> None"
    and tripped: "login e0 b0 (Some req0) s0 = (LockedOut left, s1)"
    and before: "\<not> fst (is_locked (Some rd) (ae_now e0) (login_lock_key e0 b0 (lr_username req0)) (snd s0))"
    and trace: "auth_trace parse rd host (ae_now e0) s1 es t s"
    and later: "lockable rd host e req" "t \<le> ae_now e" "ae_now e + 1000 \<le> ae_now e0 + set_expiry d"
    and same: "login_ident e b (lr_username req) = login_ident e0 b0 (lr_username req0)"
  shows "\<exists>n. login e b (Some req) s = (LockedOut n, s)"
proof -
  let ?key = "tenant_key host (login_lockout_prefix @ login_ident e0 b0 (lr_username req0))"
  have keys: "login_lock_key e0 b0 (lr_username req0) = ?key" "login_lock_key e b (lr_username req) = ?key"
    using e0 later(1) same by (simp_all add: login_lock_key_def lockable_def)
  have "check_credentials e0 b0 req0 s0 = (LockedOut left, s1)"
    using tripped before e0(1) by (simp add: login_when_lockable split: prod.splits if_splits)
  then obtain code msg where "login_failure e0 b0 (lr_username req0) (Refused code msg) (snd s0) = (LockedOut left, snd s1)"
    using credentials_lock by blast
  then have "live (snd s1) (ae_now e0) ?key = Some (ae_stamp e0, Some (ae_now e0 + set_expiry d))"
    unfolding keys(1) [symmetric] d(1)
    by (rule tripping_sets_lock) (use e0 d works in \<open>simp_all add: lockable_def\<close>)
  then have "live (snd s) t ?key = Some (ae_stamp e0, Some (ae_now e0 + set_expiry d))"
    by (rule lock_held [OF trace refl _ _ ttl [unfolded keys(1)]]) (use later in simp)
  then have "live (snd s) (ae_now e) ?key = Some (ae_stamp e0, Some (ae_now e0 + set_expiry d))"
    using live_later [OF later(2), of "snd s" ?key] later(3) by simp
  then have "fst (is_locked (Some rd) (ae_now e) ?key (snd s))"
    by (rule live_is_locked) (use later(3) ttl [unfolded keys(1)] in simp_all)
  then show ?thesis using login_when_lockable [OF later(1), of b s] keys(2) by (auto split: prod.splits)
qed

end

text \<open>
  C14: once a sign-in has tripped the lockout and Redis has stored the lock, every sign-in with the same address and
  user name is refused, whatever its password and whatever requests come between, until the last second of the
  lockout, provided the lock's remaining time can be read (the code lets a sign-in pass when it cannot) and the
  duration in force is positive: of minutes up to 153722867 the product with \<open>time.Minute\<close> does not wrap.
\<close>

theorem lockout_holds_until_expiry:
  assumes "redis_server rd live"
    and "lockable rd host e0 req0" and "ae_login_store e0 = Some (new_login_lockout_store attempts minutes)"
    and "d = ll_duration (effective_limits (ae_login_resolved e0) (new_login_lockout_store attempts minutes))" and "0 < d"
    and "\<And>r. fst (r_set rd (ae_now e0) (login_lock_key e0 b0 (lr_username req0)) (ae_stamp e0) (set_expiry d) r)"
    and "\<And>now r. r_ttl rd now (login_lock_key e0 b0 (lr_username req0)) r \<noteq> None"
    and "login e0 b0 (Some req0) s0 = (LockedOut left, s1)"
    and "\<not> fst (is_locked (Some rd) (ae_now e0) (login_lock_key e0 b0 (lr_username req0)) (snd s0))"
    and "auth_trace parse rd host (ae_now e0) s1 es t s"
    and "lockable rd host e req" and "t \<le> ae_now e" and "ae_now e + 1000 \<le> ae_now e0 + set_expiry d"
    and "login_ident e b (lr_username req) = login_ident e0 b0 (lr_username req0)"
  shows "\<exists>n. login e b (Some req) s = (LockedOut n, s)"
  by (rule redis_server.locked_until_expiry [OF assms])

text \<open>What the duration is: the configured minutes, when they are at most 292 years.\<close>

lemma lockout_duration:
  assumes "0 < minutes" and "minutes \<le> 153722867"
  shows "ll_duration (new_login_lockout_store attempts minutes) = minutes * 60000000000"
  using assms by (simp add: new_login_lockout_store_def go_minutes_id)

section \<open>A sample trace\<close>

definition event_of :: "token_parser \<Rightarrow> 'r auth_env \<Rightarrow> auth_op \<Rightarrow> 'r auth_state \<Rightarrow> 'r auth_event" where
  "event_of parse e op s = \<lparr>ev_env = e, ev_op = op, ev_before = s, ev_resp = fst (do_op parse e op s)\<rparr>"

lemma trace_step:
  "auth_trace parse rd host t0 s0 es t s \<Longrightarrow> ae_rdb e = Some rd \<Longrightarrow> ae_host e = host \<Longrightarrow> t \<le> ae_now e
     \<Longrightarrow> auth_trace parse rd host t0 s0 (event_of parse e op s # es) (ae_now e) (snd (do_op parse e op s))"
  unfolding event_of_def by (rule auth_trace.request) simp_all

definition new_browser :: browser where
  "new_browser = sample_browser\<lparr>br_trust_cookie := None\<rparr>"

definition sample_ops :: "auth_op \<times> auth_op" where
  "sample_ops = (LoginOp new_browser (Some (sample_login ''secret'')),
     VerifyOp new_browser (Some \<lparr>tr_token = ''123456'', tr_remember = False, tr_ticket = ''ticket''\<rparr>))"

definition sample_start :: "redis_map auth_state" where
  "sample_start = (sample_accounts, Map.empty)"

definition login_event :: "redis_map auth_event" where
  "login_event = event_of sample_parser sample_env (fst sample_ops) sample_start"

definition after_login :: "redis_map auth_state" where
  "after_login = snd (do_op sample_parser sample_env (fst sample_ops) sample_start)"

definition verify_event :: "redis_map auth_event" where
  "verify_event = event_of sample_parser sample_env (snd sample_ops) after_login"

lemma sample_auth_trace:
  "auth_trace sample_parser map_redis [] 1000000 sample_start [verify_event, login_event] 1000000
     (snd (do_op sample_parser sample_env (snd sample_ops) after_login))"
proof -
  have now: "ae_now sample_env = 1000000" "ae_rdb sample_env = Some map_redis" "ae_host sample_env = []"
    by (simp_all add: sample_env_def)
  have "auth_trace sample_parser map_redis [] 1000000 sample_start [login_event] 1000000 after_login"
    using trace_step [OF auth_trace.start, of sample_env map_redis "[]" 1000000 sample_parser sample_start "fst sample_ops"]
    by (simp add: now login_event_def after_login_def)
  from trace_step [OF this, of sample_env "snd sample_ops"] show ?thesis by (simp add: now verify_event_def)
qed

lemma sample_verified: "signed_in (ev_resp verify_event)"
  by code_simp

theorem tfa_login_needs_proven_password_witness:
  "\<exists>g. ev_resp verify_event = SignedIn g \<and> issued login_event (lg_user g) ''ticket''"
proof -
  obtain g where g: "ev_resp verify_event = SignedIn g"
    using sample_verified by (cases "ev_resp verify_event") simp_all
  have op: "ev_op verify_event = VerifyOp new_browser (Some \<lparr>tr_token = ''123456'', tr_remember = False, tr_ticket = ''ticket''\<rparr>)"
    by (simp add: verify_event_def event_of_def sample_ops_def)
  have fresh: "map_live (snd sample_start) 1000000 (pending_key [] tk) = None" for tk
    by (simp add: sample_start_def map_live_def)
  show ?thesis
    using tfa_login_needs_proven_password [OF map_server.redis_server_axioms sample_auth_trace fresh op g] g
    by (auto simp: Cons_eq_append_conv)
qed

theorem totp_step_signs_in_once_witness:
  "distinct (List.map_filter sign_in_step [verify_event, login_event]) \<and> sign_in_step verify_event \<noteq> None"
proof
  show "distinct (List.map_filter sign_in_step [verify_event, login_event])"
    by (rule totp_step_signs_in_once [OF map_server.redis_server_axioms sample_auth_trace])
  show "sign_in_step verify_event \<noteq> None" by code_simp
qed

theorem lockout_holds_until_expiry_witness:
  "\<exists>n s. login (sample_env\<lparr>ae_now := 1890000\<rparr>) new_browser (Some (sample_login ''secret'')) s = (LockedOut n, s) \<and> fst s = sample_accounts"
proof -
  let ?e = "sample_env\<lparr>ae_now := 1890000\<rparr>" and ?l = "login sample_env new_browser (Some (sample_login ''guess'')) sample_start"
  have env: "lockable map_redis [] sample_env (sample_login p)" "lockable map_redis [] ?e (sample_login p)" if "p \<noteq> []" for p
    using that by (simp_all add: lockable_def sample_env_def sample_login_def max_identifier_bytes_def)
  have "case fst ?l of LockedOut _ \<Rightarrow> True | _ \<Rightarrow> False" by code_simp
  then obtain left where l: "?l = (LockedOut left, snd ?l)" by (cases "fst ?l") (auto simp: prod_eq_iff)
  have "\<exists>n. login ?e new_browser (Some (sample_login ''secret'')) (snd ?l) = (LockedOut n, snd ?l)"
  proof (rule lockout_holds_until_expiry [where attempts = 1 and minutes = 15, OF map_server.redis_server_axioms env(1) _ refl _ _ _ l])
    show "auth_trace sample_parser map_redis [] (ae_now sample_env) (snd ?l) [] (ae_now sample_env) (snd ?l)"
      by (rule auth_trace.start)
    show "\<not> fst (is_locked (Some map_redis) (ae_now sample_env) (login_lock_key sample_env new_browser (lr_username (sample_login ''guess''))) (snd sample_start))"
      by code_simp
    show "lockable map_redis [] ?e (sample_login ''secret'')" by (rule env(2)) simp
  qed (simp_all add: map_redis_def sample_env_def sample_login_def login_ident_def effective_limits_def new_login_lockout_store_def
      set_expiry_def quot_def go_minutes_def int64_wrap_def)
  moreover have "fst (snd ?l) = sample_accounts" by code_simp
  ultimately show ?thesis by blast
qed

section \<open>A ticket outlives a password change\<close>

text \<open>
  A ticket drawn with the old password still completes a sign-in after the user has changed the password
  from another session.
\<close>

definition after_change :: "redis_map auth_state" where
  "after_change = snd (do_op sample_parser sample_env
     (UserOp \<lparr>rq_token = ''s1'', rq_route = ''PUT /api/v1/auth/change-password'', rq_activity = False\<rparr>
       (ChangePassword ''secret'' ''better'')) after_login)"

lemma ticket_survives_password_change:
  "map au_hash (ad_users (fst after_change)) = [Some ''better'']"
  "signed_in (fst (do_op sample_parser sample_env (snd sample_ops) after_change))"
  by code_simp+

end
