(* ===== verification/Roles.thy ===== *)
theory Roles
  imports AuthSessions
begin

text \<open>
  Roles and what they may grant: \<open>role_permissions\<close> with its store (\<open>internal/store/permissions.go\<close>), the
  permission middleware (\<open>internal/middleware/permissions.go\<close>), the guards of \<open>internal/handler/role_guard.go\<close>
  and the role handlers (\<open>permissions.go\<close>).

  A request reads a role up to six times; \<open>role_site\<close> names the place of a read, so that any of them can
  fail alone.
\<close>

section \<open>Roles\<close>

datatype permission =
    CanViewDashboard | CanViewHosts | CanManageHosts | CanViewPackages | CanManagePackages
  | CanViewUsers | CanManageUsers | CanManageSuperusers | CanViewReports | CanExportData
  | CanManageSettings | CanManageNotifications | CanViewNotificationLogs | CanManagePatching
  | CanManageCompliance | CanManageDocker | CanManageAlerts | CanManageAutomation
  | CanUseRemoteAccess | CanManageBilling

definition all_permissions :: "permission list" where
  "all_permissions =
     [CanViewDashboard, CanViewHosts, CanManageHosts, CanViewPackages, CanManagePackages, CanViewUsers,
      CanManageUsers, CanManageSuperusers, CanViewReports, CanExportData, CanManageSettings,
      CanManageNotifications, CanViewNotificationLogs, CanManagePatching, CanManageCompliance,
      CanManageDocker, CanManageAlerts, CanManageAutomation, CanUseRemoteAccess, CanManageBilling]"

fun permission_name :: "permission \<Rightarrow> string" where
  "permission_name CanViewDashboard = ''can_view_dashboard''"
| "permission_name CanViewHosts = ''can_view_hosts''"
| "permission_name CanManageHosts = ''can_manage_hosts''"
| "permission_name CanViewPackages = ''can_view_packages''"
| "permission_name CanManagePackages = ''can_manage_packages''"
| "permission_name CanViewUsers = ''can_view_users''"
| "permission_name CanManageUsers = ''can_manage_users''"
| "permission_name CanManageSuperusers = ''can_manage_superusers''"
| "permission_name CanViewReports = ''can_view_reports''"
| "permission_name CanExportData = ''can_export_data''"
| "permission_name CanManageSettings = ''can_manage_settings''"
| "permission_name CanManageNotifications = ''can_manage_notifications''"
| "permission_name CanViewNotificationLogs = ''can_view_notification_logs''"
| "permission_name CanManagePatching = ''can_manage_patching''"
| "permission_name CanManageCompliance = ''can_manage_compliance''"
| "permission_name CanManageDocker = ''can_manage_docker''"
| "permission_name CanManageAlerts = ''can_manage_alerts''"
| "permission_name CanManageAutomation = ''can_manage_automation''"
| "permission_name CanUseRemoteAccess = ''can_use_remote_access''"
| "permission_name CanManageBilling = ''can_manage_billing''"

record role_permission =
  ro_id :: string
  ro_role :: string
  ro_grants :: "permission \<Rightarrow> bool"

datatype role_site =
    GateSite | CallerSite | TargetSite | BackCallerSite | BackTargetSite | GrantSite | SuperuserSite | HolderSite | UpsertSite

datatype role_lookup = RoleError | NoRole | Role role_permission

definition get_by_role :: "(role_site \<Rightarrow> bool) \<Rightarrow> role_site \<Rightarrow> string \<Rightarrow> role_permission list \<Rightarrow> role_lookup" where
  "get_by_role fails site name roles =
     (if fails site then RoleError
      else case find (\<lambda>p. ro_role p = name) roles of None \<Rightarrow> NoRole | Some p \<Rightarrow> Role p)"

text \<open>\<open>hasPermission\<close>; an unknown name is never held.\<close>

definition has_permission :: "role_permission \<Rightarrow> string \<Rightarrow> bool" where
  "has_permission p name = list_ex (\<lambda>q. permission_name q = name \<and> ro_grants p q) all_permissions"

text \<open>\<open>RequireAnyPermission\<close>: \<open>None\<close> admits the request.\<close>

definition require_any_permission ::
  "(role_site \<Rightarrow> bool) \<Rightarrow> string list \<Rightarrow> string \<Rightarrow> role_permission list \<Rightarrow> (nat \<times> string) option" where
  "require_any_permission fails perms role roles =
     (if role = [] then Some (401, ''Unauthorized'')
      else case get_by_role fails GateSite role roles of
             Role p \<Rightarrow> if list_ex (has_permission p) perms then None else Some (403, ''Insufficient permissions'')
           | _ \<Rightarrow> Some (403, ''Access denied''))"

section \<open>The guards\<close>

definition missing_permissions :: "(permission \<Rightarrow> bool) \<Rightarrow> (permission \<Rightarrow> bool) \<Rightarrow> string list" where
  "missing_permissions holder target =
     map permission_name (filter (\<lambda>q. target q \<and> \<not> holder q) all_permissions)"

definition role_covers_at ::
  "role_site \<Rightarrow> role_site \<Rightarrow> (role_site \<Rightarrow> bool) \<Rightarrow> role_permission list \<Rightarrow> string \<Rightarrow> string \<Rightarrow> bool" where
  "role_covers_at caller_site target_site fails roles caller target =
     (if caller = ''superadmin'' then True
      else case get_by_role fails caller_site caller roles of
             Role c \<Rightarrow>
               (case get_by_role fails target_site target roles of
                  NoRole \<Rightarrow> target \<noteq> ''admin'' \<and> target \<noteq> ''superadmin''
                | RoleError \<Rightarrow> False
                | Role t \<Rightarrow> missing_permissions (ro_grants c) (ro_grants t) = [])
           | _ \<Rightarrow> False)"

definition role_covers :: "(role_site \<Rightarrow> bool) \<Rightarrow> role_permission list \<Rightarrow> string \<Rightarrow> string \<Rightarrow> bool" where
  "role_covers = role_covers_at CallerSite TargetSite"

definition can_grant_role :: "(role_site \<Rightarrow> bool) \<Rightarrow> role_permission list \<Rightarrow> string \<Rightarrow> string \<Rightarrow> bool" where
  "can_grant_role fails roles caller target =
     (let t = trim_space target
      in if t = [] then False
         else case get_by_role fails GrantSite t roles of
                Role _ \<Rightarrow>
                  if caller = ''superadmin'' then True
                  else if t = ''admin'' then False
                  else role_covers fails roles caller t
              | _ \<Rightarrow> False)"

definition role_outranks :: "(role_site \<Rightarrow> bool) \<Rightarrow> role_permission list \<Rightarrow> string \<Rightarrow> string \<Rightarrow> bool" where
  "role_outranks fails roles caller target =
     (if caller = ''superadmin'' then True
      else role_covers fails roles caller target \<and> \<not> role_covers_at BackTargetSite BackCallerSite fails roles target caller)"

text \<open>The part of the settings that decides the roles of new users.\<close>

record role_settings =
  rs_default :: string
  rs_oidc_default :: "string option"
  rs_superadmin_group :: "string option"
  rs_admin_group :: "string option"
  rs_host_manager_group :: "string option"
  rs_readonly_group :: "string option"
  rs_user_group :: "string option"

definition deref :: "string option \<Rightarrow> string" where
  "deref p = (case p of None \<Rightarrow> [] | Some s \<Rightarrow> s)"

definition role_changes :: "role_settings \<Rightarrow> role_settings \<Rightarrow> (string \<times> bool) list" where
  "role_changes before after =
     [(rs_default after, rs_default after \<noteq> rs_default before),
      (deref (rs_oidc_default after), deref (rs_oidc_default after) \<noteq> deref (rs_oidc_default before)),
      (''superadmin'', deref (rs_superadmin_group after) \<noteq> deref (rs_superadmin_group before)),
      (''admin'', deref (rs_admin_group after) \<noteq> deref (rs_admin_group before)),
      (''host_manager'', deref (rs_host_manager_group after) \<noteq> deref (rs_host_manager_group before)),
      (''readonly'', deref (rs_readonly_group after) \<noteq> deref (rs_readonly_group before)),
      (''user'', deref (rs_user_group after) \<noteq> deref (rs_user_group before))]"

definition ungrantable_role_change ::
  "(role_site \<Rightarrow> bool) \<Rightarrow> role_permission list \<Rightarrow> string \<Rightarrow> role_settings \<Rightarrow> role_settings \<Rightarrow> string" where
  "ungrantable_role_change fails roles caller before after =
     (case find (\<lambda>(role, changed). changed \<and> \<not> can_grant_role fails roles caller role) (role_changes before after) of
        None \<Rightarrow> []
      | Some (role, _) \<Rightarrow> role)"

section \<open>Changing and deleting roles\<close>

definition immutable_roles :: "string list" where
  "immutable_roles = [''superadmin'', ''admin'', ''user'']"

definition built_in_roles :: "string list" where
  "built_in_roles = [''superadmin'', ''admin'', ''host_manager'', ''readonly'', ''user'']"

text \<open>\<open>UpsertRolePermissions\<close>: one row per role name.\<close>

definition upsert_role :: "string \<Rightarrow> string \<Rightarrow> (permission \<Rightarrow> bool) \<Rightarrow> role_permission list \<Rightarrow> role_permission list" where
  "upsert_role new_id name grants roles =
     (if list_ex (\<lambda>p. ro_role p = name) roles
      then update_where (\<lambda>p. ro_role p = name) (\<lambda>p. p\<lparr>ro_grants := grants\<rparr>) roles
      else roles @ [\<lparr>ro_id = new_id, ro_role = name, ro_grants = grants\<rparr>])"

definition delete_role_row :: "string \<Rightarrow> role_permission list \<Rightarrow> role_permission list" where
  "delete_role_row name roles = filter (\<lambda>p. ro_role p \<noteq> name) roles"

definition comma_list :: "string list \<Rightarrow> string" where
  "comma_list names = concat (map (\<lambda>(i, n). (if i = 0 then [] else '', '') @ n) (enumerate 0 names))"

end
