(* ===== verification/UserAdmin.thy ===== *)
theory UserAdmin
  imports Roles
begin

text \<open>
  Administration of users and roles: the handlers of \<open>internal/handler/users.go\<close>, \<open>users_tfa_reset.go\<close> and
  \<open>permissions.go\<close> behind the permission middleware, as one operation of a caller on the accounts, Redis and
  the roles.

  The caller is the user and the role its access token names; the token's role can be older than the stored
  one.  Names, themes and avatars of users are left out, as are audit rows, logs and notifications.
\<close>

section \<open>The environment\<close>

datatype admin_query =
    QCaller | QExists | QCountUsers | QCreateUser | QUpdateUser | QDeleteUser | QCountSuperadmins | QCountAdmins
  | QClearLink | QUpsertRole | QDeleteRole | QCountRole | QBegin | QResetUserTfa | QTemporaryPassword | QAudit | QCommit

record 'r admin_env =
  ax_auth :: "'r auth_env"
  ax_role_fails :: "role_site \<Rightarrow> bool"
  ax_fails :: "admin_query \<Rightarrow> bool"
  ax_settings_role :: "string option"
  ax_resolved_role :: "string option"
  ax_env_role :: string
  ax_max_users :: "int option"
  ax_new_user :: string
  ax_new_role :: string
  ax_trust_email :: bool
  ax_custom_roles :: bool

record 'r admin_state =
  as_db :: auth_db
  as_redis :: 'r
  as_roles :: "role_permission list"

text \<open>What a role of the caller may do, with the reads of this request.\<close>

definition covers :: "'r admin_env \<Rightarrow> 'r admin_state \<Rightarrow> string \<Rightarrow> string \<Rightarrow> bool" where
  "covers x s caller target = role_covers (ax_role_fails x) (as_roles s) caller target"

definition outranks :: "'r admin_env \<Rightarrow> 'r admin_state \<Rightarrow> string \<Rightarrow> string \<Rightarrow> bool" where
  "outranks x s caller target = role_outranks (ax_role_fails x) (as_roles s) caller target"

definition may_grant :: "'r admin_env \<Rightarrow> 'r admin_state \<Rightarrow> string \<Rightarrow> string \<Rightarrow> bool" where
  "may_grant x s caller target = can_grant_role (ax_role_fails x) (as_roles s) caller target"

text \<open>A superadmin's account needs a superadmin, or the permission to manage them.\<close>

definition superuser_refused :: "'r admin_env \<Rightarrow> 'r admin_state \<Rightarrow> string \<Rightarrow> auth_user \<Rightarrow> bool" where
  "superuser_refused x s caller u \<longleftrightarrow>
     au_role u = ''superadmin'' \<and> caller \<noteq> ''superadmin''
     \<and> (case get_by_role (ax_role_fails x) SuperuserSite caller (as_roles s) of
          Role p \<Rightarrow> \<not> ro_grants p CanManageSuperusers
        | _ \<Rightarrow> True)"

definition fetch_user :: "'r admin_env \<Rightarrow> string \<Rightarrow> 'r admin_state \<Rightarrow> auth_user option" where
  "fetch_user x uid s = get_user (ax_auth x) uid (as_db s)"

text \<open>The second read of users in a request: the caller's own row.\<close>

definition fetch_caller :: "'r admin_env \<Rightarrow> string \<Rightarrow> 'r admin_state \<Rightarrow> auth_user option" where
  "fetch_caller x uid s = (if ax_fails x QCaller then None else find_user uid (ad_users (as_db s)))"

section \<open>Statements\<close>

definition name_taken :: "string \<Rightarrow> string \<Rightarrow> string \<Rightarrow> auth_db \<Rightarrow> bool" where
  "name_taken username email except db =
     list_ex (\<lambda>u. (to_lower (au_username u) = to_lower username \<or> to_lower (au_email u) = to_lower email)
                \<and> (except = [] \<or> au_id u \<noteq> except)) (ad_users db)"

definition count_active :: "string \<Rightarrow> auth_db \<Rightarrow> int" where
  "count_active role db = int (length (filter (\<lambda>u. au_role u = role \<and> au_active u) (ad_users db)))"

definition count_superadmins :: "'r admin_env \<Rightarrow> auth_db \<Rightarrow> int" where
  "count_superadmins x db = (if ax_fails x QCountSuperadmins then 0 else count_active ''superadmin'' db)"

definition count_active_admins :: "'r admin_env \<Rightarrow> auth_db \<Rightarrow> int" where
  "count_active_admins x db = (if ax_fails x QCountAdmins then 0 else count_active ''admin'' db)"

definition insert_user :: "'r admin_env \<Rightarrow> auth_user \<Rightarrow> auth_db \<Rightarrow> auth_db option" where
  "insert_user x u db =
     (if ax_fails x QCreateUser
         \<or> list_ex (\<lambda>v. au_id v = au_id u \<or> au_username v = au_username u \<or> au_email v = au_email u) (ad_users db)
      then None else Some (db\<lparr>ad_users := ad_users db @ [u]\<rparr>))"

definition update_user_row :: "'r admin_env \<Rightarrow> auth_user \<Rightarrow> auth_db \<Rightarrow> auth_db option" where
  "update_user_row x u db =
     (if ax_fails x QUpdateUser
         \<or> list_ex (\<lambda>v. au_id v \<noteq> au_id u \<and> (au_username v = au_username u \<or> au_email v = au_email u)) (ad_users db)
      then None
      else Some (change_users (\<lambda>v. au_id v = au_id u)
             (\<lambda>v. v\<lparr>au_username := au_username u, au_email := au_email u, au_role := au_role u, au_active := au_active u\<rparr>) db))"

text \<open>Deleting a user deletes its sessions and devices with it.\<close>

definition delete_user_row :: "'r admin_env \<Rightarrow> string \<Rightarrow> auth_db \<Rightarrow> auth_db option" where
  "delete_user_row x uid db =
     (if ax_fails x QDeleteUser then None
      else Some (db\<lparr>ad_users := filter (\<lambda>u. au_id u \<noteq> uid) (ad_users db),
                    ad_sessions := filter (\<lambda>s. us_user s \<noteq> uid) (ad_sessions db),
                    ad_devices := filter (\<lambda>d. td_user d \<noteq> uid) (ad_devices db)\<rparr>))"

definition clear_oidc_link :: "'r admin_env \<Rightarrow> string \<Rightarrow> auth_db \<Rightarrow> auth_db option" where
  "clear_oidc_link x uid db =
     (if ax_fails x QClearLink then None
      else Some (change_users (\<lambda>u. au_id u = uid) (\<lambda>u. u\<lparr>au_oidc_sub := None, au_oidc_provider := None\<rparr>) db))"

text \<open>
  \<open>AdminResetTfa\<close>, in a transaction: \<open>None\<close> is an error, and the flag is false when TFA was off.
\<close>

definition reset_user_tfa :: "string \<Rightarrow> auth_db \<Rightarrow> auth_db" where
  "reset_user_tfa uid =
     change_users (\<lambda>u. au_id u = uid \<and> au_tfa u)
       (\<lambda>u. u\<lparr>au_tfa := False, au_secret := None, au_codes := None,
             au_enrol_required := au_hash u \<noteq> None \<and> au_oidc_sub u = None \<and> au_oidc_provider u = None\<rparr>)"

definition set_temporary_password :: "string \<Rightarrow> string \<Rightarrow> auth_db \<Rightarrow> auth_db" where
  "set_temporary_password uid hash =
     change_users (\<lambda>u. au_id u = uid)
       (\<lambda>u. u\<lparr>au_previous_hash := au_hash u, au_hash := Some hash, au_change_required := True\<rparr>)"

definition admin_reset_tfa :: "'r admin_env \<Rightarrow> string \<Rightarrow> string option \<Rightarrow> auth_db \<Rightarrow> (bool \<times> auth_db) option" where
  "admin_reset_tfa x uid temp db =
     (if ax_fails x QBegin \<or> ax_fails x QResetUserTfa then None
      else if \<not> list_ex (\<lambda>u. au_id u = uid \<and> au_tfa u) (ad_users db) then Some (False, db)
      else if (temp \<noteq> None \<and> ax_fails x QTemporaryPassword) \<or> ae_fails (ax_auth x) QRevokeDevices
              \<or> ae_fails (ax_auth x) QRevokeSessions \<or> ax_fails x QAudit \<or> ax_fails x QCommit
      then None
      else let db1 = reset_user_tfa uid db;
               db2 = (case temp of None \<Rightarrow> db1 | Some h \<Rightarrow> set_temporary_password uid h db1);
               db3 = snd (revoke_all_devices (ax_auth x) uid db2)
           in Some (True, snd (revoke_all_sessions (ax_auth x) uid [] db3)))"

section \<open>Creating and updating users\<close>

definition default_role :: "'r admin_env \<Rightarrow> string" where
  "default_role x =
     (let settings = deref (ax_settings_role x); resolved = deref (ax_resolved_role x)
      in if settings \<noteq> [] then settings
         else if resolved \<noteq> [] then resolved
         else if ax_env_role x \<noteq> [] \<and> trim_space (ax_env_role x) \<noteq> [] then trim_space (ax_env_role x)
         else ''user'')"

record create_request =
  cr_username :: string
  cr_email :: string
  cr_password :: string
  cr_role :: string

definition new_user :: "'r admin_env \<Rightarrow> create_request \<Rightarrow> string \<Rightarrow> string \<Rightarrow> auth_user" where
  "new_user x req role hash =
     \<lparr>au_id = ax_new_user x, au_username = cr_username req, au_email = cr_email req, au_hash = Some hash, au_role = role,
      au_active = True, au_tfa = False, au_secret = None, au_codes = None, au_oidc_sub = None, au_oidc_provider = None,
      au_enrol_required = False, au_change_required = False, au_previous_hash = None, au_last_login = None\<rparr>"

definition create_user :: "'r admin_env \<Rightarrow> string \<Rightarrow> create_request \<Rightarrow> 'r admin_state \<Rightarrow> auth_response \<times> auth_db" where
  "create_user x caller_role req s =
     (let db = as_db s; pw = trim_space (cr_password req);
          role = (if trim_space (cr_role req) = [] then default_role x else trim_space (cr_role req))
      in if length (cr_username req) < 3 then (Refused 400 ''Username must be at least 3 characters'', db)
         else if cr_email req = [] then (Refused 400 ''Valid email is required'', db)
         else if pw = [] then (Refused 400 ''Password is required'', db)
         else case ae_policy (ax_auth x) pw of
                Some msg \<Rightarrow> (Refused 400 msg, db)
              | None \<Rightarrow>
                  if \<not> may_grant x s caller_role role
                  then (Refused 403 (''You do not have permission to assign the role: '' @ role), db)
                  else if ax_fails x QExists \<or> name_taken (cr_username req) (cr_email req) [] db
                  then (Refused 409 ''Username or email already exists'', db)
                  else if (case ax_max_users x of
                             None \<Rightarrow> False
                           | Some m \<Rightarrow> \<not> ax_fails x QCountUsers \<and> int (length (ad_users db)) \<ge> m)
                  then (Refused 403 (''User limit reached for this host'' @ [CHR 0x27] @ ''s package''), db)
                  else case ae_new_hash (ax_auth x) pw of
                         None \<Rightarrow> (Refused 500 ''Failed to hash password'', db)
                       | Some h \<Rightarrow>
                           (case insert_user x (new_user x req role h) db of
                              None \<Rightarrow> (Refused 500 ''Failed to create user'', db)
                            | Some db' \<Rightarrow> (Accepted, db')))"

record update_request =
  up_username :: "string option"
  up_email :: "string option"
  up_role :: "string option"
  up_active :: "bool option"

definition with_default :: "'a option \<Rightarrow> 'a \<Rightarrow> 'a" where
  "with_default opt d = (case opt of None \<Rightarrow> d | Some v \<Rightarrow> v)"

text \<open>Why a role change is refused, if it is; \<open>assigner\<close> is the caller's stored role, empty when not active.\<close>

definition assigner_role :: "'r admin_env \<Rightarrow> string \<Rightarrow> 'r admin_state \<Rightarrow> string" where
  "assigner_role x caller s =
     (case fetch_caller x caller s of Some c \<Rightarrow> if au_active c then au_role c else [] | None \<Rightarrow> [])"

definition role_change_refused ::
  "'r admin_env \<Rightarrow> string \<Rightarrow> auth_user \<Rightarrow> string \<Rightarrow> 'r admin_state \<Rightarrow> (nat \<times> string) option" where
  "role_change_refused x caller u role s =
     (if role = au_role u then None
      else if \<not> may_grant x s (assigner_role x caller s) role
      then Some (403, ''You do not have permission to assign the role: '' @ role)
      else if caller \<noteq> [] \<and> au_id u = caller then Some (400, ''Cannot change your own role'')
      else if \<not> outranks x s (assigner_role x caller s) (au_role u)
      then Some (403, ''Cannot change the role of a user whose role is equal to or above yours'')
      else None)"

definition updated_user :: "update_request \<Rightarrow> auth_user \<Rightarrow> auth_user" where
  "updated_user req u =
     u\<lparr>au_username := with_default (up_username req) (au_username u),
       au_email := with_default (up_email req) (au_email u),
       au_role := with_default (map_option trim_space (up_role req)) (au_role u),
       au_active := with_default (up_active req) (au_active u)\<rparr>"

text \<open>What follows a stored update: a changed role or a deactivation ends the user's sessions.\<close>

definition after_update :: "'r admin_env \<Rightarrow> auth_user \<Rightarrow> auth_user \<Rightarrow> auth_db \<Rightarrow> auth_db" where
  "after_update x u u' db =
     (let uid = au_id u; deactivated = \<not> au_active u' \<and> au_active u;
          db1 = (if au_role u' \<noteq> au_role u \<or> deactivated then snd (revoke_all_sessions (ax_auth x) uid [] db) else db)
      in if deactivated \<and> ae_has_devices (ax_auth x) then snd (revoke_all_devices (ax_auth x) uid db1) else db1)"

definition update_user ::
  "'r admin_env \<Rightarrow> string \<Rightarrow> string \<Rightarrow> string \<Rightarrow> update_request option \<Rightarrow> 'r admin_state \<Rightarrow> auth_response \<times> auth_db" where
  "update_user x caller caller_role uid body s =
     (let db = as_db s
      in if uid = [] then (Refused 400 ''User ID required'', db)
         else case fetch_user x uid s of
                None \<Rightarrow> (Refused 404 ''User not found'', db)
              | Some u \<Rightarrow>
                  (case body of
                     None \<Rightarrow> (Refused 400 ''Invalid request body'', db)
                   | Some req \<Rightarrow>
                       if \<not> covers x s caller_role (au_role u)
                       then (Refused 403 ''Cannot modify a user with a higher-privilege role'', db)
                       else if superuser_refused x s caller_role u
                       then (Refused 403 ''You do not have permission to modify superadmin users'', db)
                       else let u' = updated_user req u
                            in case (case up_role req of None \<Rightarrow> None | Some role \<Rightarrow> role_change_refused x caller u (trim_space role) s) of
                                 Some (code, msg) \<Rightarrow> (Refused code msg, db)
                               | None \<Rightarrow>
                                   if \<not> ax_fails x QExists \<and> name_taken (au_username u') (au_email u') uid db
                                   then (Refused 409 ''Username or email already exists'', db)
                                   else (case update_user_row x u' db of
                                           None \<Rightarrow> (Refused 500 ''Failed to update user'', db)
                                         | Some db' \<Rightarrow> (Accepted, after_update x u u' db'))))"

section \<open>Deleting, unlinking and resetting users\<close>

definition delete_user :: "'r admin_env \<Rightarrow> string \<Rightarrow> string \<Rightarrow> string \<Rightarrow> 'r admin_state \<Rightarrow> auth_response \<times> auth_db" where
  "delete_user x caller caller_role uid s =
     (let db = as_db s
      in if caller \<noteq> [] \<and> uid = caller then (Refused 400 ''Cannot delete your own account'', db)
         else case fetch_user x uid s of
                None \<Rightarrow> (Refused 404 ''User not found'', db)
              | Some u \<Rightarrow>
                  if \<not> covers x s caller_role (au_role u)
                  then (Refused 403 ''Cannot delete a user with a higher-privilege role'', db)
                  else if superuser_refused x s caller_role u
                  then (Refused 403 ''You do not have permission to delete superadmin users'', db)
                  else if au_role u = ''superadmin'' \<and> count_superadmins x db \<le> 1
                  then (Refused 400 ''Cannot delete the last superadmin user'', db)
                  else if au_role u = ''admin'' \<and> count_superadmins x db = 0 \<and> count_active_admins x db \<le> 1
                  then (Refused 400 ''Cannot delete the last admin user'', db)
                  else case delete_user_row x uid db of
                         None \<Rightarrow> (Refused 500 ''Failed to delete user'', db)
                       | Some db' \<Rightarrow> (Accepted, db'))"

definition unlink_oidc :: "'r admin_env \<Rightarrow> string \<Rightarrow> string \<Rightarrow> string \<Rightarrow> 'r admin_state \<Rightarrow> auth_response \<times> auth_db" where
  "unlink_oidc x caller caller_role uid s =
     (let db = as_db s
      in if caller \<noteq> [] \<and> uid = caller then (Refused 400 ''Cannot unlink your own SSO identity'', db)
         else case fetch_user x uid s of
                None \<Rightarrow> (Refused 404 ''User not found'', db)
              | Some u \<Rightarrow>
                  if \<not> outranks x s caller_role (au_role u)
                  then (Refused 403 ''Cannot unlink the SSO identity of a user with an equal or higher-privilege role'', db)
                  else if au_oidc_sub u = None \<and> au_oidc_provider u = None
                  then (Refused 400 ''User is not linked to an SSO identity'', db)
                  else if au_role u = ''superadmin'' \<and> ax_trust_email x
                  then (Refused 400 ''Cannot unlink a superadmin while SSO trusts unverified email addresses. Turn off Trust unverified email (OIDC_TRUST_UNVERIFIED_EMAIL) first'', db)
                  else case clear_oidc_link x uid db of
                         None \<Rightarrow> (Refused 500 ''Failed to unlink SSO identity'', db)
                       | Some db' \<Rightarrow> (Accepted, db'))"

definition can_reset_tfa_of :: "'r admin_env \<Rightarrow> 'r admin_state \<Rightarrow> auth_user \<Rightarrow> auth_user \<Rightarrow> bool" where
  "can_reset_tfa_of x s actor target \<longleftrightarrow>
     au_id actor \<noteq> au_id target \<and> outranks x s (au_role actor) (au_role target)"

text \<open>A user part-way through a two-factor reset needs a caller that could reset it.\<close>

definition reset_in_progress_refused :: "'r admin_env \<Rightarrow> string \<Rightarrow> auth_user \<Rightarrow> 'r admin_state \<Rightarrow> bool" where
  "reset_in_progress_refused x caller u s \<longleftrightarrow>
     (au_enrol_required u \<or> au_change_required u)
     \<and> (case fetch_caller x caller s of None \<Rightarrow> True | Some c \<Rightarrow> \<not> can_reset_tfa_of x s c u)"

definition reset_password ::
  "'r admin_env \<Rightarrow> string \<Rightarrow> string \<Rightarrow> string \<Rightarrow> string \<Rightarrow> 'r admin_state \<Rightarrow> auth_response \<times> auth_db" where
  "reset_password x caller caller_role uid new s =
     (let db = as_db s; pw = trim_space new
      in if pw = [] then (Refused 400 ''New password is required'', db)
         else case fetch_user x uid s of
                None \<Rightarrow> (Refused 404 ''User not found'', db)
              | Some u \<Rightarrow>
                  if \<not> au_active u then (Refused 400 ''Cannot reset password for inactive user'', db)
                  else if \<not> covers x s caller_role (au_role u)
                  then (Refused 403 ''Cannot reset password for a user with a higher-privilege role'', db)
                  else if superuser_refused x s caller_role u
                  then (Refused 403 ''You do not have permission to reset superadmin passwords'', db)
                  else if reset_in_progress_refused x caller u s
                  then (Refused 403 ''This user is part-way through a two-factor reset. Only a superadmin or a user with a higher role can reset their password now.'', db)
                  else case ae_policy (ax_auth x) pw of
                         Some msg \<Rightarrow> (Refused 400 msg, db)
                       | None \<Rightarrow>
                           (case ae_new_hash (ax_auth x) pw of
                              None \<Rightarrow> (Refused 500 ''Failed to hash password'', db)
                            | Some h \<Rightarrow>
                                (case update_password (ax_auth x) uid h db of
                                   None \<Rightarrow> (Refused 500 ''Failed to reset password'', db)
                                 | Some db1 \<Rightarrow>
                                     let db2 = snd (revoke_all_sessions (ax_auth x) uid [] db1)
                                     in (Accepted, if ae_has_devices (ax_auth x) then snd (revoke_all_devices (ax_auth x) uid db2) else db2))))"

record reset_tfa_request =
  rt_password :: string
  rt_token :: string
  rt_new_password :: string

text \<open>\<open>verifyActorTfa\<close>: \<open>None\<close> when the code is accepted.\<close>

definition verify_actor_tfa ::
  "'r admin_env \<Rightarrow> auth_user \<Rightarrow> string \<Rightarrow> 'r auth_state \<Rightarrow> (nat \<times> string) option \<times> 'r auth_state" where
  "verify_actor_tfa x actor raw s =
     (let e = ax_auth x; too_many = Some (429, ''Too many failed two-factor attempts. Please try again later.'')
      in if ae_tfa_store e \<noteq> None \<and> fst (is_locked (ae_rdb e) (ae_now e) (tfa_lock_key e (au_id actor)) (snd s)) then (too_many, s)
         else if trim_space raw = [] then (Some (403, ''Your two-factor code is required to confirm this action''), s)
         else case verify_tfa_code e actor raw s of
                (None, s') \<Rightarrow> (Some (500, ''Failed to verify two-factor code''), s')
              | (Some False, (db, r)) \<Rightarrow>
                  (case ae_tfa_store e of
                     None \<Rightarrow> (Some (403, ''Your two-factor code is incorrect''), (db, r))
                   | Some own \<Rightarrow>
                       (case record_failed_tfa (ae_rdb e) (ae_now e) (effective_limits (ae_tfa_resolved e) own) (ae_stamp e)
                               (ae_host e) (au_id actor) r of
                          ((_, locked), r') \<Rightarrow>
                            (if locked then too_many else Some (403, ''Your two-factor code is incorrect''), (db, r'))))
              | (Some True, (db, r)) \<Rightarrow>
                  (None, (db, case ae_tfa_store e of
                                None \<Rightarrow> r
                              | Some _ \<Rightarrow> clear_failed_tfa (ae_rdb e) (ae_now e) (ae_host e) (au_id actor) r)))"

text \<open>\<open>ClearLockout\<close> deletes the counter and the lock.\<close>

definition clear_tfa_lockout :: "'r auth_env \<Rightarrow> string \<Rightarrow> 'r \<Rightarrow> 'r" where
  "clear_tfa_lockout e uid r =
     (case (ae_tfa_store e, ae_rdb e) of
        (Some _, Some rd) \<Rightarrow>
          r_del rd (ae_now e) (tfa_lock_key e uid) (r_del rd (ae_now e) (tenant_key (ae_host e) (tfa_failed_prefix @ uid)) r)
      | _ \<Rightarrow> r)"

text \<open>Once the caller has proven who it is: the target, and the reset.\<close>

definition temporary_password :: "'r admin_env \<Rightarrow> string \<Rightarrow> auth_user \<Rightarrow> (nat \<times> string) + string option" where
  "temporary_password x new target =
     (if new = [] then Inr None
      else if au_hash target = None
      then Inl (400, ''This account has no local password because it signs in through single sign-on'')
      else case ae_policy (ax_auth x) new of
             Some msg \<Rightarrow> Inl (400, msg)
           | None \<Rightarrow> (case ae_new_hash (ax_auth x) new of
                        None \<Rightarrow> Inl (500, ''Failed to reset two-factor authentication'')
                      | Some h \<Rightarrow> Inr (Some h)))"

definition reset_tfa_target ::
  "'r admin_env \<Rightarrow> auth_user \<Rightarrow> string \<Rightarrow> string \<Rightarrow> 'r admin_state \<Rightarrow> auth_response \<times> 'r admin_state" where
  "reset_tfa_target x actor uid new s =
     (if ae_fails (ax_auth x) QGetUser then (Refused 500 ''Failed to reset two-factor authentication'', s)
      else case find_user uid (ad_users (as_db s)) of
             None \<Rightarrow> (Refused 404 ''User not found'', s)
           | Some target \<Rightarrow>
               if \<not> can_reset_tfa_of x s actor target
               then (Refused 403 ''Cannot reset two-factor authentication for a user with an equal or higher-privilege role'', s)
               else if \<not> au_tfa target then (Refused 400 ''Two-factor authentication is not enabled for this user'', s)
               else case temporary_password x new target of
                      Inl (code, msg) \<Rightarrow> (Refused code msg, s)
                    | Inr temp \<Rightarrow>
                        (case admin_reset_tfa x uid temp (as_db s) of
                           None \<Rightarrow> (Refused 500 ''Failed to reset two-factor authentication'', s)
                         | Some (False, db) \<Rightarrow> (Refused 400 ''Two-factor authentication is not enabled for this user'', s\<lparr>as_db := db\<rparr>)
                         | Some (True, db) \<Rightarrow>
                             (Accepted, s\<lparr>as_db := db, as_redis := clear_tfa_lockout (ax_auth x) uid (as_redis s)\<rparr>)))"

definition reset_tfa ::
  "'r admin_env \<Rightarrow> string \<Rightarrow> string \<Rightarrow> reset_tfa_request option \<Rightarrow> 'r admin_state \<Rightarrow> auth_response \<times> 'r admin_state" where
  "reset_tfa x caller uid body s =
     (if caller = [] then (Refused 401 ''Unauthorized'', s)
      else if uid = [] then (Refused 400 ''User ID required'', s)
      else if uid = caller then (Refused 400 ''Use your profile to manage your own two-factor authentication'', s)
      else case body of
             None \<Rightarrow> (Refused 400 ''Invalid request body'', s)
           | Some req \<Rightarrow>
               let pw = trim_space (rt_password req); new = trim_space (rt_new_password req)
               in if pw = [] then (Refused 400 ''Your password is required to confirm this action'', s)
                  else case fetch_caller x caller s of
                         None \<Rightarrow> (Refused 401 ''Unauthorized'', s)
                       | Some actor \<Rightarrow>
                           if \<not> au_active actor then (Refused 401 ''Unauthorized'', s)
                           else case au_hash actor of
                                  None \<Rightarrow> (Refused 403 ''Resetting two-factor authentication requires an account with a local password'', s)
                                | Some stored \<Rightarrow>
                                    if \<not> ae_hash_ok (ax_auth x) (trim_space stored) pw then (Refused 403 ''Your password is incorrect'', s)
                                    else if \<not> au_tfa actor then reset_tfa_target x actor uid new s
                                    else (case verify_actor_tfa x actor (rt_token req) (as_db s, as_redis s) of
                                            (Some (code, msg), (db, r)) \<Rightarrow> (Refused code msg, s\<lparr>as_db := db, as_redis := r\<rparr>)
                                          | (None, (db, r)) \<Rightarrow> reset_tfa_target x actor uid new (s\<lparr>as_db := db, as_redis := r\<rparr>)))"

section \<open>Roles\<close>

definition update_role ::
  "'r admin_env \<Rightarrow> string \<Rightarrow> string \<Rightarrow> (permission \<Rightarrow> bool) option \<Rightarrow> 'r admin_state \<Rightarrow> auth_response \<times> role_permission list" where
  "update_role x caller_role role body s =
     (let roles = as_roles s; fails = ax_role_fails x
      in if role = [] then (Refused 400 ''Role is required'', roles)
         else if role \<in> set immutable_roles then (Refused 400 ''Cannot modify built-in role permissions'', roles)
         else case body of
                None \<Rightarrow> (Refused 400 ''Invalid request body'', roles)
              | Some grants \<Rightarrow>
                  if \<not> covers x s caller_role role
                  then (Refused 403 ''Cannot modify a role that holds permissions you do not have'', roles)
                  else (case (if caller_role = ''superadmin'' then None
                              else case get_by_role fails HolderSite caller_role roles of
                                     Role c \<Rightarrow>
                                       (case missing_permissions (ro_grants c) grants of
                                          [] \<Rightarrow> None
                                        | missing \<Rightarrow> Some (''You cannot grant permissions you do not hold: '' @ comma_list missing))
                                   | _ \<Rightarrow> Some ''Insufficient permissions'') of
                          Some msg \<Rightarrow> (Refused 403 msg, roles)
                        | None \<Rightarrow>
                            if ax_fails x QUpsertRole then (Refused 500 ''Failed to update role permissions'', roles)
                            else (Accepted, upsert_role (ax_new_role x) role grants roles)))"

definition delete_role ::
  "'r admin_env \<Rightarrow> string \<Rightarrow> string \<Rightarrow> 'r admin_state \<Rightarrow> auth_response \<times> role_permission list" where
  "delete_role x caller_role role s =
     (let roles = as_roles s;
          users = (if ax_fails x QCountRole then 0 else length (filter (\<lambda>u. au_role u = role) (ad_users (as_db s))))
      in if role = [] then (Refused 400 ''Role is required'', roles)
         else if role \<in> set built_in_roles then (Refused 400 ''Cannot delete built-in role'', roles)
         else if \<not> covers x s caller_role role
         then (Refused 403 ''Cannot delete a role that holds permissions you do not have'', roles)
         else if users > 0 then (Refused 400 ''Cannot delete role: users are assigned to it'', roles)
         else if ax_fails x QDeleteRole then (Refused 500 ''Failed to delete role'', roles)
         else (Accepted, delete_role_row role roles))"

section \<open>The requests\<close>

datatype admin_op =
    CreateUser "create_request option"
  | UpdateUser string "update_request option"
  | DeleteUser string
  | UnlinkOidc string
  | ResetPassword string "string option"
  | ResetTfa string "reset_tfa_request option"
  | UpdateRole string "(permission \<Rightarrow> bool) option"
  | DeleteRole string

text \<open>The permission a route asks for, and whether it belongs to the custom roles module.\<close>

fun op_permission :: "admin_op \<Rightarrow> string" where
  "op_permission (UpdateRole role grants) = ''can_manage_settings''"
| "op_permission (DeleteRole role) = ''can_manage_settings''"
| "op_permission _ = ''can_manage_users''"

fun role_op :: "admin_op \<Rightarrow> bool" where
  "role_op (UpdateRole role grants) = True"
| "role_op (DeleteRole role) = True"
| "role_op _ = False"

definition on_db :: "'r admin_state \<Rightarrow> auth_response \<times> auth_db \<Rightarrow> auth_response \<times> 'r admin_state" where
  "on_db s out = (fst out, s\<lparr>as_db := snd out\<rparr>)"

definition on_roles :: "'r admin_state \<Rightarrow> auth_response \<times> role_permission list \<Rightarrow> auth_response \<times> 'r admin_state" where
  "on_roles s out = (fst out, s\<lparr>as_roles := snd out\<rparr>)"

fun admin_handler :: "'r admin_env \<Rightarrow> string \<Rightarrow> string \<Rightarrow> admin_op \<Rightarrow> 'r admin_state \<Rightarrow> auth_response \<times> 'r admin_state" where
  "admin_handler x caller role (CreateUser body) s =
     (case body of None \<Rightarrow> (Refused 400 ''Invalid request body'', s) | Some req \<Rightarrow> on_db s (create_user x role req s))"
| "admin_handler x caller role (UpdateUser uid body) s = on_db s (update_user x caller role uid body s)"
| "admin_handler x caller role (DeleteUser uid) s = on_db s (delete_user x caller role uid s)"
| "admin_handler x caller role (UnlinkOidc uid) s = on_db s (unlink_oidc x caller role uid s)"
| "admin_handler x caller role (ResetPassword uid body) s =
     (case body of None \<Rightarrow> (Refused 400 ''Invalid request body'', s) | Some new \<Rightarrow> on_db s (reset_password x caller role uid new s))"
| "admin_handler x caller role (ResetTfa uid body) s = reset_tfa x caller uid body s"
| "admin_handler x caller role (UpdateRole name body) s = on_roles s (update_role x role name body s)"
| "admin_handler x caller role (DeleteRole name) s = on_roles s (delete_role x role name s)"

definition admin_request ::
  "'r admin_env \<Rightarrow> string \<Rightarrow> string \<Rightarrow> admin_op \<Rightarrow> 'r admin_state \<Rightarrow> auth_response \<times> 'r admin_state" where
  "admin_request x caller role op s =
     (case require_any_permission (ax_role_fails x) [op_permission op] role (as_roles s) of
        Some (code, msg) \<Rightarrow> (Refused code msg, s)
      | None \<Rightarrow>
          if role_op op \<and> \<not> ax_custom_roles x then (Refused 403 ''module not available in your plan'', s)
          else admin_handler x caller role op s)"

end
