(* ===== verification/AdminSafety.thy ===== *)
theory AdminSafety
  imports UserAdmin AuthSafety
begin

text \<open>
  Administration does not escalate: whatever a group of users does through the administrative requests, it
  never hands anyone a permission the group did not have, nor makes an administrator; and only accounts the
  caller's role covers can be changed.
\<close>

section \<open>What a role grants\<close>

definition role_row :: "role_permission list \<Rightarrow> string \<Rightarrow> role_permission option" where
  "role_row roles r = find (\<lambda>p. ro_role p = r) roles"

definition granted :: "role_permission list \<Rightarrow> string \<Rightarrow> permission list" where
  "granted roles r = (case role_row roles r of None \<Rightarrow> [] | Some p \<Rightarrow> filter (ro_grants p) all_permissions)"

lemma all_permissions_complete: "q \<in> set all_permissions"
  by (cases q) (simp_all add: all_permissions_def)

lemma in_granted: "q \<in> set (granted roles r) \<longleftrightarrow> (\<exists>p. role_row roles r = Some p \<and> ro_grants p q)"
  by (cases "role_row roles r") (simp_all add: granted_def all_permissions_complete)

lemma get_role_Role: "get_by_role fails site r roles = Role p \<Longrightarrow> role_row roles r = Some p"
  by (simp add: get_by_role_def role_row_def split: if_splits option.splits)

lemma get_role_None: "get_by_role fails site r roles = NoRole \<Longrightarrow> role_row roles r = None"
  by (simp add: get_by_role_def role_row_def split: if_splits option.splits)

lemma missing_none: "missing_permissions h t = [] \<longleftrightarrow> (\<forall>q. t q \<longrightarrow> h q)"
  by (auto simp: missing_permissions_def filter_empty_conv all_permissions_complete)

lemma covers_granted:
  assumes "role_covers fails roles c t" and "c \<noteq> ''superadmin''"
  shows "set (granted roles t) \<subseteq> set (granted roles c)"
proof -
  obtain p where p: "get_by_role fails CallerSite c roles = Role p"
    using assms by (auto simp: role_covers_def role_covers_at_def split: role_lookup.splits)
  show ?thesis
  proof (cases "get_by_role fails TargetSite t roles")
    case (Role q)
    then have "missing_permissions (ro_grants p) (ro_grants q) = []"
      using assms p by (simp add: role_covers_def role_covers_at_def)
    then show ?thesis using get_role_Role [OF p] get_role_Role [OF Role] by (auto simp: in_granted missing_none)
  next
    case NoRole
    then show ?thesis using get_role_None by (auto simp: in_granted)
  next
    case RoleError
    then show ?thesis using assms p by (simp add: role_covers_def role_covers_at_def)
  qed
qed

lemma outranks_covers: "role_outranks fails roles c t \<Longrightarrow> c \<noteq> ''superadmin'' \<Longrightarrow> role_covers fails roles c t"
  by (simp add: role_outranks_def)

text \<open>A role that may be given away grants no more than the giver's, and is not the administrator's.\<close>

lemma grant_granted:
  assumes "can_grant_role fails roles c t" and "c \<noteq> ''superadmin''" and "trim_space t = t"
  shows "set (granted roles t) \<subseteq> set (granted roles c) \<and> t \<noteq> ''admin'' \<and> t \<noteq> []"
proof -
  have "role_covers fails roles c t" "t \<noteq> ''admin''" "t \<noteq> []"
    using assms by (auto simp: can_grant_role_def Let_def split: role_lookup.splits if_splits)
  then show ?thesis using covers_granted assms(2) by blast
qed

section \<open>What the handlers do to users\<close>

text \<open>The roles of the accounts, by id.\<close>

definition role_of :: "auth_db \<Rightarrow> (string \<times> string) list" where
  "role_of db = map (\<lambda>u. (au_id u, au_role u)) (ad_users db)"

lemma role_of_mem: "(i, r) \<in> set (role_of db) \<longleftrightarrow> (\<exists>u\<in>set (ad_users db). au_id u = i \<and> au_role u = r)"
  by (auto simp: role_of_def)

lemma role_of_change:
  "(\<And>u. p u \<Longrightarrow> au_id (f u) = au_id u \<and> au_role (f u) = au_role u) \<Longrightarrow> role_of (change_users p f db) = role_of db"
  by (simp add: role_of_def change_users_def map_update_where)

lemma role_of_other [simp]:
  "role_of (change_sessions p f db) = role_of db" "role_of (change_devices p' f' db) = role_of db"
  by (simp_all add: role_of_def change_sessions_def change_devices_def)

lemma role_of_revocations [simp]:
  "role_of (snd (revoke_all_sessions e uid ex db)) = role_of db"
  "role_of (snd (revoke_all_devices e uid db)) = role_of db"
  by (simp_all add: revoke_all_sessions_def revoke_all_devices_def)

lemma role_of_after_update [simp]: "role_of (after_update x u u' db) = role_of db"
  by (simp add: after_update_def Let_def)

definition races_keep_roles :: "'r admin_env \<Rightarrow> bool" where
  "races_keep_roles x \<longleftrightarrow> (\<forall>n us. map (\<lambda>u. (au_id u, au_role u)) (ae_race (ax_auth x) n us) = map (\<lambda>u. (au_id u, au_role u)) us)"

lemma role_of_backup_codes:
  assumes "races_keep_roles x"
  shows "role_of (snd (try_backup_codes n (ax_auth x) uid token codes db)) = role_of db"
proof (induction n arbitrary: codes db)
  case (Suc n)
  have raced: "role_of (db\<lparr>ad_users := ae_race (ax_auth x) n (ad_users db)\<rparr>) = role_of db" for db
    using assms by (simp add: races_keep_roles_def role_of_def)
  have consumed: "consume_backup_code (ax_auth x) uid old new db = Some (ok, db') \<Longrightarrow> role_of db' = role_of db" for old new db ok db'
    by (auto simp: consume_backup_code_def Let_def role_of_change split: if_splits)
  show ?case using Suc raced
    by (auto simp: Let_def dest!: consumed split: option.split prod.split bool.split)
qed simp

lemma role_of_verify_code:
  assumes "races_keep_roles x"
  shows "role_of (fst (snd (verify_tfa_code (ax_auth x) u raw s))) = role_of (fst s)"
  by (auto simp: verify_tfa_code_def Let_def case_prod_beta role_of_backup_codes [OF assms] split: option.split)

lemma role_of_verify_actor:
  assumes "races_keep_roles x"
  shows "role_of (fst (snd (verify_actor_tfa x actor raw s))) = role_of (fst s)"
proof -
  obtain ok db r where v: "verify_tfa_code (ax_auth x) actor raw s = (ok, (db, r))" by (metis prod.exhaust)
  have "role_of db = role_of (fst s)" using role_of_verify_code [OF assms, of actor raw s] v by simp
  then show ?thesis by (auto simp: verify_actor_tfa_def Let_def v case_prod_beta split: option.split bool.split)
qed

lemma role_of_admin_reset: "admin_reset_tfa x uid temp db = Some (ok, db') \<Longrightarrow> role_of db' = role_of db"
  by (auto simp: admin_reset_tfa_def Let_def reset_user_tfa_def set_temporary_password_def role_of_change
      split: if_splits option.splits)

lemma role_of_reset_target: "role_of (as_db (snd (reset_tfa_target x actor uid new s))) = role_of (as_db s)"
  by (auto simp: reset_tfa_target_def dest: role_of_admin_reset split: option.split sum.split bool.split)

lemma role_of_reset_tfa:
  assumes "races_keep_roles x"
  shows "role_of (as_db (snd (reset_tfa x caller uid body s))) = role_of (as_db s)"
  using role_of_verify_actor [OF assms, of _ _ "(as_db s, as_redis s)"]
  by (auto simp: reset_tfa_def Let_def case_prod_beta role_of_reset_target split: option.split)

lemma role_of_reset_password: "role_of (snd (reset_password x caller role uid new s)) = role_of (as_db s)"
  by (auto simp: reset_password_def Let_def update_password_def role_of_change split: option.split)

lemma role_of_unlink: "role_of (snd (unlink_oidc x caller role uid s)) = role_of (as_db s)"
  by (auto simp: unlink_oidc_def Let_def clear_oidc_link_def role_of_change split: option.split)

lemma role_of_delete: "set (role_of (snd (delete_user x caller role uid s))) \<subseteq> set (role_of (as_db s))"
  by (auto simp: delete_user_def Let_def delete_user_row_def role_of_def split: option.split)

lemma role_of_create:
  assumes "trim_space (default_role x) = default_role x"
  shows "set (role_of (snd (create_user x caller_role req s))) \<subseteq> set (role_of (as_db s))
     \<or> (\<exists>r. may_grant x s caller_role r \<and> trim_space r = r
          \<and> role_of (snd (create_user x caller_role req s)) = role_of (as_db s) @ [(ax_new_user x, r)])"
  using assms
  by (auto simp: create_user_def Let_def insert_user_def role_of_def new_user_def split: option.split)

lemma refused_role_change:
  assumes "role_change_refused x caller u role s = None"
  shows "role = au_role u \<or> may_grant x s (assigner_role x caller s) role"
  using assms by (simp add: role_change_refused_def split: if_splits)

text \<open>An update leaves the tables alone, or stores what was allowed and ends what must end.\<close>

lemma update_user_cases:
  obtains "snd (update_user x caller caller_role uid body s) = as_db s"
  | u req db' where "fetch_user x uid s = Some u" and "body = Some req"
      and "covers x s caller_role (au_role u)"
      and "(case up_role req of None \<Rightarrow> None | Some role \<Rightarrow> role_change_refused x caller u (trim_space role) s) = None"
      and "update_user_row x (updated_user req u) (as_db s) = Some db'"
      and "snd (update_user x caller caller_role uid body s) = after_update x u (updated_user req u) db'"
proof (cases "fetch_user x uid s")
  case None
  show thesis by (rule that(1)) (simp add: update_user_def Let_def None)
next
  case u: (Some u)
  show thesis
  proof (cases body)
    case None
    show thesis by (rule that(1)) (simp add: update_user_def Let_def None u)
  next
    case (Some req)
    let ?refused = "case up_role req of None \<Rightarrow> None | Some role \<Rightarrow> role_change_refused x caller u (trim_space role) s"
    let ?taken = "\<not> ax_fails x QExists \<and> name_taken (au_username (updated_user req u)) (au_email (updated_user req u)) uid (as_db s)"
    show thesis
    proof (cases "uid = [] \<or> \<not> covers x s caller_role (au_role u) \<or> superuser_refused x s caller_role u
        \<or> ?refused \<noteq> None \<or> ?taken \<or> update_user_row x (updated_user req u) (as_db s) = None")
      case True
      show thesis
        by (rule that(1)) (use True in \<open>auto simp: update_user_def Let_def u Some split: option.split\<close>)
    next
      case False
      then obtain db' where w: "update_user_row x (updated_user req u) (as_db s) = Some db'" by blast
      have c: "covers x s caller_role (au_role u)" and ok: "?refused = None" using False by blast+
      have "snd (update_user x caller caller_role uid body s) = after_update x u (updated_user req u) db'"
        unfolding update_user_def Let_def u Some option.simps ok w using False by auto
      then show thesis by (rule that(2) [OF u Some c ok w])
    qed
  qed
qed

lemma role_of_update:
  assumes "(i, r) \<in> set (role_of (snd (update_user x caller caller_role uid body s)))"
  shows "(i, r) \<in> set (role_of (as_db s)) \<or> (may_grant x s (assigner_role x caller s) r \<and> trim_space r = r)"
proof (rule update_user_cases [of x caller caller_role uid body s])
  fix u req db'
  assume u: "fetch_user x uid s = Some u"
    and ok: "(case up_role req of None \<Rightarrow> None | Some role \<Rightarrow> role_change_refused x caller u (trim_space role) s) = None"
    and w: "update_user_row x (updated_user req u) (as_db s) = Some db'"
    and out: "snd (update_user x caller caller_role uid body s) = after_update x u (updated_user req u) db'"
  have mem: "u \<in> set (ad_users (as_db s))" using u by (auto simp: fetch_user_def get_user_def split: if_splits dest: find_user_id)
  have new: "au_role (updated_user req u) = au_role u
      \<or> (may_grant x s (assigner_role x caller s) (au_role (updated_user req u)) \<and> trim_space (au_role (updated_user req u)) = au_role (updated_user req u))"
    using ok by (cases "up_role req") (auto simp: updated_user_def with_default_def dest: refused_role_change)
  have "(i, r) \<in> set (role_of db')" using assms out by simp
  then have "(i, r) \<in> set (role_of (as_db s)) \<or> (i = au_id (updated_user req u) \<and> r = au_role (updated_user req u))"
    using w by (auto simp: update_user_row_def change_users_def role_of_mem in_update_where split: if_splits)
  moreover have "au_id (updated_user req u) = au_id u" by (simp add: updated_user_def)
  ultimately show ?thesis using new mem by (auto simp: role_of_mem)
next
  assume "snd (update_user x caller caller_role uid body s) = as_db s"
  then show ?thesis using assms by simp
qed

text \<open>Only the two role requests touch the roles.\<close>

lemma reset_tfa_roles: "as_roles (snd (reset_tfa x caller uid body s)) = as_roles s"
proof -
  have "as_roles (snd (reset_tfa_target x actor uid new t)) = as_roles t" for actor new t
    by (simp add: reset_tfa_target_def split: option.split sum.split prod.split bool.split)
  then show ?thesis by (simp add: reset_tfa_def Let_def case_prod_beta split: option.split)
qed

lemma user_op_roles: "\<not> role_op op \<Longrightarrow> as_roles (snd (admin_handler x caller role op s)) = as_roles s"
  by (cases op) (simp_all add: on_db_def reset_tfa_roles split: option.split)

lemma role_op_users: "role_op op \<Longrightarrow> as_db (snd (admin_handler x caller role op s)) = as_db s"
  by (cases op) (simp_all add: on_roles_def)

text \<open>An account's role afterwards: one it had, or one the caller was entitled to give.\<close>

lemma handler_user_roles:
  assumes "(i, r) \<in> set (role_of (as_db (snd (admin_handler x caller role op s))))"
    and "races_keep_roles x" and "trim_space (default_role x) = default_role x"
  shows "(i, r) \<in> set (role_of (as_db s))
     \<or> (\<exists>c. (c = role \<or> c = assigner_role x caller s) \<and> may_grant x s c r \<and> trim_space r = r)"
proof (cases op)
  case (CreateUser body)
  show ?thesis
  proof (cases body)
    case None
    then show ?thesis using assms(1) CreateUser by simp
  next
    case (Some req)
    then show ?thesis
      using assms(1) CreateUser role_of_create [OF assms(3), of role req s] by (auto simp: on_db_def)
  qed
next
  case (UpdateUser uid body)
  then show ?thesis using assms(1) role_of_update [of i r x caller role uid body s] by (auto simp: on_db_def)
next
  case (DeleteUser uid)
  then show ?thesis using assms(1) role_of_delete [of x caller role uid s] by (auto simp: on_db_def)
next
  case (UnlinkOidc uid)
  then show ?thesis using assms(1) by (simp add: on_db_def role_of_unlink)
next
  case (ResetPassword uid body)
  then show ?thesis using assms(1) by (cases body) (simp_all add: on_db_def role_of_reset_password)
next
  case (ResetTfa uid body)
  then show ?thesis using assms(1) by (simp add: role_of_reset_tfa [OF assms(2)])
qed (use assms(1) role_op_users [of op x caller role s] in simp_all)

section \<open>What the handlers do to roles\<close>

lemma find_filter_other: "q \<noteq> r \<Longrightarrow> find (\<lambda>p. ro_role p = r) (filter (\<lambda>p. ro_role p \<noteq> q) ps) = find (\<lambda>p. ro_role p = r) ps"
  by (induction ps) auto

lemma find_filter_same: "find (\<lambda>p. ro_role p = r) (filter (\<lambda>p. ro_role p \<noteq> r) ps) = None"
  by (induction ps) auto

lemma role_row_delete: "role_row (delete_role_row q roles) r = (if r = q then None else role_row roles r)"
  by (simp add: role_row_def delete_role_row_def find_filter_other find_filter_same)

lemma find_update_other:
  "q \<noteq> r \<Longrightarrow> find (\<lambda>p. ro_role p = r) (update_where (\<lambda>p. ro_role p = q) (\<lambda>p. p\<lparr>ro_grants := g\<rparr>) ps) = find (\<lambda>p. ro_role p = r) ps"
  by (induction ps) auto

lemma find_update_same:
  "find (\<lambda>p. ro_role p = r) (update_where (\<lambda>p. ro_role p = r) (\<lambda>p. p\<lparr>ro_grants := g\<rparr>) ps)
     = map_option (\<lambda>p. p\<lparr>ro_grants := g\<rparr>) (find (\<lambda>p. ro_role p = r) ps)"
  by (induction ps) auto

lemma find_append: "find P (xs @ ys) = (case find P xs of None \<Rightarrow> find P ys | Some x \<Rightarrow> Some x)"
  by (induction xs) auto

lemma role_row_upsert_other: "r \<noteq> q \<Longrightarrow> role_row (upsert_role i q g roles) r = role_row roles r"
  by (auto simp: role_row_def upsert_role_def find_update_other find_append split: option.split)

lemma find_None_ex: "\<not> list_ex P xs \<Longrightarrow> find P xs = None"
  by (induction xs) auto

lemma granted_upsert_same: "set (granted (upsert_role i q g roles) q) \<subseteq> {p. g p}"
  by (auto simp: in_granted role_row_def upsert_role_def find_update_same find_append find_None_ex split: if_splits)

lemma update_role_grants:
  assumes "c \<noteq> ''superadmin''"
  shows "set (granted (snd (update_role x c name body s)) r) \<subseteq> set (granted (as_roles s) r) \<union> set (granted (as_roles s) c)
     \<and> (r = ''superadmin'' \<or> r = [] \<longrightarrow> role_row (snd (update_role x c name body s)) r = role_row (as_roles s) r)"
proof (cases "snd (update_role x c name body s) = as_roles s")
  case False
  then obtain g p where name: "name \<noteq> []" "name \<notin> set immutable_roles"
    and p: "get_by_role (ax_role_fails x) HolderSite c (as_roles s) = Role p" "missing_permissions (ro_grants p) g = []"
    and out: "snd (update_role x c name body s) = upsert_role (ax_new_role x) name g (as_roles s)"
    using assms by (auto simp: update_role_def Let_def split: if_splits option.splits role_lookup.splits list.splits)
  have held: "{q. g q} \<subseteq> set (granted (as_roles s) c)"
    using p get_role_Role [OF p(1)] by (auto simp: in_granted missing_none)
  show ?thesis
  proof (cases "r = name")
    case True
    then show ?thesis using granted_upsert_same [of "ax_new_role x" name g "as_roles s"] held name
      by (auto simp: out immutable_roles_def)
  next
    case False
    then show ?thesis by (simp add: out granted_def role_row_upsert_other)
  qed
qed simp

lemma delete_role_grants:
  "set (granted (snd (delete_role x c name s)) r) \<subseteq> set (granted (as_roles s) r)
     \<and> (r = ''superadmin'' \<or> r = [] \<longrightarrow> role_row (snd (delete_role x c name s)) r = role_row (as_roles s) r)"
  by (auto simp: delete_role_def Let_def in_granted role_row_delete built_in_roles_def split: if_splits)

lemma handler_grants:
  assumes "c \<noteq> ''superadmin''"
  shows "set (granted (as_roles (snd (admin_handler x caller c op s))) r) \<subseteq> set (granted (as_roles s) r) \<union> set (granted (as_roles s) c)
     \<and> (r = ''superadmin'' \<or> r = [] \<longrightarrow> role_row (as_roles (snd (admin_handler x caller c op s))) r = role_row (as_roles s) r)"
proof (cases "role_op op")
  case True
  show ?thesis
  proof (cases op)
    case (UpdateRole name body)
    then show ?thesis using update_role_grants [OF assms, of x name body s r] by (simp add: on_roles_def)
  next
    case (DeleteRole name)
    then show ?thesis using delete_role_grants [of x c name s r] by (auto simp: on_roles_def)
  qed (use True in simp_all)
next
  case False
  then show ?thesis by (simp add: user_op_roles)
qed

section \<open>No escalation\<close>

text \<open>A request of a group whose roles granted at most \<open>P\<close> when it began, none of them a superadmin.\<close>

definition within_group :: "'r admin_state \<Rightarrow> permission list \<Rightarrow> 'r admin_env \<times> string \<times> string \<times> admin_op \<Rightarrow> bool" where
  "within_group s0 P req \<longleftrightarrow>
     (case req of (x, caller, role, op) \<Rightarrow>
        role \<noteq> ''superadmin'' \<and> set (granted (as_roles s0) role) \<subseteq> set P
        \<and> list_all (\<lambda>u. au_id u = caller \<longrightarrow>
              au_role u \<noteq> ''superadmin'' \<and> set (granted (as_roles s0) (au_role u)) \<subseteq> set P) (ad_users (as_db s0))
        \<and> races_keep_roles x \<and> trim_space (default_role x) = default_role x)"

fun admin_run :: "('r admin_env \<times> string \<times> string \<times> admin_op) list \<Rightarrow> 'r admin_state \<Rightarrow> 'r admin_state" where
  "admin_run [] s = s"
| "admin_run ((x, caller, role, op) # reqs) s = admin_run reqs (snd (admin_request x caller role op s))"

text \<open>
  The invariant: no role grants more than at the start and \<open>P\<close>; every account has a role it had at the
  start, or one within \<open>P\<close> that is not an administrator's.
\<close>

definition contained :: "'r admin_state \<Rightarrow> permission list \<Rightarrow> 'r admin_state \<Rightarrow> bool" where
  "contained s0 P s \<longleftrightarrow>
     (\<forall>r. set (granted (as_roles s) r) \<subseteq> set (granted (as_roles s0) r) \<union> set P)
     \<and> (\<forall>(i, r)\<in>set (role_of (as_db s)). (i, r) \<in> set (role_of (as_db s0))
          \<or> (set (granted (as_roles s) r) \<subseteq> set P \<and> r \<noteq> ''admin'' \<and> r \<noteq> ''superadmin''))
     \<and> role_row (as_roles s) ''superadmin'' = role_row (as_roles s0) ''superadmin''
     \<and> role_row (as_roles s) [] = role_row (as_roles s0) []"

lemma containedD:
  assumes "contained s0 P s"
  shows "set (granted (as_roles s) r) \<subseteq> set (granted (as_roles s0) r) \<union> set P"
    and "(i, r) \<in> set (role_of (as_db s)) \<Longrightarrow> (i, r) \<in> set (role_of (as_db s0))
          \<or> (set (granted (as_roles s) r) \<subseteq> set P \<and> r \<noteq> ''admin'' \<and> r \<noteq> ''superadmin'')"
    and "role_row (as_roles s) ''superadmin'' = role_row (as_roles s0) ''superadmin''"
    and "role_row (as_roles s) [] = role_row (as_roles s0) []"
  using assms unfolding contained_def by blast+

text \<open>Neither the role of the token nor the stored role of a caller exceeds the group.\<close>

lemma caller_roles_contained:
  assumes inv: "contained s0 P s" and group: "within_group s0 P (x, caller, role, op)"
    and empty: "role_row (as_roles s0) [] = None" and c: "c = role \<or> c = assigner_role x caller s"
  shows "c \<noteq> ''superadmin'' \<and> set (granted (as_roles s) c) \<subseteq> set P"
proof (cases "c = role")
  case True
  then show ?thesis using group containedD(1) [OF inv, of role] by (auto simp: within_group_def)
next
  case False
  then have c: "c = assigner_role x caller s" using c by blast
  show ?thesis
  proof (cases "c = []")
    case True
    then show ?thesis using containedD(4) [OF inv] empty by (simp add: granted_def)
  next
    case False
    then obtain u where "find_user caller (ad_users (as_db s)) = Some u" and r: "c = au_role u"
      using c by (auto simp: assigner_role_def fetch_caller_def split: option.splits if_splits)
    then have "(caller, c) \<in> set (role_of (as_db s))" by (auto simp: role_of_mem dest: find_user_id)
    moreover have "c \<noteq> ''superadmin'' \<and> set (granted (as_roles s0) c) \<subseteq> set P" if "(caller, c) \<in> set (role_of (as_db s0))"
      using group that by (auto simp: within_group_def role_of_mem list_all_iff)
    ultimately show ?thesis using containedD(1,2) [OF inv] by blast
  qed
qed

lemma handler_contained:
  assumes inv: "contained s0 P s" and group: "within_group s0 P (x, caller, role, op)"
    and empty: "role_row (as_roles s0) [] = None" and above: "\<not> set (granted (as_roles s0) ''superadmin'') \<subseteq> set P"
  shows "contained s0 P (snd (admin_handler x caller role op s))"
proof -
  let ?s = "snd (admin_handler x caller role op s)"
  have token: "role \<noteq> ''superadmin''" "set (granted (as_roles s) role) \<subseteq> set P"
    using caller_roles_contained [OF inv group empty] by blast+
  note grants = handler_grants [OF token(1), of x caller op s]
  have roles: "set (granted (as_roles ?s) r) \<subseteq> set (granted (as_roles s) r) \<union> set P" for r
    using grants token(2) by blast
  have given: "set (granted (as_roles s) r) \<subseteq> set P \<and> r \<noteq> ''admin'' \<and> r \<noteq> ''superadmin''"
    if "may_grant x s c r" "trim_space r = r" "c = role \<or> c = assigner_role x caller s" for c r
  proof -
    have c: "c \<noteq> ''superadmin''" "set (granted (as_roles s) c) \<subseteq> set P"
      using caller_roles_contained [OF inv group empty that(3)] by blast+
    have g: "set (granted (as_roles s) r) \<subseteq> set P" "r \<noteq> ''admin''"
      using grant_granted [OF _ c(1) that(2)] that(1) c(2) by (auto simp: may_grant_def)
    moreover have "granted (as_roles s) ''superadmin'' = granted (as_roles s0) ''superadmin''"
      using containedD(3) [OF inv] by (simp add: granted_def)
    ultimately show ?thesis using above by metis
  qed
  have accounts: "(i, r) \<in> set (role_of (as_db s0)) \<or> (set (granted (as_roles ?s) r) \<subseteq> set P \<and> r \<noteq> ''admin'' \<and> r \<noteq> ''superadmin'')"
    if "(i, r) \<in> set (role_of (as_db ?s))" for i r
    using handler_user_roles [OF that] group given containedD(2) [OF inv, of i r] roles [of r]
    by (auto simp: within_group_def)
  have "set (granted (as_roles ?s) r) \<subseteq> set (granted (as_roles s0) r) \<union> set P" for r
    using roles [of r] containedD(1) [OF inv, of r] by blast
  moreover have "role_row (as_roles ?s) ''superadmin'' = role_row (as_roles s0) ''superadmin''"
    "role_row (as_roles ?s) [] = role_row (as_roles s0) []"
    using grants containedD(3,4) [OF inv] by simp_all
  ultimately show ?thesis using accounts unfolding contained_def by blast
qed

lemma request_contained:
  assumes "contained s0 P s" and "within_group s0 P (x, caller, role, op)"
    and "role_row (as_roles s0) [] = None" and "\<not> set (granted (as_roles s0) ''superadmin'') \<subseteq> set P"
  shows "contained s0 P (snd (admin_request x caller role op s))"
  using handler_contained [OF assms] assms(1) by (simp add: admin_request_def split: option.split)

lemma run_contained:
  assumes "contained s0 P s" and "list_all (within_group s0 P) reqs"
    and "role_row (as_roles s0) [] = None" and "\<not> set (granted (as_roles s0) ''superadmin'') \<subseteq> set P"
  shows "contained s0 P (admin_run reqs s)"
  using assms(1,2)
proof (induction reqs arbitrary: s)
  case (Cons req reqs)
  obtain x caller role op where req: "req = (x, caller, role, op)" by (cases req)
  show ?case using Cons.IH request_contained [OF Cons.prems(1) _ assms(3,4)] Cons.prems(2) by (simp add: req)
qed simp

text \<open>
  C16: consider requests of users none of whom is a superadmin and whose roles together grant at most the
  permissions \<open>P\<close>, which lack one of the superadmin role's.  Whatever they request, every account ends with a role it
  had, grown by no more than \<open>P\<close>, or with a role inside \<open>P\<close> that is neither admin nor superadmin.  Concurrent writes
  keep the roles of accounts, the configured default role has no blanks around it, and no role has the empty name.
  A group that holds everything the superadmin role grants is not confined: the code lets it grant that role.
\<close>

theorem no_privilege_escalation:
  assumes "list_all (within_group s0 P) reqs" and "role_row (as_roles s0) [] = None"
    and "\<not> set (granted (as_roles s0) ''superadmin'') \<subseteq> set P"
    and "u \<in> set (ad_users (as_db (admin_run reqs s0)))"
  shows "(\<exists>u0\<in>set (ad_users (as_db s0)). au_id u0 = au_id u \<and> au_role u0 = au_role u
            \<and> set (granted (as_roles (admin_run reqs s0)) (au_role u)) \<subseteq> set (granted (as_roles s0) (au_role u)) \<union> set P)
     \<or> (set (granted (as_roles (admin_run reqs s0)) (au_role u)) \<subseteq> set P \<and> au_role u \<noteq> ''admin'' \<and> au_role u \<noteq> ''superadmin'')"
proof -
  have "contained s0 P s0" by (auto simp: contained_def)
  then have inv: "contained s0 P (admin_run reqs s0)" using assms(1-3) by (rule run_contained)
  have "(au_id u, au_role u) \<in> set (role_of (as_db (admin_run reqs s0)))" using assms(4) by (auto simp: role_of_mem)
  then show ?thesis using containedD(2) [OF inv] containedD(1) [OF inv, of "au_role u"] by (auto simp: role_of_mem)
qed

section \<open>Only covered accounts change\<close>

text \<open>Every account but those with a given id is as before.\<close>

definition others_kept :: "string \<Rightarrow> auth_db \<Rightarrow> auth_db \<Rightarrow> bool" where
  "others_kept uid db db' \<longleftrightarrow> (\<forall>u\<in>set (ad_users db). au_id u \<noteq> uid \<longrightarrow> u \<in> set (ad_users db'))"

lemma others_kept_refl [simp]: "others_kept uid db db"
  by (simp add: others_kept_def)

lemma others_kept_trans: "others_kept uid a b \<Longrightarrow> others_kept uid b c \<Longrightarrow> others_kept uid a c"
  by (simp add: others_kept_def)

lemma others_kept_change: "(\<And>u. p u \<Longrightarrow> au_id u = uid) \<Longrightarrow> others_kept uid db (change_users p f db)"
  by (auto simp: others_kept_def change_users_def in_update_where)

lemma users_of_revocations [simp]:
  "ad_users (snd (revoke_all_sessions e uid ex db)) = ad_users db"
  "ad_users (snd (revoke_all_devices e uid db)) = ad_users db"
  by (simp_all add: revoke_all_sessions_def revoke_all_devices_def change_sessions_def change_devices_def)

lemma others_kept_users: "ad_users db'' = ad_users db' \<Longrightarrow> others_kept uid db db'' = others_kept uid db db'"
  by (simp add: others_kept_def)

text \<open>A handler on the accounts: nothing changes, or only an account the given role covers.\<close>

definition covered_change :: "'r admin_env \<Rightarrow> 'r admin_state \<Rightarrow> string \<Rightarrow> auth_db \<Rightarrow> bool" where
  "covered_change x s c db' \<longleftrightarrow>
     set (ad_users (as_db s)) \<subseteq> set (ad_users db')
     \<or> (\<exists>uid v. find_user uid (ad_users (as_db s)) = Some v \<and> others_kept uid (as_db s) db'
          \<and> (c = ''superadmin'' \<or> covers x s c (au_role v)))"

lemma covered_same: "ad_users db' = ad_users (as_db s) \<Longrightarrow> covered_change x s c db'"
  by (simp add: covered_change_def)

lemma covered_other:
  "fetch_user x uid s = Some v \<Longrightarrow> covers x s c (au_role v) \<Longrightarrow> others_kept uid (as_db s) db' \<Longrightarrow> covered_change x s c db'"
  by (auto simp: covered_change_def fetch_user_def get_user_def split: if_splits)

lemma outranks_cover: "outranks x s c r \<Longrightarrow> c = ''superadmin'' \<or> covers x s c r"
  by (simp add: outranks_def covers_def role_outranks_def split: if_splits)

lemma covers_superadmin [simp]: "covers x s ''superadmin'' r"
  by (simp add: covers_def role_covers_def role_covers_at_def)

lemma create_covered: "covered_change x s c (snd (create_user x role req s))"
  by (auto simp: create_user_def Let_def insert_user_def covered_change_def split: option.split)

lemma update_covered: "covered_change x s role (snd (update_user x caller role uid body s))"
proof (rule update_user_cases [of x caller role uid body s])
  fix u req db'
  assume u: "fetch_user x uid s = Some u" and c: "covers x s role (au_role u)"
    and w: "update_user_row x (updated_user req u) (as_db s) = Some db'"
    and out: "snd (update_user x caller role uid body s) = after_update x u (updated_user req u) db'"
  have "au_id (updated_user req u) = uid"
    using u by (auto simp: updated_user_def fetch_user_def get_user_def split: if_splits dest: find_user_id)
  then have "others_kept uid (as_db s) db'"
    using w by (auto simp: update_user_row_def others_kept_change split: if_splits)
  then have "others_kept uid (as_db s) (after_update x u (updated_user req u) db')"
    by (simp add: others_kept_def after_update_def Let_def)
  then show ?thesis unfolding out by (rule covered_other [OF u c])
qed (simp add: covered_same)

lemma delete_covered: "covered_change x s role (snd (delete_user x caller role uid s))"
proof (cases "fetch_user x uid s")
  case (Some u)
  have "others_kept uid (as_db s) db'" if "delete_user_row x uid (as_db s) = Some db'" for db'
    using that by (auto simp: delete_user_row_def others_kept_def split: if_splits)
  then show ?thesis
    by (auto simp: delete_user_def Let_def Some covered_same intro: covered_other [OF Some] split: option.split)
qed (simp add: delete_user_def Let_def covered_same)

lemma unlink_covered: "covered_change x s role (snd (unlink_oidc x caller role uid s))"
proof (cases "fetch_user x uid s")
  case (Some u)
  have "others_kept uid (as_db s) db'" if "clear_oidc_link x uid (as_db s) = Some db'" for db'
    using that by (auto simp: clear_oidc_link_def others_kept_change split: if_splits)
  moreover have "covers x s role (au_role u)" if "outranks x s role (au_role u)" using outranks_cover [OF that] by auto
  ultimately show ?thesis
    by (auto simp: unlink_oidc_def Let_def Some covered_same intro: covered_other [OF Some] split: option.split)
qed (simp add: unlink_oidc_def Let_def covered_same)

lemma reset_password_covered: "covered_change x s role (snd (reset_password x caller role uid new s))"
proof (cases "fetch_user x uid s")
  case (Some u)
  let ?out = "snd (reset_password x caller role uid new s)"
  have "ad_users ?out = ad_users (as_db s)
      \<or> (covers x s role (au_role u) \<and> (\<exists>h db1. update_password (ax_auth x) uid h (as_db s) = Some db1 \<and> ad_users ?out = ad_users db1))"
    by (auto simp: reset_password_def Let_def Some split: option.split)
  then consider "ad_users ?out = ad_users (as_db s)"
    | h db1 where "covers x s role (au_role u)" "update_password (ax_auth x) uid h (as_db s) = Some db1" "ad_users ?out = ad_users db1"
    by blast
  then show ?thesis
  proof cases
    case 1
    then show ?thesis by (rule covered_same)
  next
    case 2
    have "others_kept uid (as_db s) db1"
      using 2(2) by (auto simp: update_password_def intro!: others_kept_change split: if_splits)
    then have "others_kept uid (as_db s) ?out" by (simp add: others_kept_users [OF 2(3)])
    then show ?thesis by (rule covered_other [OF Some 2(1)])
  qed
qed (simp add: reset_password_def Let_def covered_same)

text \<open>The caller's own second factor may use up one of its backup codes.\<close>

lemma backup_codes_kept:
  assumes "\<And>n us. ae_race e n us = us"
  shows "others_kept uid db (snd (try_backup_codes n e uid token codes db))"
proof (induction n arbitrary: codes db)
  case (Suc n)
  have consumed: "others_kept uid db db'" if "consume_backup_code e uid old new db = Some (ok, db')" for old new db ok db'
    using that by (auto simp: consume_backup_code_def Let_def intro!: others_kept_change split: if_splits)
  show ?case
    using Suc by (auto simp: Let_def assms split: option.split prod.split bool.split intro: consumed others_kept_trans)
qed simp

lemma verify_actor_kept:
  assumes "\<And>n us. ae_race (ax_auth x) n us = us"
  shows "others_kept (au_id actor) (fst s) (fst (snd (verify_actor_tfa x actor raw s)))"
proof -
  obtain ok db r where v: "verify_tfa_code (ax_auth x) actor raw s = (ok, (db, r))" by (metis prod.exhaust)
  have "others_kept (au_id actor) (fst s) (fst (snd (verify_tfa_code (ax_auth x) actor raw s)))"
    by (auto simp: verify_tfa_code_def Let_def case_prod_beta backup_codes_kept [OF assms] split: option.split)
  then have "others_kept (au_id actor) (fst s) db" by (simp add: v)
  then show ?thesis by (auto simp: verify_actor_tfa_def Let_def v case_prod_beta split: option.split bool.split)
qed

lemma admin_reset_kept: "admin_reset_tfa x uid temp db = Some (ok, db') \<Longrightarrow> others_kept uid db db'"
proof -
  assume r: "admin_reset_tfa x uid temp db = Some (ok, db')"
  have one: "others_kept uid db (reset_user_tfa uid db)"
    unfolding reset_user_tfa_def by (rule others_kept_change) simp
  have "others_kept uid (reset_user_tfa uid db) (set_temporary_password uid h (reset_user_tfa uid db))" for h
    unfolding set_temporary_password_def by (rule others_kept_change) simp
  then have two: "others_kept uid db (set_temporary_password uid h (reset_user_tfa uid db))" for h
    by (rule others_kept_trans [OF one])
  have "db' = db \<or> ad_users db' = ad_users (reset_user_tfa uid db)
      \<or> (\<exists>h. ad_users db' = ad_users (set_temporary_password uid h (reset_user_tfa uid db)))"
    using r by (simp add: admin_reset_tfa_def Let_def split: if_splits option.splits) auto
  then show ?thesis using one two by (auto simp: others_kept_def)
qed

lemma reset_target_cases:
  obtains "ad_users (as_db (snd (reset_tfa_target x actor uid new s))) = ad_users (as_db s)"
  | v where "find_user uid (ad_users (as_db s)) = Some v" and "outranks x s (au_role actor) (au_role v)"
      and "others_kept uid (as_db s) (as_db (snd (reset_tfa_target x actor uid new s)))"
proof (cases "find_user uid (ad_users (as_db s))")
  case None
  then show thesis by (intro that(1)) (simp add: reset_tfa_target_def)
next
  case (Some v)
  show thesis
  proof (cases "can_reset_tfa_of x s actor v")
    case True
    have "as_db (snd (reset_tfa_target x actor uid new s)) = as_db s
        \<or> (\<exists>temp ok. admin_reset_tfa x uid temp (as_db s) = Some (ok, as_db (snd (reset_tfa_target x actor uid new s))))"
      by (simp add: reset_tfa_target_def Some split: option.split sum.split prod.split bool.split) blast
    then have "others_kept uid (as_db s) (as_db (snd (reset_tfa_target x actor uid new s)))"
      using admin_reset_kept by (elim disjE exE) (simp, blast)
    then show thesis using that(2) [OF Some] True by (simp add: can_reset_tfa_of_def)
  next
    case False
    then show thesis by (intro that(1)) (simp add: reset_tfa_target_def Some)
  qed
qed

lemma find_user_unique:
  "distinct (map au_id us) \<Longrightarrow> u \<in> set us \<Longrightarrow> find_user (au_id u) us = Some v \<Longrightarrow> v = u"
  by (metis distinct_map find_user_id inj_on_def)

text \<open>The role \<open>c\<close> is a superadmin's or grants all that the user's role grants.\<close>

definition role_suffices :: "role_permission list \<Rightarrow> string \<Rightarrow> auth_user \<Rightarrow> bool" where
  "role_suffices roles c u \<longleftrightarrow> c = ''superadmin'' \<or> set (granted roles (au_role u)) \<subseteq> set (granted roles c)"

lemma covers_suffices: "c = ''superadmin'' \<or> covers x s c (au_role u) \<Longrightarrow> role_suffices (as_roles s) c u"
  using covers_granted unfolding role_suffices_def covers_def by blast

lemma covered_suffices:
  assumes "covered_change x s c db'" and "distinct (map au_id (ad_users (as_db s)))"
    and "u \<in> set (ad_users (as_db s))" and "u \<notin> set (ad_users db')"
  shows "role_suffices (as_roles s) c u"
proof -
  obtain uid v where v: "find_user uid (ad_users (as_db s)) = Some v" "others_kept uid (as_db s) db'"
    and c: "c = ''superadmin'' \<or> covers x s c (au_role v)"
    using assms by (auto simp: covered_change_def)
  have "v = u" using v assms(2-4) by (metis find_user_unique others_kept_def)
  then show ?thesis using c covers_suffices by blast
qed

text \<open>A two-factor reset: refused, refused by the caller's own second factor, or carried on to the target.\<close>

lemma reset_tfa_cases:
  obtains (same) "as_db (snd (reset_tfa x caller uid body s)) = as_db s"
  | (denied) actor raw res db r where "fetch_caller x caller s = Some actor"
      and "verify_actor_tfa x actor raw (as_db s, as_redis s) = (Some res, (db, r))"
      and "as_db (snd (reset_tfa x caller uid body s)) = db"
  | (direct) actor new where "fetch_caller x caller s = Some actor"
      and "reset_tfa x caller uid body s = reset_tfa_target x actor uid new s"
  | (verified) actor raw new db r where "fetch_caller x caller s = Some actor"
      and "verify_actor_tfa x actor raw (as_db s, as_redis s) = (None, (db, r))"
      and "reset_tfa x caller uid body s = reset_tfa_target x actor uid new (s\<lparr>as_db := db, as_redis := r\<rparr>)"
proof (cases "caller = [] \<or> uid = [] \<or> uid = caller \<or> body = None")
  case True
  show thesis by (rule same) (use True in \<open>auto simp: reset_tfa_def\<close>)
next
  case False
  then obtain req where req: "body = Some req" and ids: "caller \<noteq> []" "uid \<noteq> []" "uid \<noteq> caller" by blast
  show thesis
  proof (cases "fetch_caller x caller s")
    case None
    show thesis by (rule same) (simp add: reset_tfa_def req Let_def None)
  next
    case a: (Some actor)
    let ?new = "trim_space (rt_new_password req)"
    show thesis
    proof (cases "trim_space (rt_password req) = [] \<or> \<not> au_active actor
        \<or> (case au_hash actor of None \<Rightarrow> True | Some h \<Rightarrow> \<not> ae_hash_ok (ax_auth x) (trim_space h) (trim_space (rt_password req)))")
      case True
      show thesis by (rule same) (use True in \<open>auto simp: reset_tfa_def req Let_def a split: option.split\<close>)
    next
      case False
      then obtain h where h: "au_hash actor = Some h" "ae_hash_ok (ax_auth x) (trim_space h) (trim_space (rt_password req))"
        and ok: "trim_space (rt_password req) \<noteq> []" "au_active actor" by (auto split: option.splits)
      obtain res db r where v: "verify_actor_tfa x actor (rt_token req) (as_db s, as_redis s) = (res, (db, r))"
        by (metis prod.exhaust)
      show thesis
      proof (cases "au_tfa actor")
        case False
        show thesis by (rule direct [OF a, of ?new]) (simp add: reset_tfa_def req Let_def a h ok ids False)
      next
        case tfa: True
        show thesis
        proof (cases res)
          case None
          show thesis by (rule verified [OF a v [unfolded None], of ?new]) (simp add: reset_tfa_def req Let_def a h ok ids tfa v None)
        next
          case (Some cm)
          show thesis by (rule denied [OF a v [unfolded Some]]) (simp add: reset_tfa_def req Let_def a h ok ids tfa v Some split: prod.split)
        qed
      qed
    qed
  qed
qed

lemma reset_tfa_suffices:
  assumes ids: "distinct (map au_id (ad_users (as_db s)))" and race: "\<And>n us. ae_race (ax_auth x) n us = us"
    and u: "u \<in> set (ad_users (as_db s))" "u \<notin> set (ad_users (as_db (snd (reset_tfa x caller uid body s))))" "au_id u \<noteq> caller"
  shows "\<exists>c. (\<exists>v\<in>set (ad_users (as_db s)). au_id v = caller \<and> au_role v = c) \<and> role_suffices (as_roles s) c u"
proof -
  have keep: "races_keep_roles x" by (simp add: races_keep_roles_def race)
  have start: "others_kept caller (as_db s) (as_db t) \<and> role_of (as_db t) = role_of (as_db s) \<and> as_roles t = as_roles s
      \<Longrightarrow> fetch_caller x caller s = Some actor
      \<Longrightarrow> u \<notin> set (ad_users (as_db (snd (reset_tfa_target x actor uid new t)))) \<Longrightarrow> ?thesis" for actor new t
  proof -
    assume t: "others_kept caller (as_db s) (as_db t) \<and> role_of (as_db t) = role_of (as_db s) \<and> as_roles t = as_roles s"
      and a: "fetch_caller x caller s = Some actor" and gone: "u \<notin> set (ad_users (as_db (snd (reset_tfa_target x actor uid new t))))"
    have ut: "u \<in> set (ad_users (as_db t))" using t u by (auto simp: others_kept_def)
    have "map au_id (ad_users (as_db t)) = map au_id (ad_users (as_db s))"
      using t by (metis (no_types, lifting) role_of_def map_map fst_conv comp_apply map_cong)
    then have idt: "distinct (map au_id (ad_users (as_db t)))" using ids by simp
    have "\<exists>v. v = u \<and> outranks x t (au_role actor) (au_role v)"
    proof (rule reset_target_cases [of x actor uid new t])
      fix v assume "find_user uid (ad_users (as_db t)) = Some v" "outranks x t (au_role actor) (au_role v)"
        "others_kept uid (as_db t) (as_db (snd (reset_tfa_target x actor uid new t)))"
      then show ?thesis using ut gone idt by (metis find_user_unique others_kept_def)
    qed (use ut gone in simp)
    then have "au_role actor = ''superadmin'' \<or> covers x t (au_role actor) (au_role u)" using outranks_cover by blast
    then have "role_suffices (as_roles t) (au_role actor) u" by (rule covers_suffices)
    then have "role_suffices (as_roles s) (au_role actor) u" using t by simp
    moreover have "actor \<in> set (ad_users (as_db s))" "au_id actor = caller"
      using a by (auto simp: fetch_caller_def split: if_splits dest: find_user_id)
    ultimately show ?thesis by blast
  qed
  have kept: "others_kept caller (as_db s) db \<and> role_of db = role_of (as_db s)"
    if "fetch_caller x caller s = Some actor" "verify_actor_tfa x actor raw (as_db s, as_redis s) = (res, (db, r))" for actor raw res db r
  proof -
    have "au_id actor = caller" using that(1) by (auto simp: fetch_caller_def split: if_splits dest: find_user_id)
    then show ?thesis
      using verify_actor_kept [OF race, of actor "(as_db s, as_redis s)" raw]
        role_of_verify_actor [OF keep, of actor raw "(as_db s, as_redis s)"] that(2) by simp
  qed
  show ?thesis
  proof (rule reset_tfa_cases [of x caller uid body s])
    assume "as_db (snd (reset_tfa x caller uid body s)) = as_db s"
    then show ?thesis using u by simp
  next
    fix actor raw res db r assume "fetch_caller x caller s = Some actor"
      and "verify_actor_tfa x actor raw (as_db s, as_redis s) = (Some res, (db, r))"
      and "as_db (snd (reset_tfa x caller uid body s)) = db"
    then show ?thesis using kept u unfolding others_kept_def by blast
  next
    fix actor new assume "fetch_caller x caller s = Some actor"
      and "reset_tfa x caller uid body s = reset_tfa_target x actor uid new s"
    then show ?thesis using start [of s actor new] u by simp
  next
    fix actor raw new db r assume a: "fetch_caller x caller s = Some actor"
      and v: "verify_actor_tfa x actor raw (as_db s, as_redis s) = (None, (db, r))"
      and out: "reset_tfa x caller uid body s = reset_tfa_target x actor uid new (s\<lparr>as_db := db, as_redis := r\<rparr>)"
    show ?thesis by (rule start [OF _ a, of "s\<lparr>as_db := db, as_redis := r\<rparr>" new]) (use kept [OF a v] u out in simp_all)
  qed
qed

text \<open>
  C17: a request changes or deletes another user's account only if the caller is a superadmin or its role
  grants everything that account's role grants.
\<close>

theorem only_covered_accounts_change:
  assumes "admin_request x caller role op s = (resp, s')" and "distinct (map au_id (ad_users (as_db s)))"
    and "\<And>n us. ae_race (ax_auth x) n us = us"
    and "u \<in> set (ad_users (as_db s))" and "u \<notin> set (ad_users (as_db s'))" and "au_id u \<noteq> caller"
  shows "\<exists>c. (c = role \<or> (\<exists>v\<in>set (ad_users (as_db s)). au_id v = caller \<and> au_role v = c)) \<and> role_suffices (as_roles s) c u"
proof -
  have gone: "u \<notin> set (ad_users (as_db (snd (admin_handler x caller role op s))))"
    using assms(1,4,5) by (auto simp: admin_request_def split: option.splits if_splits)
  show ?thesis
  proof (cases op)
    case (ResetTfa uid body)
    then show ?thesis using reset_tfa_suffices [OF assms(2,3,4) _ assms(6), of uid body] gone by auto
  next
    case (CreateUser body)
    then show ?thesis using gone assms(4) covered_suffices [OF create_covered assms(2,4)]
      by (cases body) (auto simp: on_db_def)
  next
    case (ResetPassword uid body)
    then show ?thesis using gone assms(4) covered_suffices [OF reset_password_covered assms(2,4)]
      by (cases body) (auto simp: on_db_def)
  qed (use gone assms(4) covered_suffices [OF update_covered assms(2,4)] covered_suffices [OF delete_covered assms(2,4)]
        covered_suffices [OF unlink_covered assms(2,4)] role_op_users [of op x caller role s] in \<open>auto simp: on_db_def\<close>)
qed

section \<open>A sample installation\<close>

definition sample_admin_env :: "redis_map admin_env" where
  "sample_admin_env = \<lparr>ax_auth = sample_env, ax_role_fails = (\<lambda>_. False), ax_fails = (\<lambda>_. False), ax_settings_role = Some ''user'',
     ax_resolved_role = None, ax_env_role = [], ax_max_users = None, ax_new_user = ''u9'', ax_new_role = ''p9'',
     ax_trust_email = False, ax_custom_roles = True\<rparr>"

definition plain_user :: "string \<Rightarrow> string \<Rightarrow> string \<Rightarrow> auth_user" where
  "plain_user uid name role = sample_user\<lparr>au_id := uid, au_username := name, au_email := name @ ''@example.org'', au_role := role, au_tfa := False, au_secret := None\<rparr>"

definition sample_roles :: "role_permission list" where
  "sample_roles =
     [\<lparr>ro_id = ''p1'', ro_role = ''superadmin'', ro_grants = (\<lambda>_. True)\<rparr>,
      \<lparr>ro_id = ''p2'', ro_role = ''admin'', ro_grants = (\<lambda>q. q \<noteq> CanManageSuperusers)\<rparr>,
      \<lparr>ro_id = ''p3'', ro_role = ''user'', ro_grants = (\<lambda>q. q \<in> {CanViewDashboard, CanViewHosts})\<rparr>]"

definition sample_installation :: "redis_map admin_state" where
  "sample_installation =
     \<lparr>as_db = \<lparr>ad_users = [plain_user ''root'' ''root'' ''superadmin'', plain_user ''u1'' ''ann'' ''admin'', plain_user ''u2'' ''bob'' ''user''],
               ad_sessions = [], ad_devices = []\<rparr>,
      as_redis = Map.empty, as_roles = sample_roles\<rparr>"

definition sample_requests :: "(redis_map admin_env \<times> string \<times> string \<times> admin_op) list" where
  "sample_requests =
     [(sample_admin_env, ''u1'', ''admin'', UpdateRole ''ops'' (Some (\<lambda>q. q = CanManageHosts))),
      (sample_admin_env, ''u1'', ''admin'',
         CreateUser (Some \<lparr>cr_username = ''carl'', cr_email = ''carl@example.org'', cr_password = ''pw'', cr_role = ''ops''\<rparr>))]"

lemma sample_new_user:
  "list_ex (\<lambda>u. au_id u = ''u9'' \<and> au_role u = ''ops'') (ad_users (as_db (admin_run sample_requests sample_installation)))"
  "granted (as_roles (admin_run sample_requests sample_installation)) ''ops'' = [CanManageHosts]"
  by code_simp+

lemma sample_races: "races_keep_roles sample_admin_env"
  by (simp add: races_keep_roles_def sample_admin_env_def sample_env_def)

theorem no_privilege_escalation_witness:
  "\<exists>u\<in>set (ad_users (as_db (admin_run sample_requests sample_installation))).
     au_role u = ''ops'' \<and> set (granted (as_roles (admin_run sample_requests sample_installation)) ''ops'') \<subseteq> set (granted sample_roles ''admin'')"
proof -
  let ?P = "granted sample_roles ''admin''"
  obtain u where u: "u \<in> set (ad_users (as_db (admin_run sample_requests sample_installation)))" "au_id u = ''u9''" "au_role u = ''ops''"
    using sample_new_user(1) by (auto simp: list_ex_iff)
  have "list_all (within_group sample_installation ?P) sample_requests"
    by (simp add: sample_requests_def within_group_def sample_races sample_installation_def plain_user_def)
       (simp add: default_role_def sample_admin_env_def deref_def, code_simp)
  moreover have "role_row (as_roles sample_installation) [] = None"
    by (simp add: sample_installation_def sample_roles_def role_row_def)
  moreover have "\<not> set (granted (as_roles sample_installation) ''superadmin'') \<subseteq> set ?P" by code_simp
  moreover have "\<forall>u0\<in>set (ad_users (as_db sample_installation)). au_id u0 \<noteq> ''u9''"
    by (simp add: sample_installation_def plain_user_def)
  ultimately show ?thesis using no_privilege_escalation [of sample_installation ?P sample_requests u] u by auto
qed

theorem only_covered_accounts_change_witness:
  "snd (admin_request sample_admin_env ''u1'' ''admin'' (DeleteUser ''u2'') sample_installation) \<noteq> sample_installation
     \<and> (\<exists>c. role_suffices sample_roles c (plain_user ''u2'' ''bob'' ''user''))"
proof -
  let ?out = "admin_request sample_admin_env ''u1'' ''admin'' (DeleteUser ''u2'') sample_installation"
  have gone: "\<not> list_ex (\<lambda>u. au_id u = ''u2'') (ad_users (as_db (snd ?out)))" by code_simp
  have "\<exists>c. (c = ''admin'' \<or> (\<exists>v\<in>set (ad_users (as_db sample_installation)). au_id v = ''u1'' \<and> au_role v = c))
      \<and> role_suffices (as_roles sample_installation) c (plain_user ''u2'' ''bob'' ''user'')"
  proof (rule only_covered_accounts_change [where x = sample_admin_env and op = "DeleteUser ''u2''" and resp = "fst ?out" and s' = "snd ?out"])
    show "plain_user ''u2'' ''bob'' ''user'' \<notin> set (ad_users (as_db (snd ?out)))"
      using gone by (auto simp: list_ex_iff plain_user_def)
  qed (simp_all add: sample_installation_def plain_user_def sample_admin_env_def sample_env_def)
  moreover have "plain_user ''u2'' ''bob'' ''user'' \<in> set (ad_users (as_db sample_installation))"
    by (simp add: sample_installation_def)
  ultimately show ?thesis using gone by (auto simp: sample_installation_def list_ex_iff plain_user_def)
qed

section \<open>The last superadmin\<close>

text \<open>
  Deleting the last superadmin is refused, but the last superadmin can deactivate its own account, after
  which nobody is left who can undo it.
\<close>

definition deactivate_me :: update_request where
  "deactivate_me = \<lparr>up_username = None, up_email = None, up_role = None, up_active = Some False\<rparr>"

lemma last_superadmin_can_deactivate_itself:
  "fst (admin_request sample_admin_env ''root'' ''superadmin'' (UpdateUser ''root'' (Some deactivate_me)) sample_installation) = Accepted"
  "count_active ''superadmin''
     (as_db (snd (admin_request sample_admin_env ''root'' ''superadmin'' (UpdateUser ''root'' (Some deactivate_me)) sample_installation))) = 0"
  by code_simp+

end
