(* ===== verification/GoJson.thy ===== *)
theory GoJson
  imports TextSanitize
begin

text \<open>
  What the code uses of \<open>encoding/json\<close>: \<open>Marshal\<close> of values built from structs, slices, strings, booleans
  and integers.  A value is a \<open>json\<close>, an object its fields in the order of the struct.  Strings are escaped
  as Go does by default: control characters, quotes, backslashes, the HTML characters and the line
  separators U+2028 and U+2029; a byte that is not valid UTF-8 becomes the escape of U+FFFD.

  The locale \<open>unambiguous\<close> is the contract of an encoder whose output can be followed by anything the
  format puts after it.  It is interpreted on strings, on integers and on whole values: two values with the
  same encoding are equal when their strings are valid UTF-8.
\<close>

section \<open>Values and their encoding\<close>

datatype json =
    JNull | JBool bool | JNum int | JStr string | JArr "json list" | JObj "(string \<times> json) list"

definition hex_char :: "nat \<Rightarrow> char" where
  "hex_char n = char_of (if n < 10 then n + 48 else n + 87)"

text \<open>Characters with an escape of two characters, and those with one of six.\<close>

definition short_escape :: "char \<Rightarrow> char option" where
  "short_escape c =
     (if c = CHR 0x22 then Some (CHR 0x22)
      else if c = CHR 0x5C then Some (CHR 0x5C)
      else if c = CHR 0x08 then Some (CHR ''b'')
      else if c = CHR 0x0C then Some (CHR ''f'')
      else if c = CHR 0x0A then Some (CHR ''n'')
      else if c = CHR 0x0D then Some (CHR ''r'')
      else if c = CHR 0x09 then Some (CHR ''t'')
      else None)"

definition long_escape :: "char \<Rightarrow> bool" where
  "long_escape c \<longleftrightarrow> (of_char c :: nat) < 32 \<or> c = CHR ''<'' \<or> c = CHR ''>'' \<or> c = CHR ''&''"

definition line_separator :: string where
  "line_separator = [CHR 0xE2, CHR 0x80, CHR 0xA8]"

definition paragraph_separator :: string where
  "paragraph_separator = [CHR 0xE2, CHR 0x80, CHR 0xA9]"

text \<open>One valid encoding of a character.\<close>

definition escape_rune :: "string \<Rightarrow> string" where
  "escape_rune u =
     (case u of
        [c] \<Rightarrow>
          (case short_escape c of
             Some e \<Rightarrow> [CHR 0x5C, e]
           | None \<Rightarrow>
               if long_escape c
               then [CHR 0x5C, CHR ''u'', CHR ''0'', CHR ''0'', hex_char (of_char c div 16), hex_char (of_char c mod 16)]
               else u)
      | _ \<Rightarrow>
          if u = line_separator then CHR 0x5C # ''u2028''
          else if u = paragraph_separator then CHR 0x5C # ''u2029''
          else u)"

function escape_text :: "string \<Rightarrow> string" where
  "escape_text s =
     (if s = [] then []
      else if 0 < utf8_len s then escape_rune (take (utf8_len s) s) @ escape_text (drop (utf8_len s) s)
      else (CHR 0x5C # ''ufffd'') @ escape_text (tl s))"
  by pat_completeness auto
termination
  by (relation "measure length") (use utf8_len_Nil_pos in \<open>auto intro!: diff_less\<close>)

declare escape_text.simps [simp del]

definition marshal_text :: "string \<Rightarrow> string" where
  "marshal_text s = CHR 0x22 # escape_text s @ [CHR 0x22]"

fun marshal :: "json \<Rightarrow> string" where
  "marshal JNull = ''null''"
| "marshal (JBool b) = (if b then ''true'' else ''false'')"
| "marshal (JNum i) = decimal_int i"
| "marshal (JStr s) = marshal_text s"
| "marshal (JArr vs) = ''['' @ join '','' (map marshal vs) @ '']''"
| "marshal (JObj fs) = ''{'' @ join '','' (map (\<lambda>(k, v). marshal_text k @ '':'' @ marshal v) fs) @ ''}''"

text \<open>All strings of a value are valid UTF-8.\<close>

fun valid_json :: "json \<Rightarrow> bool" where
  "valid_json (JStr s) = valid_utf8 s"
| "valid_json (JArr vs) = list_all valid_json vs"
| "valid_json (JObj fs) = list_all (\<lambda>(k, v). valid_utf8 k \<and> valid_json v) fs"
| "valid_json _ = True"

text \<open>
  A string as the receiver of an encoded message decodes it: every invalid byte has become U+FFFD.
\<close>

definition wire_text :: "string \<Rightarrow> string" where
  "wire_text s = concat (runes_of s)"

lemma wire_text_valid: "valid_utf8 s \<Longrightarrow> wire_text s = s"
  by (simp add: wire_text_def concat_runes_valid)

section \<open>Unambiguous encoders\<close>

locale unambiguous =
  fixes enc :: "'a \<Rightarrow> string" and ok :: "'a \<Rightarrow> bool" and stop :: "string \<Rightarrow> bool"
  assumes cut: "ok x \<Longrightarrow> ok y \<Longrightarrow> stop r \<Longrightarrow> stop r' \<Longrightarrow> enc x @ r = enc y @ r' \<Longrightarrow> x = y \<and> r = r'"
    and at_end: "stop []"
begin

lemma injective: "ok x \<Longrightarrow> ok y \<Longrightarrow> enc x = enc y \<longleftrightarrow> x = y"
  using cut [of x y "[]" "[]"] at_end by auto

lemma not_proper_prefix: "ok x \<Longrightarrow> ok y \<Longrightarrow> stop r \<Longrightarrow> enc x @ r = enc y \<Longrightarrow> r = []"
  using cut [of x y r "[]"] at_end by simp

end

text \<open>Integers end where the digits end.\<close>

definition ends_number :: "string \<Rightarrow> bool" where
  "ends_number r \<longleftrightarrow> (case r of [] \<Rightarrow> True | c # _ \<Rightarrow> \<not> is_digit c)"

lemma decimal_cut:
  assumes "ends_number r" and "ends_number r'" and "decimal m @ r = decimal n @ r'"
  shows "m = n \<and> r = r'"
proof -
  have digits: "takeWhile is_digit (decimal k @ t) = decimal k" if "ends_number t" for k t
  proof -
    have "takeWhile is_digit (decimal k @ t) = decimal k @ takeWhile is_digit t"
      using decimal_digits [of k] by (intro takeWhile_append2) (auto simp: list_all_iff)
    then show ?thesis using that by (cases t) (simp_all add: ends_number_def)
  qed
  have "decimal m = decimal n" using digits [OF assms(1)] digits [OF assms(2)] assms(3) by metis
  moreover from this have "m = n" by (metis nat_of_decimal)
  ultimately show ?thesis using assms(3) by simp
qed

lemma decimal_no_sign: "decimal n \<noteq> [] \<and> is_digit (hd (decimal n))"
  using decimal_digits [of n] by (cases "decimal n") auto

lemma decimal_int_cut:
  assumes "ends_number r" and "ends_number r'" and "decimal_int i @ r = decimal_int j @ r'"
  shows "i = j \<and> r = r'"
proof -
  have minus: "\<not> is_digit CHR ''-''" by (simp add: is_digit_def Let_def)
  have "(i < 0) = (j < 0)"
    using assms(3) decimal_no_sign [of "nat i"] decimal_no_sign [of "nat j"] minus
    by (cases "decimal (nat i)"; cases "decimal (nat j)") (auto simp: decimal_int_def split: if_splits)
  then show ?thesis
    using decimal_cut [OF assms(1,2), of "nat i" "nat j"] decimal_cut [OF assms(1,2), of "nat (- i)" "nat (- j)"] assms(3)
    by (auto simp: decimal_int_def split: if_splits)
qed

interpretation json_int: unambiguous decimal_int "\<lambda>_. True" ends_number
  by unfold_locales (use decimal_int_cut in \<open>auto simp: ends_number_def\<close>)

section \<open>Strings\<close>

text \<open>Reading one escaped character back.\<close>

definition hex_value :: "char \<Rightarrow> nat" where
  "hex_value c = (let n = of_char c in if n < 58 then n - 48 else n - 87)"

definition short_unescape :: "char \<Rightarrow> char" where
  "short_unescape e =
     (if e = CHR ''b'' then CHR 0x08 else if e = CHR ''f'' then CHR 0x0C else if e = CHR ''n'' then CHR 0x0A
      else if e = CHR ''r'' then CHR 0x0D else if e = CHR ''t'' then CHR 0x09 else e)"

definition unescape :: "string \<Rightarrow> string \<times> string" where
  "unescape s =
     (if s = [] then ([], [])
      else if hd s \<noteq> CHR 0x5C then (take (utf8_len s) s, drop (utf8_len s) s)
      else if s ! 1 \<noteq> CHR ''u'' then ([short_unescape (s ! 1)], drop 2 s)
      else if s ! 2 = CHR ''2'' then (if s ! 5 = CHR ''8'' then line_separator else paragraph_separator, drop 6 s)
      else ([char_of (16 * hex_value (s ! 4) + hex_value (s ! 5))], drop 6 s))"

lemma hex_value_char: "k < 16 \<Longrightarrow> hex_value (hex_char k) = k"
  by (simp add: hex_value_def hex_char_def Let_def)

lemma long_escape_back: "char_of (16 * hex_value (hex_char (of_char c div 16)) + hex_value (hex_char (of_char c mod 16))) = (c :: char)"
proof -
  have "of_char c < (256 :: nat)" by simp
  then have "of_char c div 16 < (16 :: nat)" by (simp add: div_less_iff_less_mult)
  then show ?thesis by (simp add: hex_value_char)
qed

lemma unit_rune_single: "unit_rune [c] \<longleftrightarrow> in_range 0 127 c"
  by (simp add: unit_rune_def utf8_len_def)

lemma unit_rune_longer:
  assumes "unit_rune (a # b # u)"
  shows "(of_char a :: nat) \<ge> 194"
proof -
  have "0 < utf8_len (a # b # u)" "utf8_len (a # b # u) \<noteq> 1" using assms by (auto simp: unit_rune_def)
  then show ?thesis by (auto simp: utf8_len_def in_range_def split: if_splits)
qed

lemma unescape_single:
  assumes "unit_rune [c]"
  shows "unescape (escape_rune [c] @ r) = ([c], r)"
proof (cases "short_escape c")
  case (Some e)
  then show ?thesis
    by (auto simp: escape_rune_def unescape_def short_escape_def short_unescape_def split: if_splits)
next
  case None
  show ?thesis
  proof (cases "long_escape c")
    case True
    then show ?thesis using None long_escape_back [of c] by (simp add: escape_rune_def unescape_def)
  next
    case False
    have "utf8_len (c # r) = 1" using unit_rune_append [OF assms, of r] by simp
    then show ?thesis using None False by (auto simp: escape_rune_def unescape_def short_escape_def split: if_splits)
  qed
qed

lemma unescape_longer:
  assumes "unit_rune (a # b # u)"
  shows "unescape (escape_rune (a # b # u) @ r) = (a # b # u, r)"
proof -
  have a: "a \<noteq> CHR 0x5C" using unit_rune_longer [OF assms] by auto
  have "utf8_len ((a # b # u) @ r) = length (a # b # u)" using unit_rune_append [OF assms, of r] by blast
  then show ?thesis
    using a by (auto simp: escape_rune_def unescape_def line_separator_def paragraph_separator_def)
qed

lemma unescape_escape: "unit_rune u \<Longrightarrow> unescape (escape_rune u @ r) = (u, r)"
  using unescape_single unescape_longer by (cases u; cases "tl u") (auto simp: unit_rune_def)

lemma escape_rune_start:
  assumes "unit_rune u"
  shows "escape_rune u \<noteq> []" and "hd (escape_rune u) \<noteq> CHR 0x22"
proof -
  have "escape_rune u \<noteq> [] \<and> hd (escape_rune u) \<noteq> CHR 0x22"
  proof (cases u)
    case Nil
    then show ?thesis using assms by (simp add: unit_rune_def)
  next
    case (Cons a v)
    show ?thesis
    proof (cases v)
      case Nil
      then show ?thesis using Cons by (auto simp: escape_rune_def short_escape_def split: option.split if_splits)
    next
      case (Cons b w)
      then have "a \<noteq> CHR 0x22" using assms \<open>u = a # v\<close> unit_rune_longer [of a b w] by auto
      then show ?thesis using Cons \<open>u = a # v\<close> by (auto simp: escape_rune_def)
    qed
  qed
  then show "escape_rune u \<noteq> []" and "hd (escape_rune u) \<noteq> CHR 0x22" by blast+
qed

lemma escape_valid: "valid_utf8 s \<Longrightarrow> escape_text s = concat (map escape_rune (runes_of s))"
proof (induction s rule: escape_text.induct)
  case (1 s)
  then show ?case
    by (cases "s = []"; cases "0 < utf8_len s")
       (simp_all add: escape_text.simps [of s] escape_text.simps [of "[]"] runes_of.simps [of s] runes_of.simps [of "[]"] valid_utf8.simps [of s])
qed

lemma escaped_cut:
  assumes "list_all unit_rune us" and "list_all unit_rune vs"
    and "concat (map escape_rune us) @ CHR 0x22 # r = concat (map escape_rune vs) @ CHR 0x22 # r'"
  shows "us = vs \<and> r = r'"
  using assms
proof (induction us arbitrary: vs)
  case Nil
  show ?case
  proof (cases vs)
    case (Cons v ws)
    then show ?thesis using Nil escape_rune_start [of v] by (cases "escape_rune v") auto
  qed (use Nil in simp)
next
  case (Cons u us)
  have "vs \<noteq> []" using escape_rune_start [of u] Cons.prems by (cases "escape_rune u") auto
  then obtain v ws where vs: "vs = v # ws" by (cases vs) auto
  define s t where "s = concat (map escape_rune us) @ CHR 0x22 # r" and "t = concat (map escape_rune ws) @ CHR 0x22 # r'"
  have both: "escape_rune u @ s = escape_rune v @ t" using Cons.prems(3) by (simp add: vs s_def t_def)
  have units: "unit_rune u" "unit_rune v" using Cons.prems(1,2) by (simp_all add: vs)
  have "(u, s) = unescape (escape_rune v @ t)" by (subst both [symmetric], subst unescape_escape [OF units(1)], rule refl)
  then have same: "u = v" "s = t" unfolding unescape_escape [OF units(2)] by blast+
  show ?case using Cons.IH [of ws] Cons.prems(1,2) same by (simp add: vs s_def t_def)
qed

lemma marshal_text_cut:
  assumes "valid_utf8 s" and "valid_utf8 t" and "marshal_text s @ r = marshal_text t @ r'"
  shows "s = t \<and> r = r'"
proof -
  have units: "list_all unit_rune (runes_of x)" for x using runes_of_units by (auto simp: list_all_iff)
  have "concat (map escape_rune (runes_of s)) @ CHR 0x22 # r = concat (map escape_rune (runes_of t)) @ CHR 0x22 # r'"
    using assms by (simp add: marshal_text_def escape_valid)
  then have same: "runes_of s = runes_of t" "r = r'" using escaped_cut [OF units units] by blast+
  have "s = concat (runes_of t)" by (subst same(1) [symmetric], rule concat_runes_valid [OF assms(1), symmetric])
  then show ?thesis unfolding concat_runes_valid [OF assms(2)] using same(2) by blast
qed

interpretation json_text: unambiguous marshal_text valid_utf8 "\<lambda>_. True"
  by unfold_locales (blast dest: marshal_text_cut)+

section \<open>Values\<close>

text \<open>The first character tells the kind of a value.\<close>

definition json_kind :: "char \<Rightarrow> nat" where
  "json_kind c =
     (if c = CHR ''n'' then 0 else if c = CHR ''t'' then 1 else if c = CHR ''f'' then 2 else if c = CHR 0x22 then 3
      else if c = CHR ''['' then 4 else if c = CHR ''{'' then 5 else if is_digit c \<or> c = CHR ''-'' then 6 else 7)"

fun value_kind :: "json \<Rightarrow> nat" where
  "value_kind JNull = 0"
| "value_kind (JBool b) = (if b then 1 else 2)"
| "value_kind (JStr s) = 3"
| "value_kind (JArr vs) = 4"
| "value_kind (JObj fs) = 5"
| "value_kind (JNum i) = 6"

lemma digit_kind: "is_digit c \<Longrightarrow> json_kind c = 6"
  by (auto simp: json_kind_def is_digit_def Let_def)

lemma marshal_start: "marshal v \<noteq> [] \<and> json_kind (hd (marshal v)) = value_kind v"
proof (cases v)
  case (JNum i)
  then show ?thesis
    using decimal_no_sign [of "nat i"] digit_kind by (auto simp: decimal_int_def json_kind_def is_digit_def Let_def)
qed (auto simp: json_kind_def marshal_text_def is_digit_def Let_def)

lemma marshal_kind:
  assumes "marshal v @ r = marshal w @ r'"
  shows "value_kind v = value_kind w"
proof -
  have "hd (marshal v @ r) = hd (marshal w @ r')" using assms by simp
  then show ?thesis using marshal_start [of v] marshal_start [of w] by simp
qed

lemma kind_not_7: "value_kind v \<noteq> 7"
  by (cases v) auto

text \<open>A list of items that end before the closing bracket.\<close>

lemma items_cut:
  assumes each: "\<And>x y r r'. x \<in> set xs \<Longrightarrow> ok x \<Longrightarrow> ok y \<Longrightarrow> ends_number r \<Longrightarrow> ends_number r' \<Longrightarrow> enc x @ r = enc y @ r' \<Longrightarrow> x = y \<and> r = r'"
    and start: "\<And>x. ok x \<Longrightarrow> enc x \<noteq> [] \<and> hd (enc x) \<noteq> close"
    and close: "\<not> is_digit close" "close \<noteq> CHR '',''"
    and "list_all ok xs" and "list_all ok ys"
    and "join '','' (map enc xs) @ close # r = join '','' (map enc ys) @ close # r'"
  shows "xs = ys \<and> r = r'"
  using each assms(5-7)
proof (induction xs arbitrary: ys)
  case Nil
  show ?case
  proof (cases ys)
    case (Cons y zs)
    obtain c t where "enc y = c # t" "c \<noteq> close" using start [of y] Nil Cons by (cases "enc y") auto
    then show ?thesis using Nil Cons by (cases zs) auto
  qed (use Nil in simp)
next
  case (Cons x xs)
  have "ys \<noteq> []"
  proof
    assume "ys = []"
    have "ok x" using Cons.prems(2) by simp
    then obtain c t where "enc x = c # t" "c \<noteq> close" using start [of x] by (cases "enc x") simp_all
    then show False using Cons.prems(4) by (cases xs) (simp_all add: \<open>ys = []\<close>)
  qed
  then obtain y zs where ys: "ys = y # zs" by (cases ys) auto
  define rest where "rest ws t = (if ws = [] then close # t else CHR '','' # join '','' (map enc ws) @ close # t)" for ws t
  have flat: "join '','' (map enc (w # ws)) @ close # t = enc w @ rest ws t" for w ws t
    by (cases ws) (simp_all add: rest_def)
  have ends: "ends_number (rest ws t)" for ws t
    using close(1) by (simp add: rest_def ends_number_def is_digit_def Let_def)
  have "enc x @ rest xs r = enc y @ rest zs r'" using Cons.prems(4) unfolding ys flat .
  then have xy: "x = y" and rest: "rest xs r = rest zs r'"
    using Cons.prems(1) [of x y "rest xs r" "rest zs r'"] Cons.prems(2,3) ends by (auto simp: ys)
  show ?case
  proof (cases "xs = [] \<or> zs = []")
    case True
    then have "xs = [] \<and> zs = [] \<and> r = r'" using rest close(2) by (cases "xs = []"; cases "zs = []") (simp_all add: rest_def)
    then show ?thesis unfolding ys xy by blast
  next
    case False
    then have items: "join '','' (map enc xs) @ close # r = join '','' (map enc zs) @ close # r'" using rest by (simp add: rest_def)
    have each: "x' = y' \<and> t = t'"
      if "x' \<in> set xs" "ok x'" "ok y'" "ends_number t" "ends_number t'" "enc x' @ t = enc y' @ t'" for x' y' t t'
      by (rule Cons.prems(1)) (use that in simp_all)
    have "list_all ok xs" "list_all ok zs" using Cons.prems(2,3) by (simp_all add: ys)
    from Cons.IH [OF each this items] have "xs = zs \<and> r = r'" by blast
    then show ?thesis unfolding ys xy by blast
  qed
qed

definition marshal_field :: "string \<times> json \<Rightarrow> string" where
  "marshal_field f = (case f of (k, v) \<Rightarrow> marshal_text k @ '':'' @ marshal v)"

lemma marshal_obj: "marshal (JObj fs) = ''{'' @ join '','' (map marshal_field fs) @ ''}''"
proof -
  have "marshal_field = (\<lambda>(k, v). marshal_text k @ '':'' @ marshal v)" by (auto simp: fun_eq_iff marshal_field_def)
  then show ?thesis by simp
qed

lemma marshal_cut:
  "valid_json v \<Longrightarrow> valid_json w \<Longrightarrow> ends_number r \<Longrightarrow> ends_number r' \<Longrightarrow> marshal v @ r = marshal w @ r' \<Longrightarrow> v = w \<and> r = r'"
proof (induction v arbitrary: w r r')
  case JNull
  then show ?case using marshal_kind [OF JNull(5)] by (cases w) (simp_all split: if_splits)
next
  case (JBool b)
  then show ?case using marshal_kind [OF JBool(5)] by (cases w) (simp_all split: if_splits)
next
  case (JNum i)
  then obtain j where w: "w = JNum j" using marshal_kind [OF JNum(5)] by (cases w) (simp_all split: if_splits)
  show ?case using decimal_int_cut [OF JNum(3,4), of i j] JNum(5) by (simp add: w)
next
  case (JStr s)
  then obtain t where w: "w = JStr t" using marshal_kind [OF JStr(5)] by (cases w) (simp_all split: if_splits)
  show ?case using marshal_text_cut [of s t r r'] JStr by (simp add: w)
next
  case (JArr vs)
  then obtain ws where w: "w = JArr ws" using marshal_kind [OF JArr(6)] by (cases w) (simp_all split: if_splits)
  have "vs = ws \<and> r = r'"
  proof (rule items_cut [where enc = marshal and ok = valid_json and close = "CHR '']''"])
    show "marshal x \<noteq> [] \<and> hd (marshal x) \<noteq> CHR '']''" for x
      using marshal_start [of x] kind_not_7 [of x] by (auto simp: json_kind_def is_digit_def Let_def)
  qed (use JArr w in \<open>auto simp: is_digit_def Let_def\<close>)
  then show ?case by (simp add: w)
next
  case (JObj fs)
  then obtain gs where w: "w = JObj gs" using marshal_kind [OF JObj(6)] by (cases w) (simp_all split: if_splits)
  define ok where "ok f \<longleftrightarrow> (case f of (k, v) \<Rightarrow> valid_utf8 k \<and> valid_json v)" for f :: "string \<times> json"
  have "fs = gs \<and> r = r'"
  proof (rule items_cut [where enc = marshal_field and ok = ok and close = "CHR ''}''"])
    fix f g t t'
    assume f: "f \<in> set fs" "ok f" "ok g" "ends_number t" "ends_number t'" "marshal_field f @ t = marshal_field g @ t'"
    obtain k v where fk: "f = (k, v)" by (cases f)
    obtain k' v' where gk: "g = (k', v')" by (cases g)
    have both: "valid_utf8 k" "valid_json v" "valid_utf8 k'" "valid_json v'" using f(2,3) by (simp_all add: ok_def fk gk)
    have "k = k' \<and> CHR '':'' # marshal v @ t = CHR '':'' # marshal v' @ t'"
      by (rule marshal_text_cut [OF both(1,3)]) (use f(6) in \<open>simp add: marshal_field_def fk gk\<close>)
    moreover from this have "v = v' \<and> t = t'"
      by (intro JObj.IH [of f v]) (use f(1,4,5) both in \<open>simp_all add: fk\<close>)
    ultimately show "f = g \<and> t = t'" by (simp add: fk gk)
  next
    show "marshal_field f \<noteq> [] \<and> hd (marshal_field f) \<noteq> CHR ''}''" for f
      by (cases f) (simp add: marshal_field_def marshal_text_def)
  next
    have "ok = (\<lambda>(k, v). valid_utf8 k \<and> valid_json v)" by (auto simp: fun_eq_iff ok_def)
    then show "list_all ok fs" "list_all ok gs" using JObj.prems(1,2) by (simp_all add: w)
    show "join '','' (map marshal_field fs) @ CHR ''}'' # r = join '','' (map marshal_field gs) @ CHR ''}'' # r'"
      using JObj.prems(5) unfolding w marshal_obj by simp
  qed (simp_all add: is_digit_def Let_def)
  then show ?case by (simp add: w)
qed

interpretation json_value: unambiguous marshal valid_json ends_number
  by unfold_locales (blast dest: marshal_cut, simp add: ends_number_def)

end
