(* ===== verification/ReportHash.thy ===== *)
theory ReportHash
  imports GoJson "HOL-Library.List_Lexorder" "HOL-Library.Char_ord"
begin

text \<open>
  The canonical content hashes of a host's inventory, computed by the agent (\<open>agent:internal/hashing/canonical.go\<close>)
  and by the server (\<open>handler/hash_canonical.go\<close>): packages, repositories, interfaces and the hostname.
  The agent cleans the texts of packages and repositories first (\<open>agent:internal/textsan\<close>) and ships the
  same lists as JSON; \<open>wire_package\<close> and its like are the lists as the server decodes them.

  SHA-256 and Unicode normalisation (\<open>golang.org/x/text/unicode/norm\<close>) are parameters.  Docker and compliance
  hashes are not modelled.
\<close>

section \<open>Parameters\<close>

record hash_env =
  he_norm :: "string \<Rightarrow> string"
  he_sha :: "string \<Rightarrow> string"

definition nfc :: "hash_env \<Rightarrow> string \<Rightarrow> string" where
  "nfc e s = trim_space (he_norm e s)"

definition hex_pair :: "char \<Rightarrow> string" where
  "hex_pair c = [hex_char (of_char c div 16), hex_char (of_char c mod 16)]"

definition hash_hex :: "hash_env \<Rightarrow> string \<Rightarrow> string" where
  "hash_hex e b = concat (map hex_pair (he_sha e b))"

section \<open>The data\<close>

record agent_package =
  pk_name :: string
  pk_description :: string
  pk_category :: string
  pk_current :: string
  pk_available :: string
  pk_needs_update :: bool
  pk_security :: bool
  pk_source :: string
  pk_wua_guid :: string
  pk_wua_kb :: string
  pk_wua_severity :: string
  pk_wua_categories :: "string list"
  pk_wua_url :: string
  pk_wua_revision :: int
  pk_wua_browse_only :: bool
  pk_wua_type :: string
  pk_winget_id :: string
  pk_winget_pinned :: bool
  pk_winget_store :: bool

record report_package =
  rk_name :: string
  rk_description :: string
  rk_category :: string
  rk_current :: string
  rk_available :: "string option"
  rk_needs_update :: bool
  rk_security :: bool
  rk_source :: string
  rk_wua_guid :: string
  rk_wua_kb :: string
  rk_wua_severity :: string
  rk_wua_categories :: "string list"
  rk_wua_url :: string
  rk_wua_revision :: int
  rk_wua_browse_only :: bool
  rk_wua_type :: string
  rk_winget_id :: string
  rk_winget_pinned :: bool
  rk_winget_store :: bool

text \<open>A repository of either side; the two structs have the same fields.\<close>

record report_repository =
  rr_name :: string
  rr_url :: string
  rr_distribution :: string
  rr_components :: string
  rr_type :: string
  rr_enabled :: bool
  rr_secure :: bool

record net_address =
  na_address :: string
  na_family :: string
  na_netmask :: string
  na_gateway :: string

record net_interface =
  ni_name :: string
  ni_type :: string
  ni_mac :: string
  ni_mtu :: int
  ni_status :: string
  ni_link_speed :: int
  ni_duplex :: string
  ni_addresses :: "net_address list"

section \<open>Cleaning on the agent\<close>

definition clean_package :: "agent_package \<Rightarrow> agent_package" where
  "clean_package p =
     p\<lparr>pk_name := agent_clean (pk_name p), pk_description := agent_clean (pk_description p),
       pk_category := agent_clean (pk_category p), pk_current := agent_clean (pk_current p),
       pk_available := agent_clean (pk_available p), pk_source := agent_clean (pk_source p),
       pk_wua_guid := agent_clean (pk_wua_guid p), pk_wua_kb := agent_clean (pk_wua_kb p),
       pk_wua_severity := agent_clean (pk_wua_severity p), pk_wua_url := agent_clean (pk_wua_url p),
       pk_wua_categories := map agent_clean (pk_wua_categories p)\<rparr>"

definition clean_repository :: "report_repository \<Rightarrow> report_repository" where
  "clean_repository r =
     r\<lparr>rr_name := agent_clean (rr_name r), rr_url := agent_clean (rr_url r),
       rr_distribution := agent_clean (rr_distribution r), rr_components := agent_clean (rr_components r),
       rr_type := agent_clean (rr_type r)\<rparr>"

section \<open>The wire\<close>

text \<open>A field tagged \<open>omitempty\<close> is absent when empty; the server's \<open>AvailableVersion\<close> is then nil.\<close>

definition wire_package :: "agent_package \<Rightarrow> report_package" where
  "wire_package p =
     \<lparr>rk_name = wire_text (pk_name p), rk_description = wire_text (pk_description p),
      rk_category = wire_text (pk_category p), rk_current = wire_text (pk_current p),
      rk_available = (if pk_available p = [] then None else Some (wire_text (pk_available p))),
      rk_needs_update = pk_needs_update p, rk_security = pk_security p, rk_source = wire_text (pk_source p),
      rk_wua_guid = wire_text (pk_wua_guid p), rk_wua_kb = wire_text (pk_wua_kb p),
      rk_wua_severity = wire_text (pk_wua_severity p), rk_wua_categories = map wire_text (pk_wua_categories p),
      rk_wua_url = wire_text (pk_wua_url p), rk_wua_revision = pk_wua_revision p,
      rk_wua_browse_only = pk_wua_browse_only p, rk_wua_type = wire_text (pk_wua_type p),
      rk_winget_id = wire_text (pk_winget_id p), rk_winget_pinned = pk_winget_pinned p,
      rk_winget_store = pk_winget_store p\<rparr>"

definition wire_repository :: "report_repository \<Rightarrow> report_repository" where
  "wire_repository r =
     r\<lparr>rr_name := wire_text (rr_name r), rr_url := wire_text (rr_url r),
       rr_distribution := wire_text (rr_distribution r), rr_components := wire_text (rr_components r),
       rr_type := wire_text (rr_type r)\<rparr>"

section \<open>Canonical rows\<close>

text \<open>Of the rows with the same key the last stays.\<close>

fun dedupe_last :: "('a \<Rightarrow> string) \<Rightarrow> 'a list \<Rightarrow> 'a list" where
  "dedupe_last key [] = []"
| "dedupe_last key (r # rs) = (if key r \<in> key ` set rs then dedupe_last key rs else r # dedupe_last key rs)"

record package_row =
  hr_name :: string
  hr_description :: string
  hr_category :: string
  hr_current :: string
  hr_available :: string
  hr_needs_update :: bool
  hr_security :: bool
  hr_source :: string
  hr_wua_guid :: string
  hr_wua_kb :: string
  hr_wua_severity :: string
  hr_wua_categories :: "string list"
  hr_wua_url :: string
  hr_wua_revision :: int
  hr_winget_pinned :: bool
  hr_winget_store :: bool

definition json_texts :: "string list \<Rightarrow> json" where
  "json_texts ss = (if ss = [] then JNull else JArr (map JStr ss))"

definition package_json :: "package_row \<Rightarrow> json" where
  "package_json r = JObj
     ([(''name'', JStr (hr_name r)), (''description'', JStr (hr_description r)), (''category'', JStr (hr_category r)),
       (''currentVersion'', JStr (hr_current r)), (''availableVersion'', JStr (hr_available r)),
       (''needsUpdate'', JBool (hr_needs_update r)), (''isSecurityUpdate'', JBool (hr_security r)),
       (''sourceRepository'', JStr (hr_source r)), (''wuaGuid'', JStr (hr_wua_guid r)), (''wuaKb'', JStr (hr_wua_kb r)),
       (''wuaSeverity'', JStr (hr_wua_severity r)), (''wuaCategories'', json_texts (hr_wua_categories r)),
       (''wuaSupportUrl'', JStr (hr_wua_url r)), (''wuaRevisionNumber'', JNum (hr_wua_revision r))]
      @ (if hr_winget_pinned r then [(''wingetPinned'', JBool True)] else [])
      @ (if hr_winget_store r then [(''wingetStoreApp'', JBool True)] else []))"

definition canonical_packages :: "package_row list \<Rightarrow> package_row list" where
  "canonical_packages rows = dedupe_last hr_name (stable_sort_by (\<lambda>a b. hr_name a < hr_name b) rows)"

definition repository_json :: "report_repository \<Rightarrow> json" where
  "repository_json r = JObj
     [(''name'', JStr (rr_name r)), (''url'', JStr (rr_url r)), (''distribution'', JStr (rr_distribution r)),
      (''components'', JStr (rr_components r)), (''repoType'', JStr (rr_type r)), (''isEnabled'', JBool (rr_enabled r)),
      (''isSecure'', JBool (rr_secure r))]"

definition repository_before :: "report_repository \<Rightarrow> report_repository \<Rightarrow> bool" where
  "repository_before a b =
     (if rr_url a \<noteq> rr_url b then rr_url a < rr_url b
      else if rr_distribution a \<noteq> rr_distribution b then rr_distribution a < rr_distribution b
      else rr_components a < rr_components b)"

definition repository_key :: "report_repository \<Rightarrow> string" where
  "repository_key r = rr_url r @ ''|'' @ rr_distribution r @ ''|'' @ rr_components r"

definition canonical_repositories :: "report_repository list \<Rightarrow> report_repository list" where
  "canonical_repositories rows = dedupe_last repository_key (stable_sort_by repository_before rows)"

section \<open>The agent's hashes\<close>

definition agent_row :: "hash_env \<Rightarrow> agent_package \<Rightarrow> package_row" where
  "agent_row e p =
     \<lparr>hr_name = nfc e (pk_name p), hr_description = nfc e (pk_description p), hr_category = nfc e (pk_category p),
      hr_current = nfc e (pk_current p), hr_available = nfc e (pk_available p),
      hr_needs_update = pk_needs_update p, hr_security = pk_security p, hr_source = nfc e (pk_source p),
      hr_wua_guid = nfc e (pk_wua_guid p), hr_wua_kb = nfc e (pk_wua_kb p), hr_wua_severity = nfc e (pk_wua_severity p),
      hr_wua_categories = map (nfc e) (sort (pk_wua_categories p)), hr_wua_url = nfc e (pk_wua_url p),
      hr_wua_revision = pk_wua_revision p, hr_winget_pinned = pk_winget_pinned p, hr_winget_store = pk_winget_store p\<rparr>"

definition agent_packages_hash :: "hash_env \<Rightarrow> agent_package list \<Rightarrow> string" where
  "agent_packages_hash e ps = hash_hex e (marshal (JArr (map package_json (canonical_packages (map (agent_row e) ps)))))"

definition repository_row :: "hash_env \<Rightarrow> report_repository \<Rightarrow> report_repository" where
  "repository_row e r =
     r\<lparr>rr_name := nfc e (rr_name r), rr_url := nfc e (rr_url r), rr_distribution := nfc e (rr_distribution r),
       rr_components := nfc e (rr_components r), rr_type := nfc e (rr_type r)\<rparr>"

definition repositories_hash :: "hash_env \<Rightarrow> report_repository list \<Rightarrow> string" where
  "repositories_hash e rs = hash_hex e (marshal (JArr (map repository_json (canonical_repositories (map (repository_row e) rs)))))"

definition hostname_hash :: "hash_env \<Rightarrow> string \<Rightarrow> string" where
  "hostname_hash e hostname = hash_hex e (nfc e hostname)"

section \<open>The server's hash of packages\<close>

definition report_row :: "hash_env \<Rightarrow> report_package \<Rightarrow> package_row" where
  "report_row e p =
     \<lparr>hr_name = nfc e (rk_name p), hr_description = nfc e (rk_description p), hr_category = nfc e (rk_category p),
      hr_current = nfc e (rk_current p),
      hr_available = (case rk_available p of None \<Rightarrow> [] | Some v \<Rightarrow> nfc e v),
      hr_needs_update = rk_needs_update p, hr_security = rk_security p, hr_source = nfc e (rk_source p),
      hr_wua_guid = nfc e (rk_wua_guid p), hr_wua_kb = nfc e (rk_wua_kb p), hr_wua_severity = nfc e (rk_wua_severity p),
      hr_wua_categories = map (nfc e) (sort (rk_wua_categories p)), hr_wua_url = nfc e (rk_wua_url p),
      hr_wua_revision = rk_wua_revision p, hr_winget_pinned = rk_winget_pinned p, hr_winget_store = rk_winget_store p\<rparr>"

definition server_packages_hash :: "hash_env \<Rightarrow> report_package list \<Rightarrow> string" where
  "server_packages_hash e ps = hash_hex e (marshal (JArr (map package_json (canonical_packages (map (report_row e) ps)))))"

section \<open>Interfaces\<close>

definition address_row :: "hash_env \<Rightarrow> net_address \<Rightarrow> net_address" where
  "address_row e a =
     \<lparr>na_address = nfc e (na_address a), na_family = nfc e (na_family a), na_netmask = nfc e (na_netmask a),
      na_gateway = nfc e (na_gateway a)\<rparr>"

definition address_before :: "net_address \<Rightarrow> net_address \<Rightarrow> bool" where
  "address_before a b =
     (if na_family a \<noteq> na_family b then na_family a < na_family b else na_address a < na_address b)"

definition address_json :: "net_address \<Rightarrow> json" where
  "address_json a = JObj
     [(''address'', JStr (na_address a)), (''family'', JStr (na_family a)), (''netmask'', JStr (na_netmask a)),
      (''gateway'', JStr (na_gateway a))]"

record interface_row =
  ir_name :: string
  ir_type :: string
  ir_mac :: string
  ir_addresses :: "net_address list"

definition hash_interface :: "hash_env \<Rightarrow> net_interface \<Rightarrow> interface_row" where
  "hash_interface e i =
     \<lparr>ir_name = nfc e (ni_name i), ir_type = nfc e (ni_type i), ir_mac = to_lower (nfc e (ni_mac i)),
      ir_addresses = stable_sort_by address_before (map (address_row e) (ni_addresses i))\<rparr>"

definition interface_json :: "interface_row \<Rightarrow> json" where
  "interface_json r = JObj
     [(''name'', JStr (ir_name r)), (''type'', JStr (ir_type r)), (''macAddress'', JStr (ir_mac r)),
      (''addresses'', JArr (map address_json (ir_addresses r)))]"

definition interfaces_hash :: "hash_env \<Rightarrow> net_interface list \<Rightarrow> string" where
  "interfaces_hash e is =
     hash_hex e (marshal (JArr (map interface_json
       (stable_sort_by (\<lambda>a b. ir_name a < ir_name b) (map (hash_interface e) is)))))"

text \<open>
  The interfaces travel as JSON that the server keeps as it came.  Empty texts and zero numbers are omitted.
\<close>

definition omit_empty :: "string \<Rightarrow> string \<Rightarrow> (string \<times> json) list" where
  "omit_empty k s = (if s = [] then [] else [(k, JStr s)])"

definition omit_zero :: "string \<Rightarrow> int \<Rightarrow> (string \<times> json) list" where
  "omit_zero k n = (if n = 0 then [] else [(k, JNum n)])"

definition wire_address :: "net_address \<Rightarrow> json" where
  "wire_address a = JObj
     ([(''address'', JStr (wire_text (na_address a))), (''family'', JStr (wire_text (na_family a)))]
      @ omit_empty ''netmask'' (wire_text (na_netmask a)) @ omit_empty ''gateway'' (wire_text (na_gateway a)))"

definition wire_interface :: "net_interface \<Rightarrow> json" where
  "wire_interface i = JObj
     ([(''name'', JStr (wire_text (ni_name i))), (''type'', JStr (wire_text (ni_type i)))]
      @ omit_empty ''macAddress'' (wire_text (ni_mac i)) @ omit_zero ''mtu'' (ni_mtu i)
      @ omit_empty ''status'' (wire_text (ni_status i)) @ omit_zero ''linkSpeed'' (ni_link_speed i)
      @ omit_empty ''duplex'' (wire_text (ni_duplex i)) @ [(''addresses'', JArr (map wire_address (ni_addresses i)))])"

definition wire_interfaces :: "net_interface list \<Rightarrow> json" where
  "wire_interfaces is = JArr (map wire_interface is)"

text \<open>
  \<open>json.Unmarshal\<close> into the structs: keys match without regard to case, a later field overwrites an earlier
  one, null leaves a field as it is, and a value of the wrong type is an error.
\<close>

definition set_text :: "string \<Rightarrow> ((string \<Rightarrow> string) \<Rightarrow> 'a \<Rightarrow> 'a) \<Rightarrow> string \<Rightarrow> json \<Rightarrow> 'a option \<Rightarrow> 'a option" where
  "set_text name upd k v acc =
     (if equal_fold name k
      then (case v of JNull \<Rightarrow> acc | JStr s \<Rightarrow> map_option (upd (\<lambda>_. s)) acc | _ \<Rightarrow> None)
      else acc)"

definition set_int :: "string \<Rightarrow> ((int \<Rightarrow> int) \<Rightarrow> 'a \<Rightarrow> 'a) \<Rightarrow> string \<Rightarrow> json \<Rightarrow> 'a option \<Rightarrow> 'a option" where
  "set_int name upd k v acc =
     (if equal_fold name k
      then (case v of
              JNull \<Rightarrow> acc
            | JNum n \<Rightarrow> if min_int64 \<le> n \<and> n \<le> max_int64 then map_option (upd (\<lambda>_. n)) acc else None
            | _ \<Rightarrow> None)
      else acc)"

definition blank_address :: net_address where
  "blank_address = \<lparr>na_address = [], na_family = [], na_netmask = [], na_gateway = []\<rparr>"

definition address_field :: "string \<times> json \<Rightarrow> net_address option \<Rightarrow> net_address option" where
  "address_field f acc =
     (case f of (k, v) \<Rightarrow>
        set_text ''gateway'' na_gateway_update k v (set_text ''netmask'' na_netmask_update k v
          (set_text ''family'' na_family_update k v (set_text ''address'' na_address_update k v acc))))"

definition decode_address :: "json \<Rightarrow> net_address option" where
  "decode_address v =
     (case v of JNull \<Rightarrow> Some blank_address | JObj fs \<Rightarrow> fold address_field fs (Some blank_address) | _ \<Rightarrow> None)"

fun decode_all :: "('a \<Rightarrow> 'b option) \<Rightarrow> 'a list \<Rightarrow> 'b list option" where
  "decode_all f [] = Some []"
| "decode_all f (x # xs) =
     (case f x of None \<Rightarrow> None | Some y \<Rightarrow> (case decode_all f xs of None \<Rightarrow> None | Some ys \<Rightarrow> Some (y # ys)))"

definition blank_interface :: net_interface where
  "blank_interface =
     \<lparr>ni_name = [], ni_type = [], ni_mac = [], ni_mtu = 0, ni_status = [], ni_link_speed = 0, ni_duplex = [], ni_addresses = []\<rparr>"

definition set_addresses :: "string \<Rightarrow> json \<Rightarrow> net_interface option \<Rightarrow> net_interface option" where
  "set_addresses k v acc =
     (if equal_fold ''addresses'' k
      then (case v of
              JNull \<Rightarrow> map_option (ni_addresses_update (\<lambda>_. [])) acc
            | JArr vs \<Rightarrow> (case decode_all decode_address vs of None \<Rightarrow> None | Some as \<Rightarrow> map_option (ni_addresses_update (\<lambda>_. as)) acc)
            | _ \<Rightarrow> None)
      else acc)"

definition interface_field :: "string \<times> json \<Rightarrow> net_interface option \<Rightarrow> net_interface option" where
  "interface_field f acc =
     (case f of (k, v) \<Rightarrow>
        set_addresses k v (set_text ''duplex'' ni_duplex_update k v (set_int ''linkSpeed'' ni_link_speed_update k v
          (set_text ''status'' ni_status_update k v (set_int ''mtu'' ni_mtu_update k v
            (set_text ''macAddress'' ni_mac_update k v (set_text ''type'' ni_type_update k v
              (set_text ''name'' ni_name_update k v acc))))))))"

definition decode_interface :: "json \<Rightarrow> net_interface option" where
  "decode_interface v =
     (case v of JNull \<Rightarrow> Some blank_interface | JObj fs \<Rightarrow> fold interface_field fs (Some blank_interface) | _ \<Rightarrow> None)"

text \<open>\<open>decodeNetworkInterfaces\<close>: an absent field is no interfaces.\<close>

definition decode_network_interfaces :: "json option \<Rightarrow> net_interface list option" where
  "decode_network_interfaces raw =
     (case raw of
        None \<Rightarrow> Some []
      | Some JNull \<Rightarrow> Some []
      | Some (JArr vs) \<Rightarrow> decode_all decode_interface vs
      | _ \<Rightarrow> None)"

section \<open>Both sides agree\<close>

definition valid_package :: "agent_package \<Rightarrow> bool" where
  "valid_package p \<longleftrightarrow>
     list_all valid_utf8
       ([pk_name p, pk_description p, pk_category p, pk_current p, pk_available p, pk_source p, pk_wua_guid p, pk_wua_kb p,
         pk_wua_severity p, pk_wua_url p] @ pk_wua_categories p)"

definition valid_repository :: "report_repository \<Rightarrow> bool" where
  "valid_repository r \<longleftrightarrow> list_all valid_utf8 [rr_name r, rr_url r, rr_distribution r, rr_components r, rr_type r]"

lemma agent_clean_valid: "valid_utf8 (agent_clean s)"
  using agent_clean_agrees [of s] sanitize_text_valid [of s] by simp

lemma clean_package_valid: "valid_package (clean_package p)"
  by (simp add: valid_package_def clean_package_def agent_clean_valid list_all_iff)

lemma clean_repository_valid: "valid_repository (clean_repository r)"
  by (simp add: valid_repository_def clean_repository_def agent_clean_valid)

lemma map_wire_valid: "list_all valid_utf8 ss \<Longrightarrow> map wire_text ss = ss"
  by (induction ss) (simp_all add: wire_text_valid)

lemma row_parity: "he_norm e [] = [] \<Longrightarrow> valid_package p \<Longrightarrow> report_row e (wire_package p) = agent_row e p"
  by (simp add: report_row_def agent_row_def wire_package_def valid_package_def wire_text_valid map_wire_valid nfc_def
      trim_space_def trim_left.simps)

lemma packages_hash_parity:
  assumes "he_norm e [] = []" and "list_all valid_package ps"
  shows "server_packages_hash e (map wire_package ps) = agent_packages_hash e ps"
proof -
  have "map (report_row e) (map wire_package ps) = map (agent_row e) ps"
    using assms by (induction ps) (simp_all add: row_parity)
  then show ?thesis by (simp only: server_packages_hash_def agent_packages_hash_def)
qed

lemma wire_repository_valid: "valid_repository r \<Longrightarrow> wire_repository r = r"
  by (simp add: wire_repository_def valid_repository_def wire_text_valid)

lemma repositories_hash_parity: "list_all valid_repository rs \<Longrightarrow> repositories_hash e (map wire_repository rs) = repositories_hash e rs"
proof -
  assume "list_all valid_repository rs"
  then have "map wire_repository rs = rs" by (induction rs) (simp_all add: wire_repository_valid)
  then show ?thesis by simp
qed

text \<open>The interfaces survive the wire.\<close>

definition valid_address :: "net_address \<Rightarrow> bool" where
  "valid_address a \<longleftrightarrow> list_all valid_utf8 [na_address a, na_family a, na_netmask a, na_gateway a]"

definition valid_interface :: "net_interface \<Rightarrow> bool" where
  "valid_interface i \<longleftrightarrow>
     list_all valid_utf8 [ni_name i, ni_type i, ni_mac i, ni_status i, ni_duplex i]
     \<and> min_int64 \<le> ni_mtu i \<and> ni_mtu i \<le> max_int64 \<and> min_int64 \<le> ni_link_speed i \<and> ni_link_speed i \<le> max_int64
     \<and> list_all valid_address (ni_addresses i)"

lemma decode_all_map: "(\<And>x. x \<in> set xs \<Longrightarrow> f (g x) = Some x) \<Longrightarrow> decode_all f (map g xs) = Some xs"
  by (induction xs) simp_all

lemmas field_names = equal_fold_def to_lower_def lower_char_def Let_def

lemma decode_wire_address: "valid_address a \<Longrightarrow> decode_address (wire_address a) = Some a"
  by (cases "na_netmask a = []"; cases "na_gateway a = []"; cases a)
     (simp_all add: decode_address_def wire_address_def omit_empty_def valid_address_def wire_text_valid blank_address_def
       address_field_def set_text_def field_names)

text \<open>The fields of an interface one at a time.\<close>

lemmas interface_names = interface_field_def set_text_def set_int_def set_addresses_def field_names

lemma interface_name: "interface_field (''name'', JStr s) acc = map_option (ni_name_update (\<lambda>_. s)) acc"
  by (simp add: interface_names)

lemma interface_type: "interface_field (''type'', JStr s) acc = map_option (ni_type_update (\<lambda>_. s)) acc"
  by (simp add: interface_names)

lemma interface_mac: "interface_field (''macAddress'', JStr s) acc = map_option (ni_mac_update (\<lambda>_. s)) acc"
  by (simp add: interface_names)

lemma interface_mtu: "min_int64 \<le> n \<and> n \<le> max_int64 \<Longrightarrow> interface_field (''mtu'', JNum n) acc = map_option (ni_mtu_update (\<lambda>_. n)) acc"
  by (simp add: interface_names)

lemma interface_status: "interface_field (''status'', JStr s) acc = map_option (ni_status_update (\<lambda>_. s)) acc"
  by (simp add: interface_names)

lemma interface_speed:
  "min_int64 \<le> n \<and> n \<le> max_int64 \<Longrightarrow> interface_field (''linkSpeed'', JNum n) acc = map_option (ni_link_speed_update (\<lambda>_. n)) acc"
  by (simp add: interface_names)

lemma interface_duplex: "interface_field (''duplex'', JStr s) acc = map_option (ni_duplex_update (\<lambda>_. s)) acc"
  by (simp add: interface_names)

lemma interface_addresses:
  "decode_all decode_address vs = Some as \<Longrightarrow>
   interface_field (''addresses'', JArr vs) acc = map_option (ni_addresses_update (\<lambda>_. as)) acc"
  by (simp add: interface_names)

lemmas interface_fields = interface_name interface_type interface_mac interface_mtu interface_status interface_speed
  interface_duplex interface_addresses

lemma decode_wire_interface: "valid_interface i \<Longrightarrow> decode_interface (wire_interface i) = Some i"
proof -
  assume i: "valid_interface i"
  have addrs: "decode_all decode_address (map wire_address (ni_addresses i)) = Some (ni_addresses i)"
    using i by (intro decode_all_map decode_wire_address) (simp add: valid_interface_def list_all_iff)
  have empty: "fold interface_field (omit_empty k s) acc = (if s = [] then acc else interface_field (k, JStr s) acc)" for k s acc
    by (simp add: omit_empty_def)
  have zero: "fold interface_field (omit_zero k n) acc = (if n = 0 then acc else interface_field (k, JNum n) acc)" for k n acc
    by (simp add: omit_zero_def)
  show ?thesis
    using i addrs
    by (cases i)
       (simp add: decode_interface_def wire_interface_def valid_interface_def wire_text_valid empty zero blank_interface_def
         interface_fields)
qed

lemma decode_wire_interfaces: "list_all valid_interface is \<Longrightarrow> decode_network_interfaces (Some (wire_interfaces is)) = Some is"
  by (simp add: decode_network_interfaces_def wire_interfaces_def decode_all_map decode_wire_interface list_all_iff)

section \<open>Equal hashes, equal content\<close>

lemma hex_pair_inject: "hex_pair c = hex_pair d \<Longrightarrow> c = d"
  unfolding hex_pair_def by (metis list.inject long_escape_back)

lemma hex_inject: "concat (map hex_pair s) = concat (map hex_pair t) \<Longrightarrow> s = t"
proof (induction s arbitrary: t)
  case (Cons c s)
  then obtain d u where t: "t = d # u" by (cases t) (auto simp: hex_pair_def)
  have "hex_pair c @ concat (map hex_pair s) = hex_pair d @ concat (map hex_pair u)" using Cons.prems by (simp add: t)
  moreover have "length (hex_pair c) = length (hex_pair d)" by (simp add: hex_pair_def)
  ultimately have "hex_pair c = hex_pair d" "concat (map hex_pair s) = concat (map hex_pair u)"
    using append_eq_append_conv by blast+
  then show ?case using hex_pair_inject Cons.IH by (simp add: t)
next
  case Nil
  then show ?case by (cases t) (simp_all add: hex_pair_def)
qed

text \<open>SHA-256 does not collide on two given texts.\<close>

definition no_collision :: "hash_env \<Rightarrow> string \<Rightarrow> string \<Rightarrow> bool" where
  "no_collision e a b \<longleftrightarrow> (he_sha e a = he_sha e b \<longrightarrow> a = b)"

lemma hash_hex_inject: "no_collision e a b \<Longrightarrow> hash_hex e a = hash_hex e b \<Longrightarrow> a = b"
  using hex_inject by (simp add: no_collision_def hash_hex_def)

lemma json_texts_inject: "json_texts ss = json_texts ts \<Longrightarrow> ss = ts"
  by (auto simp: json_texts_def inj_map_eq_map inj_def split: if_splits)

lemma package_json_inject: "package_json r = package_json q \<longleftrightarrow> r = q"
proof
  assume "package_json r = package_json q"
  then show "r = q"
    by (cases r; cases q) (auto simp: package_json_def dest: json_texts_inject split: if_splits)
qed simp

definition valid_row :: "package_row \<Rightarrow> bool" where
  "valid_row r \<longleftrightarrow> list_all valid_utf8
     ([hr_name r, hr_description r, hr_category r, hr_current r, hr_available r, hr_source r, hr_wua_guid r, hr_wua_kb r,
       hr_wua_severity r, hr_wua_url r] @ hr_wua_categories r)"

lemma ascii_valid: "list_all (\<lambda>c. (of_char c :: nat) < 128) s \<Longrightarrow> valid_utf8 s"
proof (induction s)
  case (Cons c s)
  then have "utf8_len (c # s) = 1" by (simp add: utf8_len_def in_range_def)
  then show ?case using Cons by (simp add: valid_utf8.simps [of "c # s"])
qed simp

lemma valid_texts_json: "list_all valid_utf8 ss \<Longrightarrow> valid_json (json_texts ss)"
  by (simp add: json_texts_def list_all_iff)

lemma valid_package_json: "valid_row r \<Longrightarrow> valid_json (package_json r)"
  by (simp add: valid_row_def package_json_def ascii_valid valid_texts_json)

text \<open>The encoding of a list of rows.\<close>

definition packages_text :: "package_row list \<Rightarrow> string" where
  "packages_text rows = marshal (JArr (map package_json rows))"

lemma packages_text_inject:
  assumes "list_all valid_row rows" and "list_all valid_row rows'" and "packages_text rows = packages_text rows'"
  shows "rows = rows'"
proof -
  have "JArr (map package_json rows) = JArr (map package_json rows')"
  proof (rule json_value.injective [THEN iffD1])
    show "marshal (JArr (map package_json rows)) = marshal (JArr (map package_json rows'))"
      using assms(3) by (simp only: packages_text_def)
  qed (use assms(1,2) valid_package_json in \<open>auto simp: list_all_iff\<close>)
  then show ?thesis using package_json_inject by (simp add: inj_map_eq_map inj_def)
qed

lemma in_dedupe: "r \<in> set (dedupe_last key rs) \<Longrightarrow> r \<in> set rs"
  by (induction rs) (auto split: if_splits)

lemma in_canonical: "r \<in> set (canonical_packages rows) \<Longrightarrow> r \<in> set rows"
  using in_dedupe by (fastforce simp: canonical_packages_def)

section \<open>Trimmed text stays valid\<close>

lemma space_forms:
  assumes "0 < space_len s"
  obtains (one) c r where "s = c # r" "ascii_space c" "space_len s = 1"
  | (two) c d r where "s = c # d # r" "byte_is c 194" "is_cont d" "space_len s = 2"
  | (three) c d e r where "s = c # d # e # r" "byte_is c 225 \<or> byte_is c 226 \<or> byte_is c 227" "is_cont d" "is_cont e"
      "space_len s = 3"
proof -
  have b: "byte_is d n \<Longrightarrow> 128 \<le> n \<Longrightarrow> n \<le> 191 \<Longrightarrow> is_cont d" for d n
    by (simp add: byte_is_def is_cont_def in_range_def)
  have b': "128 \<le> (of_char d :: nat) \<Longrightarrow> (of_char d :: nat) \<le> 138 \<Longrightarrow> is_cont d" for d
    by (simp add: is_cont_def in_range_def)
  obtain c r where s: "s = c # r" using assms by (cases s) auto
  show ?thesis
  proof (cases "ascii_space c")
    case True
    then have "space_len s = 1" using s by (cases r; cases "tl r") simp_all
    then show ?thesis using one s True by blast
  next
    case nospace: False
    then obtain d t where r: "r = d # t" using assms s by (cases r) auto
    show ?thesis
    proof (cases "byte_is c 194 \<and> (byte_is d 133 \<or> byte_is d 160)")
      case True
      then have "space_len s = 2" using s r nospace by (cases t) simp_all
      moreover have "is_cont d" using True b [of d 133] b [of d 160] by auto
      ultimately show ?thesis using two s r True by blast
    next
      case no2: False
      then obtain e u where t: "t = e # u" using assms s r nospace by (cases t) auto
      have forms: "byte_is c 225 \<and> byte_is d 154 \<and> byte_is e 128
          \<or> byte_is c 226 \<and> byte_is d 128
              \<and> (128 \<le> (of_char e :: nat) \<and> (of_char e :: nat) \<le> 138 \<or> byte_is e 168 \<or> byte_is e 169 \<or> byte_is e 175)
          \<or> byte_is c 226 \<and> byte_is d 129 \<and> byte_is e 159 \<or> byte_is c 227 \<and> byte_is d 128 \<and> byte_is e 128"
        using assms unfolding s r t
        by (simp only: space_len.simps nospace no2 if_False less_irrefl split: if_splits) blast+
      then have "space_len s = 3"
        unfolding s r t by (simp only: space_len.simps nospace no2 if_False split: if_split) blast
      moreover have "(byte_is c 225 \<or> byte_is c 226 \<or> byte_is c 227) \<and> is_cont d \<and> is_cont e"
        using forms
        using b [of d 154] b [of d 128] b [of d 129] b [of e 128] b [of e 159] b [of e 168] b [of e 169] b [of e 175] b' [of e]
        by auto
      ultimately show ?thesis using three s r t by blast
    qed
  qed
qed

lemma space_start:
  assumes "0 < space_len s"
  shows "utf8_len s = space_len s \<and> \<not> is_cont (hd s)"
  using assms
proof (cases rule: space_forms)
  case (one c r)
  then have "in_range 0 127 c" by (auto simp: ascii_space_def in_range_def Let_def)
  then show ?thesis using one by (simp add: utf8_len_def is_cont_def in_range_def)
next
  case (two c d r)
  then show ?thesis by (simp add: utf8_len_def byte_is_def in_range_def [of _ _ c] is_cont_def [THEN fun_cong, of c])
next
  case (three c d e r)
  then have c: "in_range 224 239 c" "\<not> in_range 0 127 c" "\<not> in_range 194 223 c" "\<not> is_cont c"
      "\<not> in_range 224 224 c" "\<not> in_range 237 237 c"
    by (auto simp: byte_is_def in_range_def is_cont_def)
  then have "second_of_3 c d" using three by (simp add: second_of_3_def)
  then show ?thesis using three(5) c three(4) unfolding three(1) by (simp add: utf8_len_def)
qed

lemma unit_inner:
  assumes "0 < k" and "k < utf8_len s"
  shows "is_cont (s ! k)"
proof -
  have "0 < utf8_len s" using assms by simp
  then show ?thesis
  proof (cases rule: utf8_len_cases)
    case (one a r)
    then show ?thesis using assms by (simp add: utf8_len_def)
  next
    case (two a b r)
    then show ?thesis using assms by (cases k) (auto simp: utf8_len_def)
  next
    case (three a b c r)
    then have "utf8_len s = 3" by (simp add: utf8_len_def)
    then have "k = 1 \<or> k = 2" using assms by auto
    then show ?thesis using three by (auto simp: second_of_3_def is_cont_def in_range_def split: if_splits)
  next
    case (four a b c d r)
    then have "utf8_len s = 4" by (simp add: utf8_len_def)
    then have "k = 1 \<or> k = 2 \<or> k = 3" using assms by auto
    then show ?thesis using four by (auto simp: second_of_4_def is_cont_def in_range_def split: if_splits)
  qed
qed

lemma valid_prefix: "valid_utf8 (p @ w) \<Longrightarrow> w = [] \<or> \<not> is_cont (hd w) \<Longrightarrow> valid_utf8 p"
proof (induction "length p" arbitrary: p rule: less_induct)
  case less
  show ?case
  proof (cases "p = [] \<or> w = []")
    case False
    let ?n = "utf8_len (p @ w)"
    have n: "0 < ?n" "valid_utf8 (drop ?n (p @ w))"
      using less.prems(1) False by (simp_all add: valid_utf8.simps [of "p @ w"] split: if_splits)
    have le: "?n \<le> length p"
    proof (rule ccontr)
      assume "\<not> ?n \<le> length p"
      then have "is_cont ((p @ w) ! length p)" using False by (intro unit_inner) auto
      then show False using less.prems(2) False by (simp add: nth_append hd_conv_nth)
    qed
    have "drop ?n (p @ w) = drop ?n p @ w" using le by simp
    then have rest: "valid_utf8 (drop ?n p @ w)" using n(2) by simp
    have "length (drop ?n p) < length p" using n(1) le by simp
    then have "valid_utf8 (drop ?n p)" by (rule less.hyps [OF _ rest less.prems(2)])
    moreover have "utf8_len p = ?n" using utf8_len_append [OF n(1), of "drop ?n p"] le by simp
    ultimately show ?thesis using n(1) by (subst valid_utf8.simps) simp
  qed (use less.prems(1) in auto)
qed

lemma valid_trim_left: "valid_utf8 s \<Longrightarrow> valid_utf8 (trim_left s)"
proof (induction s rule: trim_left.induct)
  case (1 s)
  show ?case
  proof (cases "0 < space_len s")
    case True
    then have "valid_utf8 (drop (space_len s) s)"
      using 1(2) space_start [OF True] by (auto simp: valid_utf8.simps [of s] split: if_splits)
    then show ?thesis using 1(1) True by (simp add: trim_left.simps [of s])
  qed (use 1(2) in \<open>simp add: trim_left.simps [of s]\<close>)
qed

lemma valid_trim: "valid_utf8 s \<Longrightarrow> valid_utf8 (trim_space s)"
proof -
  assume "valid_utf8 s"
  then have v: "valid_utf8 (trim_left s)" by (rule valid_trim_left)
  obtain w where w: "trim_left s = trim_right (trim_left s) @ w" "all_space w" using trim_right_prefix by blast
  have "w = [] \<or> \<not> is_cont (hd w)"
    using w(2) space_start [of w] by (auto simp: all_space.simps [of w] split: if_splits)
  then have "valid_utf8 (trim_right (trim_left s))" using v w(1) by (metis valid_prefix)
  then show ?thesis by (simp add: trim_space_def)
qed

text \<open>What normalisation documents: the empty text stays, and valid text stays valid.\<close>

definition norm_ok :: "hash_env \<Rightarrow> bool" where
  "norm_ok e \<longleftrightarrow> he_norm e [] = [] \<and> (\<forall>s. valid_utf8 s \<longrightarrow> valid_utf8 (he_norm e s))"

lemma nfc_valid: "norm_ok e \<Longrightarrow> valid_utf8 s \<Longrightarrow> valid_utf8 (nfc e s)"
  by (simp add: nfc_def norm_ok_def valid_trim)

lemma agent_row_valid: "norm_ok e \<Longrightarrow> valid_package p \<Longrightarrow> valid_row (agent_row e p)"
  by (simp add: valid_row_def agent_row_def valid_package_def nfc_valid list_all_iff)

text \<open>The server may hold packages of an agent that does not clean them; what it decodes is valid text.\<close>

definition valid_report_package :: "report_package \<Rightarrow> bool" where
  "valid_report_package p \<longleftrightarrow>
     list_all valid_utf8
       ([rk_name p, rk_description p, rk_category p, rk_current p, case rk_available p of None \<Rightarrow> [] | Some v \<Rightarrow> v, rk_source p,
         rk_wua_guid p, rk_wua_kb p, rk_wua_severity p, rk_wua_url p] @ rk_wua_categories p)"

lemma report_row_valid: "norm_ok e \<Longrightarrow> valid_report_package p \<Longrightarrow> valid_row (report_row e p)"
  by (cases "rk_available p")
     (simp_all add: valid_row_def report_row_def valid_report_package_def nfc_valid list_all_iff)

section \<open>The canonical list is the last row of each key\<close>

definition latest :: "('a \<Rightarrow> string) \<Rightarrow> 'a list \<Rightarrow> string \<rightharpoonup> 'a" where
  "latest key rs = map_of (rev (map (\<lambda>r. (key r, r)) rs))"

lemma latest_Nil [simp]: "latest key [] = Map.empty"
  by (simp add: latest_def)

lemma latest_Cons: "latest key (r # rs) = [key r \<mapsto> r] ++ latest key rs"
  by (simp add: latest_def)

lemma dom_latest: "dom (latest key rs) = key ` set rs"
  by (induction rs) (auto simp: latest_Cons)

lemma latest_key: "latest key rs k = Some r \<Longrightarrow> key r = k \<and> r \<in> set rs"
  by (induction rs) (auto simp: latest_Cons map_add_Some_iff split: if_splits)

lemma latest_dedupe: "latest key (dedupe_last key rs) = latest key rs"
proof (induction rs)
  case (Cons r rs)
  show ?case
  proof (cases "key r \<in> key ` set rs")
    case True
    then have "[key r \<mapsto> r] ++ latest key rs = latest key rs"
      by (intro ext) (auto simp: map_add_def dom_latest [symmetric] split: option.split)
    then show ?thesis using Cons True by (simp add: latest_Cons)
  qed (simp add: Cons latest_Cons)
qed simp

lemma latest_insert:
  assumes "\<And>a b. lt a b \<Longrightarrow> key a \<noteq> key b"
  shows "latest key (insert_by lt x ys) = latest key (x # ys)"
proof (induction ys)
  case (Cons y ys)
  show ?case
  proof (cases "lt y x")
    case True
    then have "[key y \<mapsto> y] ++ ([key x \<mapsto> x] ++ latest key ys) = [key x \<mapsto> x] ++ ([key y \<mapsto> y] ++ latest key ys)"
      using assms [OF True] by (intro ext) (simp add: map_add_def split: option.split)
    then show ?thesis using Cons True by (simp add: latest_Cons)
  qed (simp add: latest_Cons)
qed simp

lemma latest_sort:
  assumes "\<And>a b. lt a b \<Longrightarrow> key a \<noteq> key b"
  shows "latest key (stable_sort_by lt rs) = latest key rs"
  using latest_insert [of lt key, OF assms] by (induction rs) (simp_all add: stable_sort_by_def latest_Cons)

lemma dedupe_sorted:
  fixes key :: "'a \<Rightarrow> string"
  shows "sorted_wrt (\<lambda>a b. \<not> key b < key a) rs \<Longrightarrow> sorted_wrt (\<lambda>a b. key a < key b) (dedupe_last key rs)"
proof (induction rs)
  case (Cons r rs)
  have "key r < key q" if "q \<in> set (dedupe_last key rs)" "key r \<notin> key ` set rs" for q
    using in_dedupe [OF that(1)] that(2) Cons.prems by (auto simp: not_less order.strict_iff_order)
  then show ?case using Cons by simp
qed simp

lemma canonical_sorted: "sorted_wrt (\<lambda>a b. hr_name a < hr_name b) (canonical_packages rows)"
  unfolding canonical_packages_def by (intro dedupe_sorted stable_sort_by_sorted) auto

lemma latest_canonical: "latest hr_name (canonical_packages rows) = latest hr_name rows"
  unfolding canonical_packages_def latest_dedupe by (rule latest_sort) auto

lemma sorted_by_latest:
  fixes key :: "'a \<Rightarrow> string"
  assumes "sorted_wrt (\<lambda>a b. key a < key b) rs" and "sorted_wrt (\<lambda>a b. key a < key b) qs"
    and "latest key rs = latest key qs"
  shows "rs = qs"
proof -
  have keys: "sorted_wrt (<) (map key xs)" if "sorted_wrt (\<lambda>a b. key a < key b) xs" for xs
    using that by (simp add: sorted_wrt_map)
  have own: "latest key xs (key x) = Some x" if "x \<in> set xs" "sorted_wrt (\<lambda>a b. key a < key b) xs" for x xs
    using that
  proof (induction xs)
    case (Cons y ys)
    have "key y \<notin> dom (latest key ys)" using Cons.prems(2) by (auto simp: dom_latest)
    then have "latest key ys (key y) = None" by (simp add: domIff)
    then show ?case using Cons by (cases "x = y") (simp_all add: latest_Cons map_add_def)
  qed simp
  have "key ` set rs = key ` set qs" using assms(3) dom_latest by metis
  then have "map key rs = map key qs"
    using keys [OF assms(1)] keys [OF assms(2)]
    by (intro strict_sorted_equal) (simp_all)
  moreover have "map (\<lambda>k. the (latest key rs k)) (map key rs) = rs"
    using own [of _ rs] assms(1) by (simp add: map_idI)
  moreover have "map (\<lambda>k. the (latest key rs k)) (map key qs) = qs"
    using own [of _ qs] assms(2,3) by (simp add: map_idI)
  ultimately show ?thesis by metis
qed

lemma canonical_iff: "canonical_packages rows = canonical_packages rows' \<longleftrightarrow> latest hr_name rows = latest hr_name rows'"
  using sorted_by_latest [OF canonical_sorted canonical_sorted] latest_canonical by metis


section \<open>What the hashes say\<close>

text \<open>
  C35: for an agent that cleaned its packages and repositories, and for a hostname and interfaces of valid text,
  the server computes from what it decodes of the report exactly the hashes the agent computed from its own lists.
\<close>

theorem report_hashes_agree:
  assumes "he_norm e [] = []" and "list_all valid_interface is" and "valid_utf8 h"
  shows "server_packages_hash e (map wire_package (map clean_package ps)) = agent_packages_hash e (map clean_package ps)
    \<and> repositories_hash e (map wire_repository (map clean_repository rs)) = repositories_hash e (map clean_repository rs)
    \<and> map_option (interfaces_hash e) (decode_network_interfaces (Some (wire_interfaces is))) = Some (interfaces_hash e is)
    \<and> hostname_hash e (wire_text h) = hostname_hash e h"
proof -
  have "list_all valid_package (map clean_package ps)" and "list_all valid_repository (map clean_repository rs)"
    by (simp_all add: list_all_iff clean_package_valid clean_repository_valid)
  then show ?thesis
    by (simp only: packages_hash_parity [OF assms(1)] repositories_hash_parity decode_wire_interfaces [OF assms(2)]
        wire_text_valid [OF assms(3)] option.map simp_thms)
qed

definition sample_env :: hash_env where
  "sample_env = \<lparr>he_norm = (\<lambda>s. s), he_sha = (\<lambda>s. s)\<rparr>"

definition sample_interface :: net_interface where
  "sample_interface = blank_interface
     \<lparr>ni_name := ''eth0'', ni_mtu := 1500,
      ni_addresses := [\<lparr>na_address = ''10.0.0.2'', na_family = ''inet'', na_netmask = ''/24'', na_gateway = []\<rparr>]\<rparr>"

lemma sample_interface_valid: "valid_interface sample_interface"
  by (simp add: sample_interface_def blank_interface_def valid_interface_def valid_address_def ascii_valid
      min_int64_def max_int64_def)

theorem report_hashes_agree_witness:
  "map_option (interfaces_hash sample_env) (decode_network_interfaces (Some (wire_interfaces [sample_interface])))
     = Some (interfaces_hash sample_env [sample_interface])"
proof -
  have "he_norm sample_env [] = []" and "list_all valid_interface [sample_interface]" and "valid_utf8 ''h''"
    by (simp_all add: sample_env_def sample_interface_valid ascii_valid)
  from report_hashes_agree [OF this] show ?thesis by blast
qed

text \<open>
  C34: the agent's hash of its packages equals the server's hash of the packages it holds exactly when every name
  has the same last row on both sides, provided SHA-256 does not collide on the two encodings and normalisation
  keeps text valid.  The order of the lists does not matter, and no difference in a hashed field goes unnoticed.
\<close>

theorem packages_hash_characterised:
  assumes "norm_ok e" and "list_all valid_package ps" and "list_all valid_report_package qs"
    and "no_collision e (packages_text (canonical_packages (map (agent_row e) ps)))
           (packages_text (canonical_packages (map (report_row e) qs)))"
  shows "agent_packages_hash e ps = server_packages_hash e qs
    \<longleftrightarrow> latest hr_name (map (agent_row e) ps) = latest hr_name (map (report_row e) qs)"
proof -
  let ?a = "canonical_packages (map (agent_row e) ps)" and ?b = "canonical_packages (map (report_row e) qs)"
  have v: "list_all valid_row ?a" "list_all valid_row ?b"
    using assms(1-3) agent_row_valid report_row_valid by (auto simp: list_all_iff dest!: in_canonical)
  have "agent_packages_hash e ps = server_packages_hash e qs \<longleftrightarrow> packages_text ?a = packages_text ?b"
    using hash_hex_inject [OF assms(4)] by (auto simp: agent_packages_hash_def server_packages_hash_def packages_text_def)
  also have "\<dots> \<longleftrightarrow> ?a = ?b" using packages_text_inject [OF v] by (intro iffI) simp_all
  finally show ?thesis by (simp only: canonical_iff)
qed

definition sample_package :: "string \<Rightarrow> string \<Rightarrow> agent_package" where
  "sample_package name version =
     \<lparr>pk_name = name, pk_description = [], pk_category = [], pk_current = version, pk_available = [],
      pk_needs_update = False, pk_security = False, pk_source = [], pk_wua_guid = [], pk_wua_kb = [],
      pk_wua_severity = [], pk_wua_categories = [], pk_wua_url = [], pk_wua_revision = 0, pk_wua_browse_only = False,
      pk_wua_type = [], pk_winget_id = [], pk_winget_pinned = False, pk_winget_store = False\<rparr>"

lemma sample_norm_ok: "norm_ok sample_env"
  by (simp add: norm_ok_def sample_env_def)

lemma sample_no_collision: "no_collision sample_env a b"
  by (simp add: no_collision_def sample_env_def)

theorem packages_hash_characterised_witness:
  "agent_packages_hash sample_env [sample_package ''a'' ''1'', sample_package ''a'' ''2'']
     = server_packages_hash sample_env [wire_package (sample_package ''a'' ''2'')]
   \<and> agent_packages_hash sample_env [sample_package ''a'' ''1'']
     \<noteq> server_packages_hash sample_env [wire_package (sample_package ''a'' ''2'')]"
proof -
  have ok: "list_all valid_package [sample_package ''a'' ''1'', sample_package ''a'' ''2'']"
    "list_all valid_package [sample_package ''a'' ''1'']"
    "list_all valid_report_package [wire_package (sample_package ''a'' ''2'')]"
    by (simp_all add: sample_package_def valid_package_def valid_report_package_def wire_package_def wire_text_valid ascii_valid)
  note iff = packages_hash_characterised [OF sample_norm_ok _ ok(3) sample_no_collision]
  have "trim_space [c] = [c]" if "\<not> ascii_space c" for c
    using that by (simp add: trim_space_def trim_left.simps all_space.simps)
  then have "nfc sample_env [c] = [c]" if "\<not> ascii_space c" for c
    using that by (simp add: nfc_def sample_env_def)
  moreover have "nfc sample_env [] = []"
    by (simp add: nfc_def sample_env_def trim_space_def trim_left.simps)
  ultimately show ?thesis
    using iff [OF ok(1)] iff [OF ok(2)]
    by (simp add: latest_Cons sample_package_def agent_row_def report_row_def wire_package_def wire_text_valid ascii_valid
        ascii_space_def fun_eq_iff)
qed

end
