(* ===== verification/Spec2Isabelle.thy ===== *)
theory Spec2Isabelle
  imports PatchHub AgentLink WinOutcome RpmVersion ApkVersion AuthFlow AdminSafety ReportHash
begin

text \<open>
  PatchMon manages the patching of hosts.  A Go server (\<open>server-source-code\<close>) keeps accounts, hosts and
  patch runs in PostgreSQL and short-lived state in Redis; an agent on every host
  (\<open>agent-source-code\<close>) holds a WebSocket to the server, reports the host's packages, and executes the runs
  it is sent.  A browser signs in, approves and starts runs and watches their output.  This development
  models these parts of it: the life of a patch run from its creation to its last report, the agents'
  connections that carry it, the sign-in that guards it, and the administration of users and roles.

  \<^bold>\<open>How the parts interact.\<close>  A run is a row of \<open>patch_runs\<close>.  The store (PatchRuns) creates and approves it
  with single SQL statements (PatchDb) in transactions (StoreTx); a queue task (PatchTasks) turns a waiting
  run into the command the agent gets over its socket (AgentRegistry, AgentLink).  A Windows agent executes
  it as WinRun describes, reporting item by item; the server checks and records these reports (PatchItems)
  and the output (PatchOutput, TextSanitize), and the hub (PatchHub) shows it live.  Lost connections and
  silent agents end runs through the callbacks and sweeps of AgentLink and PatchTasks.  Who may do any of
  this is settled by the sign-in theories (Auth*) and by roles (Roles, UserAdmin).

  \<^bold>\<open>Theories and the code they model.\<close>
  Paths are relative to \<open>src/server-source-code/internal\<close>, unless they start with \<open>agent:\<close> for
  \<open>src/agent-source-code\<close>.  Definitions carry the names of the Go functions in snake case.

  \<^item> Prelude: Go's string functions on bytes, \<open>strconv.Atoi\<close>, stable sorting, tables as lists of rows, and the
    wrap-around of 64-bit integers and of durations (\<open>int64_wrap\<close>, \<open>go_minutes\<close>).
  \<^item> StoreTx: an operation maps a state to a result (an error or a value) and a state; \<open>in_tx\<close> rolls back.
    Its locale \<open>state_relation\<close> is a reflexive, transitive relation every query keeps; it is interpreted
    on the table invariants and, in PatchRuns, on the life cycle of runs.
  \<^item> PatchDb: \<open>db/patching.sql.go\<close>.  A row of \<open>patch_runs\<close> and of \<open>patch_run_items\<close> is a record, each
    statement a function; an environment decides which statements fail.  The locale \<open>run_statement\<close> is the
    contract of a statement on one run, interpreted on all 21 of them.
  \<^item> TextSanitize: \<open>store/report_sanitize.go\<close> and \<open>agent:pkg/textsan\<close>.  PatchOutput: the parsers of
    \<open>store/patching.go\<close>.  PatchItems: \<open>store/patch_run_items.go\<close>.
  \<^item> PatchRuns: \<open>store/patching.go\<close>; the operations as the inductive relation of reachable states.
  \<^item> PatchTasks: the dispatch task and the sweep of \<open>queue/\<close>, and the handlers of \<open>handler/patching.go\<close> that
    take an agent's report, stop a run and delete one.
  \<^item> AgentRegistry: \<open>agentregistry/registry.go\<close>, with Base64 for its frames.  AgentLink:
    \<open>handler/agent_ws.go\<close> and the disconnect callback.  PatchHub: \<open>patchstream/hub.go\<close>, as
    interleaved steps of its goroutines, and the stream handler.
  \<^item> VersionOrder, RpmVersion, ApkVersion: \<open>util/version.go\<close>, \<open>agent:internal/packages/rpm_version.go\<close> and
    \<open>apk_version.go\<close>.  The locale \<open>three_way\<close> is the contract of a comparison, interpreted on all three.
  \<^item> WinUpdates, WinRun, WinStarts, WinOutcome: \<open>agent:internal/packages/windows_patch_logic.go\<close>.  The agent's
    backends (the update searcher, the installers, winget, the clock and the stop flag) are functions of an
    environment; a run returns its result and the trace of what it started and posted.
  \<^item> AuthStores: \<open>store/login_lockout.go\<close>, \<open>tfa_lockout.go\<close>, \<open>pending_login.go\<close>, \<open>tfa_replay.go\<close>.  Redis is a
    record of commands on an abstract state; the locale \<open>redis_server\<close> says what the commands do to live
    keys and is interpreted on a map with expiry times.
  \<^item> AuthAccounts: the user, session and device statements of \<open>db/\<close>.  AuthLogin: \<open>Login\<close>, \<open>VerifyTfa\<close> and
    \<open>completeLogin\<close> of \<open>handler/auth.go\<close>.  AuthSessions: \<open>middleware/auth.go\<close>, the session, password and
    two-factor handlers, and all requests as one state machine.
  \<^item> AuthSafety and AuthFlow: what holds of single requests, and of sequences of them.
  \<^item> Roles: \<open>middleware/permissions.go\<close>, \<open>store/permissions.go\<close> and \<open>handler/role_guard.go\<close>.  UserAdmin:
    the handlers of \<open>handler/users.go\<close>, \<open>users_tfa_reset.go\<close> and \<open>permissions.go\<close> that change users and roles,
    behind the permission their route asks for.  AdminSafety: what sequences of them can bring about.
  \<^item> GoJson: \<open>encoding/json\<close> on values of structs.  Its locale \<open>unambiguous\<close> is an encoding that can be read
    back before any rest; it is interpreted on numbers, texts and values.  ReportHash:
    \<open>agent:internal/hashing/canonical.go\<close>, \<open>handler/hash_canonical.go\<close> and \<open>agent:internal/textsan\<close>, with the
    hash and the Unicode normalisation as an environment.
\<close>

text \<open>
  \<^bold>\<open>What is shown.\<close>

  \<^item> Runs (PatchRuns, PatchTasks): every operation follows the abstract life cycle; an approval is consumed once;
    a finished run stays finished, but for a late dry run report, which revives it; approving is atomic;
    creating a run is refused exactly when its host is busy; stop, delete and the sweep touch what they
    should; an end is notified once.
  \<^item> Reports (PatchItems, PatchOutput, TextSanitize): items stay within their bound and are recorded only
    while the run accepts them; the parsers return on every input; both sides clean text alike.
  \<^item> Connections (AgentRegistry, AgentLink, PatchHub): the newest socket of an agent survives every stale
    teardown; frames between processes arrive once and unchanged; the hub panics only when a publisher is
    overtaken by a leaving viewer, and a viewer that stays sees a run to its end.
  \<^item> Windows runs: nothing starts in a dry run or after an interrupt; every item is settled when the run ends;
    what the agent posts is what the server accepts, and what the server dispatches the agent accepts.
  \<^item> Report hashes: agent and server compute the same hashes, and equal package hashes mean the same packages.
  \<^item> Versions: the comparisons are total preorders, and \<open>rpmvercmp\<close> compares token lists.
  \<^item> Sign-in: a session needs every factor; a second factor follows a password proven minutes before and uses
    up its ticket; a TOTP step completes one sign-in; a stored lockout holds until it expires; a refused
    password reveals nothing about the account; changing the password ends every other session for good,
    unless their revocation failed; an account with pending set-up is confined to it.
  \<^item> Administration: a group of users without a superadmin, and without the permissions of one, never hands out
    a permission it does not have; only accounts that the caller's role covers change.

  \<^bold>\<open>Bounds and termination.\<close>  Functions are structural recursions or carry a termination proof; loops with a
  bound in the code (three attempts at a backup code, batches of reports) have that bound; no definition
  needs fuel.  Go's integers are HOL's integers where the code stays in their range, as with lengths, counts
  of rows and times of the clock; version numbers of Alpine are 64-bit words, \<open>Atoi\<close> refuses what is out of
  range, and the products of configured
  minutes with \<open>time.Minute\<close> are wrapped (\<open>go_minutes\<close>), so that properties of lockouts and of the sweep name
  the bound under which they hold.

  \<^bold>\<open>What is assumed.\<close>  SQL statements have PostgreSQL's semantics on one snapshot and either take effect or
  fail; the unique indexes are those of the migrations.  Concurrency appears as arbitrary changes between a
  read and a write of one handler, as interleavings of operations, and as failures of any statement.  Redis
  is as \<open>redis_server\<close> says.  bcrypt, SHA-256, TOTP codes, JWTs and random values are parameters.

  \<^bold>\<open>Not modelled.\<close>  Patch policies and their recurrence, host inventory, the Docker and compliance hashes, single sign-on,
  API keys, alerts and notifications, compliance and Docker integration, remote access, settings,
  dashboards, and the agent's collectors and service loop.  Of the modelled parts, log lines, audit rows,
  notification texts and read-only listings are left out.
\<close>

end
